(* ===== verification/Prelude.thy ===== *)
theory Prelude
  imports Main "HOL-Library.Finite_Map"
begin

text \<open>
  Shared vocabulary of the development.

  \<^item> bounded integer arithmetic of the runtime: \<open>saturating_*\<close> and \<open>checked_*\<close> operations
    on natural numbers, with the bound of the integer type written out;
  \<^item> account identifiers, origins and the early-return combinators in which every
    dispatchable is written (a dispatchable returns \<open>Inl\<close> an error, which discards all
    its storage changes, or \<open>Inr\<close> the new state);
  \<^item> storage maps as finite maps, with sums and counts over their entries;
  \<^item> the \<open>dispatch_simps\<close> collection, which turns a successful run of a dispatchable into
    the conjunction of the guards that it passed.
\<close>

named_theorems dispatch_simps "unfolds a successful run of a dispatchable into its guards"
named_theorems arith_simps "definitions of the bounded integer operations"

section \<open>Bounded integers\<close>

definition u8_max :: nat where
  "u8_max = 255"

definition u16_max :: nat where
  "u16_max = 65535"

definition u32_max :: nat where
  "u32_max = 4294967295"

definition u64_max :: nat where
  "u64_max = 18446744073709551615"

definition u128_max :: nat where
  "u128_max = 340282366920938463463374607431768211455"

definition sat_add :: "nat \<Rightarrow> nat \<Rightarrow> nat \<Rightarrow> nat" where
  "sat_add mx a b = min mx (a + b)"

definition sat_mul :: "nat \<Rightarrow> nat \<Rightarrow> nat \<Rightarrow> nat" where
  "sat_mul mx a b = min mx (a * b)"

definition checked_add :: "nat \<Rightarrow> nat \<Rightarrow> nat \<Rightarrow> nat option" where
  "checked_add mx a b = (if a + b \<le> mx then Some (a + b) else None)"

definition checked_sub :: "nat \<Rightarrow> nat \<Rightarrow> nat option" where
  "checked_sub a b = (if b \<le> a then Some (a - b) else None)"

definition checked_mul :: "nat \<Rightarrow> nat \<Rightarrow> nat \<Rightarrow> nat option" where
  "checked_mul mx a b = (if a * b \<le> mx then Some (a * b) else None)"

text \<open>The saturating subtraction of the source is the truncated subtraction of \<^typ>\<open>nat\<close>.\<close>

abbreviation add128 :: "nat \<Rightarrow> nat \<Rightarrow> nat" where
  "add128 \<equiv> sat_add u128_max"

abbreviation add32 :: "nat \<Rightarrow> nat \<Rightarrow> nat" where
  "add32 \<equiv> sat_add u32_max"

lemmas [arith_simps] = sat_add_def sat_mul_def checked_add_def checked_sub_def checked_mul_def

lemma sat_add_le [simp]: "sat_add mx a b \<le> mx"
  by (simp add: sat_add_def)

lemma sat_add_exact [simp]: "a + b \<le> mx \<Longrightarrow> sat_add mx a b = a + b"
  by (simp add: sat_add_def)

lemma sat_add_mono_left: "a \<le> mx \<Longrightarrow> a \<le> sat_add mx a b"
  by (simp add: sat_add_def)

lemma sat_add_le_sum: "sat_add mx a b \<le> a + b"
  by (simp add: sat_add_def)

lemma sat_mul_exact [simp]: "a * b \<le> mx \<Longrightarrow> sat_mul mx a b = a * b"
  by (simp add: sat_mul_def)

lemma checked_add_Some [simp]: "checked_add mx a b = Some c \<longleftrightarrow> c = a + b \<and> a + b \<le> mx"
  by (auto simp: checked_add_def)

lemma checked_sub_Some [simp]: "checked_sub a b = Some c \<longleftrightarrow> c = a - b \<and> b \<le> a"
  by (auto simp: checked_sub_def)

lemma checked_mul_Some [simp]: "checked_mul mx a b = Some c \<longleftrightarrow> c = a * b \<and> a * b \<le> mx"
  by (auto simp: checked_mul_def)

section \<open>Accounts and origins\<close>

text \<open>
  An account identifier is the 32 bytes of an \<open>AccountId32\<close>, read as a number with the first
  byte least significant.
\<close>

type_synonym account_id = nat
type_synonym block_number = nat
type_synonym balance = nat

datatype origin = Root | Signed account_id | NoneOrigin

definition ensure_root :: "origin \<Rightarrow> bool" where
  "ensure_root o' = (o' = Root)"

section \<open>Early returns\<close>

text \<open>
  \<open>ensure!(b, e)\<close>, \<open>x.ok_or(e)?\<close>, \<open>m?\<close> and \<open>ensure_signed(origin)?\<close> in continuation style. The
  error type is fixed by the theory of the pallet errors, so these stay polymorphic in it.
\<close>

definition ensure :: "bool \<Rightarrow> 'e \<Rightarrow> 'e + 'a \<Rightarrow> 'e + 'a" where
  "ensure b e k = (if b then k else Inl e)"

definition ok_or :: "'b option \<Rightarrow> 'e \<Rightarrow> ('b \<Rightarrow> 'e + 'a) \<Rightarrow> 'e + 'a" where
  "ok_or x e k = (case x of None \<Rightarrow> Inl e | Some v \<Rightarrow> k v)"

definition try_bind :: "'e + 'b \<Rightarrow> ('b \<Rightarrow> 'e + 'a) \<Rightarrow> 'e + 'a" where
  "try_bind m k = (case m of Inl e \<Rightarrow> Inl e | Inr v \<Rightarrow> k v)"

definition map_err :: "('e \<Rightarrow> 'f) \<Rightarrow> 'e + 'a \<Rightarrow> 'f + 'a" where
  "map_err f m = (case m of Inl e \<Rightarrow> Inl (f e) | Inr v \<Rightarrow> Inr v)"

definition is_ok :: "'e + 'a \<Rightarrow> bool" where
  "is_ok m = (case m of Inl _ \<Rightarrow> False | Inr _ \<Rightarrow> True)"

lemma ensure_Inr [dispatch_simps]: "ensure b e k = Inr r \<longleftrightarrow> b \<and> k = Inr r"
  by (simp add: ensure_def)

lemma ok_or_Inr [dispatch_simps]: "ok_or x e k = Inr r \<longleftrightarrow> (\<exists>v. x = Some v \<and> k v = Inr r)"
  by (simp add: ok_or_def split: option.splits)

lemma try_bind_Inr [dispatch_simps]: "try_bind m k = Inr r \<longleftrightarrow> (\<exists>v. m = Inr v \<and> k v = Inr r)"
  by (simp add: try_bind_def split: sum.splits)

lemma map_err_Inr [dispatch_simps]: "map_err f m = Inr r \<longleftrightarrow> m = Inr r"
  by (simp add: map_err_def split: sum.splits)

lemma case_prod_Inr:
  "(case p of (a, b) \<Rightarrow> f a b) = Inr r \<longleftrightarrow> (\<exists>a b. p = (a, b) \<and> f a b = Inr r)"
  by (cases p) simp

lemma is_ok_Inr [simp]: "is_ok m \<longleftrightarrow> (\<exists>r. m = Inr r)"
  by (simp add: is_ok_def split: sum.splits)

lemma ensure_True [simp]: "ensure True e k = k"
  and ensure_False [simp]: "ensure False e k = Inl e"
  by (simp_all add: ensure_def)

lemma ok_or_None [simp]: "ok_or None e k = Inl e"
  and ok_or_Some [simp]: "ok_or (Some v) e k = k v"
  by (simp_all add: ok_or_def)

lemma try_bind_Inl_simp [simp]: "try_bind (Inl e) k = Inl e"
  and try_bind_Inr_simp [simp]: "try_bind (Inr v) k = k v"
  by (simp_all add: try_bind_def)

lemma map_err_Inl_simp [simp]: "map_err f (Inl e) = Inl (f e)"
  and map_err_Inr_simp [simp]: "map_err f (Inr v) = Inr v"
  by (simp_all add: map_err_def)

section \<open>Storage maps\<close>

text \<open>
  A storage map with \<open>ValueQuery\<close> reads the default value for an absent key.
\<close>

definition get_or :: "'v \<Rightarrow> ('k, 'v) fmap \<Rightarrow> 'k \<Rightarrow> 'v" where
  "get_or d m k = (case fmlookup m k of None \<Rightarrow> d | Some v \<Rightarrow> v)"

definition contains_key :: "('k, 'v) fmap \<Rightarrow> 'k \<Rightarrow> bool" where
  "contains_key m k = (fmlookup m k \<noteq> None)"

text \<open>
  \<open>try_mutate\<close> on a present key, \<open>clear_prefix\<close> of a double map, and \<open>try_push\<close> of a bounded vector.
\<close>

definition fm_mutate :: "'k \<Rightarrow> ('v \<Rightarrow> 'v) \<Rightarrow> ('k, 'v) fmap \<Rightarrow> ('k, 'v) fmap" where
  "fm_mutate k f m = (case fmlookup m k of None \<Rightarrow> m | Some v \<Rightarrow> fmupd k (f v) m)"

definition clear_prefix :: "'a \<Rightarrow> ('a \<times> 'b, 'v) fmap \<Rightarrow> ('a \<times> 'b, 'v) fmap" where
  "clear_prefix a m = fmfilter (\<lambda>(a', _). a' \<noteq> a) m"

definition try_push :: "nat \<Rightarrow> 'a \<Rightarrow> 'a list \<Rightarrow> 'a list option" where
  "try_push mx x xs = (if length xs < mx then Some (xs @ [x]) else None)"

text \<open>Sum of a measure over the entries of a map.\<close>

definition fmsum :: "('k \<Rightarrow> 'v \<Rightarrow> nat) \<Rightarrow> ('k, 'v) fmap \<Rightarrow> nat" where
  "fmsum f m = (\<Sum>k\<in>fmdom' m. f k (the (fmlookup m k)))"

text \<open>Number of entries of a map that satisfy a predicate.\<close>

definition fmcount :: "('k \<Rightarrow> 'v \<Rightarrow> bool) \<Rightarrow> ('k, 'v) fmap \<Rightarrow> nat" where
  "fmcount P m = fmsum (\<lambda>k v. if P k v then 1 else 0) m"

definition opt_nat :: "('v \<Rightarrow> nat) \<Rightarrow> 'v option \<Rightarrow> nat" where
  "opt_nat f x = (case x of None \<Rightarrow> 0 | Some v \<Rightarrow> f v)"

lemma get_or_upd [simp]: "get_or d (fmupd k v m) k' = (if k = k' then v else get_or d m k')"
  by (simp add: get_or_def)

lemma get_or_drop [simp]: "get_or d (fmdrop k m) k' = (if k = k' then d else get_or d m k')"
  by (simp add: get_or_def)

lemma get_or_Some [simp]: "fmlookup m k = Some v \<Longrightarrow> get_or d m k = v"
  by (simp add: get_or_def)

lemma get_or_None [simp]: "fmlookup m k = None \<Longrightarrow> get_or d m k = d"
  by (simp add: get_or_def)

lemma get_or_empty [simp]: "get_or d fmempty k = d"
  by (simp add: get_or_def)

lemma contains_key_upd [simp]: "contains_key (fmupd k v m) k' \<longleftrightarrow> k = k' \<or> contains_key m k'"
  by (simp add: contains_key_def)

lemma contains_key_drop [simp]: "contains_key (fmdrop k m) k' \<longleftrightarrow> k \<noteq> k' \<and> contains_key m k'"
  by (simp add: contains_key_def)

lemma contains_key_empty [simp]: "\<not> contains_key fmempty k"
  by (simp add: contains_key_def)

lemma opt_nat_simps [simp]: "opt_nat f None = 0" "opt_nat f (Some v) = f v"
  by (simp_all add: opt_nat_def)

lemma fmsum_empty [simp]: "fmsum f fmempty = 0"
  by (simp add: fmsum_def)

lemma fmsum_remove:
  "fmsum f m = opt_nat (f k) (fmlookup m k) + (\<Sum>j\<in>fmdom' m - {k}. f j (the (fmlookup m j)))"
proof (cases "fmlookup m k")
  case None
  then have "fmdom' m - {k} = fmdom' m" by (auto simp: fmlookup_dom'_iff)
  with None show ?thesis by (simp add: fmsum_def)
next
  case (Some v)
  then have "k \<in> fmdom' m" by (simp add: fmdom'I)
  then show ?thesis using Some by (simp add: fmsum_def sum.remove [of _ k])
qed

lemma fmsum_drop: "fmsum f (fmdrop k m) + opt_nat (f k) (fmlookup m k) = fmsum f m"
proof -
  have "fmsum f (fmdrop k m) = (\<Sum>j\<in>fmdom' m - {k}. f j (the (fmlookup m j)))"
    unfolding fmsum_def by (rule sum.cong) auto
  then show ?thesis by (simp add: fmsum_remove [of f m k])
qed

lemma fmsum_upd: "fmsum f (fmupd k v m) + opt_nat (f k) (fmlookup m k) = fmsum f m + f k v"
proof -
  have "(\<Sum>j\<in>fmdom' (fmupd k v m) - {k}. f j (the (fmlookup (fmupd k v m) j)))
      = (\<Sum>j\<in>fmdom' m - {k}. f j (the (fmlookup m j)))"
    by (rule sum.cong) auto
  then show ?thesis by (simp add: fmsum_remove [of f _ k])
qed

lemma fmsum_agree:
  assumes "\<And>j. j \<noteq> k \<Longrightarrow> fmlookup m' j = fmlookup m j"
  shows "fmsum f m' + opt_nat (f k) (fmlookup m k) = fmsum f m + opt_nat (f k) (fmlookup m' k)"
proof -
  have dom: "fmdom' m' - {k} = fmdom' m - {k}" using assms by (auto simp: fmlookup_dom'_iff)
  have "(\<Sum>j\<in>fmdom' m' - {k}. f j (the (fmlookup m' j))) = (\<Sum>j\<in>fmdom' m - {k}. f j (the (fmlookup m j)))"
    unfolding dom by (rule sum.cong) (auto simp: assms)
  then show ?thesis by (simp add: fmsum_remove [of f _ k])
qed

lemma fmsum_opt:
  assumes "finite A" "fmdom' m \<subseteq> A"
  shows "fmsum f m = (\<Sum>k\<in>A. opt_nat (f k) (fmlookup m k))"
proof -
  have "(\<Sum>k\<in>A. opt_nat (f k) (fmlookup m k)) = (\<Sum>k\<in>fmdom' m. opt_nat (f k) (fmlookup m k))"
    by (rule sum.mono_neutral_right [OF assms]) (auto simp: fmlookup_dom'_iff opt_nat_def split: option.splits)
  also have "\<dots> = fmsum f m" unfolding fmsum_def by (rule sum.cong) (auto simp: fmlookup_dom'_iff)
  finally show ?thesis by simp
qed

lemma fmsum_eqI:
  assumes "\<And>k. opt_nat (f k) (fmlookup m' k) = opt_nat (f k) (fmlookup m k)"
  shows "fmsum f m' = fmsum f m"
  using fmsum_opt [of "fmdom' m \<union> fmdom' m'" m f] fmsum_opt [of "fmdom' m \<union> fmdom' m'" m' f] assms by simp

lemma fmsum_ge: "fmlookup m k = Some v \<Longrightarrow> f k v \<le> fmsum f m"
  by (simp add: fmsum_remove [of f m k])

lemma fmsum_cong:
  assumes "\<And>k v. fmlookup m k = Some v \<Longrightarrow> f k v = g k v"
  shows "fmsum f m = fmsum g m"
  unfolding fmsum_def
proof (rule sum.cong)
  fix k assume "k \<in> fmdom' m"
  then obtain v where "fmlookup m k = Some v" by (auto simp: fmlookup_dom'_iff)
  with assms show "f k (the (fmlookup m k)) = g k (the (fmlookup m k))" by simp
qed simp

lemma fmsum_zero_iff: "fmsum f m = 0 \<longleftrightarrow> (\<forall>k v. fmlookup m k = Some v \<longrightarrow> f k v = 0)"
proof
  assume z: "fmsum f m = 0"
  then show "\<forall>k v. fmlookup m k = Some v \<longrightarrow> f k v = 0"
    using fmsum_ge [of m _ _ f] by fastforce
next
  assume "\<forall>k v. fmlookup m k = Some v \<longrightarrow> f k v = 0"
  then show "fmsum f m = 0"
    by (auto simp: fmsum_def fmlookup_dom'_iff)
qed

lemma fmcount_upd:
  "fmcount P (fmupd k v m) + (if \<exists>w. fmlookup m k = Some w \<and> P k w then 1 else 0)
     = fmcount P m + (if P k v then 1 else 0)"
  unfolding fmcount_def
  using fmsum_upd [of "\<lambda>k v. if P k v then 1 else 0" k v m]
  by (cases "fmlookup m k") auto

lemma fmcount_drop:
  "fmcount P (fmdrop k m) + (if \<exists>w. fmlookup m k = Some w \<and> P k w then 1 else 0) = fmcount P m"
  unfolding fmcount_def
  using fmsum_drop [of "\<lambda>k v. if P k v then 1 else 0" k m]
  by (cases "fmlookup m k") auto

lemma fm_mutate_lookup [simp]:
  "fmlookup (fm_mutate k f m) k' = (if k = k' then map_option f (fmlookup m k) else fmlookup m k')"
  by (simp add: fm_mutate_def split: option.splits)

lemma fm_mutate_Some: "fmlookup m k = Some v \<Longrightarrow> fm_mutate k f m = fmupd k (f v) m"
  by (simp add: fm_mutate_def)

lemma clear_prefix_lookup [simp]:
  "fmlookup (clear_prefix a m) k = (if fst k = a then None else fmlookup m k)"
  by (simp add: clear_prefix_def split: prod.splits)

lemma fmcount_clear_prefix:
  "fmcount (\<lambda>k v. fst k = a) (clear_prefix b m) = (if a = b then 0 else fmcount (\<lambda>k v. fst k = a) m)"
proof (cases "a = b")
  case True
  then show ?thesis by (auto simp: fmcount_def fmsum_zero_iff)
next
  case False
  then show ?thesis unfolding fmcount_def by (auto intro!: fmsum_eqI simp: opt_nat_def split: option.splits)
qed

lemma try_push_Some [simp]: "try_push mx x xs = Some ys \<longleftrightarrow> length xs < mx \<and> ys = xs @ [x]"
  by (auto simp: try_push_def)

lemma fmcount_empty [simp]: "fmcount P fmempty = 0"
  by (simp add: fmcount_def)

section \<open>Transition systems\<close>

text \<open>The states that a step relation reaches from the initial states, and how invariants carry over.\<close>

inductive reachable :: "('s \<Rightarrow> bool) \<Rightarrow> ('s \<Rightarrow> 's \<Rightarrow> bool) \<Rightarrow> 's \<Rightarrow> bool"
  for start :: "'s \<Rightarrow> bool" and step :: "'s \<Rightarrow> 's \<Rightarrow> bool" where
  reachable_start: "start s \<Longrightarrow> reachable start step s"
| reachable_step: "\<lbrakk>reachable start step s; step s s'\<rbrakk> \<Longrightarrow> reachable start step s'"

lemma reachable_invariant:
  assumes "reachable start step s"
    and "\<And>s. start s \<Longrightarrow> P s" and "\<And>s s'. \<lbrakk>P s; step s s'\<rbrakk> \<Longrightarrow> P s'"
  shows "P s"
  using assms(1) by (induction) (blast intro: assms(2,3))+

lemma reachable_related:
  assumes "step\<^sup>*\<^sup>* s t" "P s"
    and "\<And>s s'. \<lbrakk>P s; step s s'\<rbrakk> \<Longrightarrow> P s' \<and> R s s'"
    and refl: "\<And>s. R s s" and trans: "\<And>s t u. \<lbrakk>R s t; R t u\<rbrakk> \<Longrightarrow> R s u"
  shows "P t \<and> R s t"
  using assms(1,2)
proof (induction rule: rtranclp_induct)
  case base
  then show ?case using refl by simp
next
  case (step y z)
  then show ?case using assms(3) trans by blast
qed

end
