(* ===== verification/Errors.thy ===== *)
theory Errors
  imports Prelude
begin

text \<open>
  The error values of the runtime. \<open>dispatch_error\<close> has the constructors of
  \<open>sp_runtime::DispatchError\<close> that the modelled code returns; the error enumeration of each
  pallet is a datatype of its own, and \<open>module_error\<close> is their union, as the
  \<open>construct_runtime!\<close> macro builds it. The \<open>ensure_signed\<close> and \<open>ensure_origin\<close> combinators
  close over the \<open>BadOrigin\<close> error.
\<close>

datatype assets_error =
    BalanceLow | NoAccount | NoPermission | Unknown | Frozen | InUse | BadWitness
  | MinBalanceZero | UnavailableConsumer | BadMetadata | Unapproved | WouldDie | AlreadyExists
  | NoDeposit | WouldBurn | LiveAsset | AssetNotLive | IncorrectStatus | NotFrozen
  | CallbackFailed

datatype token_error =
    FundsUnavailable | OnlyProvider | BelowMinimum | CannotCreate | UnknownAsset | Frozen
  | Unsupported | CannotCreateHold | NotExpendable | Blocked

datatype arithmetic_error = Underflow | Overflow | DivisionByZero

datatype balances_error =
    VestingBalance | LiquidityRestrictions | InsufficientBalance | ExistentialDeposit
  | Expendability | ExistingVestingSchedule | DeadAccount | TooManyReserves | TooManyHolds
  | TooManyFreezes | IssuanceDeactivated | DeltaZero

datatype (plugins only: code) cf_error =
    CampaignNotFound | NotCampaignCreator | InvalidCampaignStatus | CampaignStillFunding
  | DeadlinePassed | DeadlineInPast | DurationTooShort | DurationTooLong | GoalNotMet
  | HardCapExceeded | InvestmentBelowMinimum | InvestmentExceedsMaxPerInvestor
  | InsufficientInvestment | NoInvestmentFound | NothingToRefund | AlreadyClaimed
  | EligibilityCheckFailed | InvalidMilestoneIndex | InvalidMilestoneStatus
  | MilestoneBpsSumInvalid | MaxCampaignsPerCreatorReached | MaxInvestmentsPerInvestorReached
  | InsufficientBalance | InvalidFundingModel | NothingToClaim | CampaignNotFunding
  | CampaignNotPaused | NotCampaignCreatorOrAdmin | CampaignIdOverflow | InvalidPenaltyBps
  | InvalidFeeBps | LicenseNotActive | CampaignLicenseRevoked | NoLinkedLicense
  | WhitelistFull | CampaignExceedsLicenseExpiry

datatype (plugins only: code) rwa_error =
    AssetNotFound | NotAssetOwner | InvalidAssetStatus | AssetAlreadyRetired
  | ExpiryBlockInPast | ExpiryNotReached | SunsettingSlotsFull | MaxAssetsPerOwnerReached
  | MetadataTooLong | ParticipationNotFound | NotPayer | NotHolder
  | InvalidParticipationStatus | ParticipationExpiredError | MaxParticipantsReached
  | HolderAlreadyExists | HolderNotFound | MaxGroupSizeReached | AlreadyParticipating
  | MaxParticipationsPerHolderReached | SlashSharesSumInvalid | AssetNotActive
  | PendingApprovalsFull | PolicyFieldImmutable | MaxParticipantsBelowCurrent
  | EmptyHoldersList | SlashAmountExceedsDeposit | TransferToSelf | NoPendingTransfer
  | NotPendingOwner | ParticipantNotEligible | AssetIdOverflow | ParticipationIdOverflow
  | DepositBelowMinimum | BlockedByLifecycleGuard

datatype module_error =
    BalancesError balances_error
  | AssetsError assets_error
  | CrowdfundingError cf_error
  | RwaError rwa_error

datatype dispatch_error =
    Other string | CannotLookup | BadOrigin | Module module_error | ConsumerRemaining
  | NoProviders | TooManyConsumers | Token token_error | Arithmetic arithmetic_error
  | Exhausted | Corruption | Unavailable

type_synonym 'a dispatch_result = "dispatch_error + 'a"

abbreviation cf_err :: "cf_error \<Rightarrow> dispatch_error" where
  "cf_err e \<equiv> Module (CrowdfundingError e)"

abbreviation rwa_err :: "rwa_error \<Rightarrow> dispatch_error" where
  "rwa_err e \<equiv> Module (RwaError e)"

abbreviation balances_err :: "balances_error \<Rightarrow> dispatch_error" where
  "balances_err e \<equiv> Module (BalancesError e)"

abbreviation assets_err :: "assets_error \<Rightarrow> dispatch_error" where
  "assets_err e \<equiv> Module (AssetsError e)"

definition ensure_signed :: "origin \<Rightarrow> (account_id \<Rightarrow> 'a dispatch_result) \<Rightarrow> 'a dispatch_result" where
  "ensure_signed o' k = (case o' of Signed who \<Rightarrow> k who | _ \<Rightarrow> Inl BadOrigin)"

definition ensure_origin :: "(origin \<Rightarrow> bool) \<Rightarrow> origin \<Rightarrow> 'a dispatch_result \<Rightarrow> 'a dispatch_result" where
  "ensure_origin P o' k = (if P o' then k else Inl BadOrigin)"

lemma ensure_signed_Inr [dispatch_simps]:
  "ensure_signed o' k = Inr r \<longleftrightarrow> (\<exists>who. o' = Signed who \<and> k who = Inr r)"
  by (simp add: ensure_signed_def split: origin.splits)

lemma ensure_origin_Inr [dispatch_simps]: "ensure_origin P o' k = Inr r \<longleftrightarrow> P o' \<and> k = Inr r"
  by (simp add: ensure_origin_def)

lemma ensure_signed_simps [simp]:
  "ensure_signed (Signed who) k = k who"
  "ensure_signed Root k = Inl BadOrigin"
  "ensure_signed NoneOrigin k = Inl BadOrigin"
  by (simp_all add: ensure_signed_def)

end
