(* ===== verification/Currency.thy ===== *)
theory Currency
  imports Errors
begin

text \<open>
  The token interface of \<open>frame_support::traits::tokens\<close>: its enumerations, the operations that
  the pallets call, and the contracts that the pallets rely on, as locales. A ledger is abstract
  here (a type variable); the locales are interpreted on the models of \<open>pallet_balances\<close> and
  \<open>pallet_assets\<close> in the theory of the assets.
\<close>

datatype existence_requirement = KeepAlive | AllowDeath

datatype preservation = Expendable | Protect | Preserve

datatype fortitude = Polite | Force

datatype precision = Exact | BestEffort

datatype provenance = Minted | Extant

datatype balance_status = Free | Reserved

datatype withdraw_consequence =
    WcBalanceLow | WcWouldDie | WcUnknownAsset | WcUnderflow | WcOverflow | WcFrozen
  | WcReducedToZero balance | WcSuccess

datatype deposit_consequence =
    DcBelowMinimum | DcCannotCreate | DcUnknownAsset | DcOverflow | DcSuccess | DcBlocked

fun withdraw_into_result :: "withdraw_consequence \<Rightarrow> bool \<Rightarrow> balance dispatch_result" where
  "withdraw_into_result WcBalanceLow keep_nonzero = Inl (Token FundsUnavailable)"
| "withdraw_into_result WcWouldDie keep_nonzero = Inl (Token OnlyProvider)"
| "withdraw_into_result WcUnknownAsset keep_nonzero = Inl (Token UnknownAsset)"
| "withdraw_into_result WcUnderflow keep_nonzero = Inl (Arithmetic Underflow)"
| "withdraw_into_result WcOverflow keep_nonzero = Inl (Arithmetic Overflow)"
| "withdraw_into_result WcFrozen keep_nonzero = Inl (Token Frozen)"
| "withdraw_into_result (WcReducedToZero r) keep_nonzero =
     (if keep_nonzero then Inl (Token NotExpendable) else Inr r)"
| "withdraw_into_result WcSuccess keep_nonzero = Inr 0"

fun deposit_into_result :: "deposit_consequence \<Rightarrow> unit dispatch_result" where
  "deposit_into_result DcBelowMinimum = Inl (Token BelowMinimum)"
| "deposit_into_result DcCannotCreate = Inl (Token CannotCreate)"
| "deposit_into_result DcUnknownAsset = Inl (Token UnknownAsset)"
| "deposit_into_result DcOverflow = Inl (Arithmetic Overflow)"
| "deposit_into_result DcBlocked = Inl (Token Blocked)"
| "deposit_into_result DcSuccess = Inr ()"

lemma deposit_into_result_Inr [dispatch_simps]: "deposit_into_result c = Inr u \<longleftrightarrow> c = DcSuccess"
  by (cases c) simp_all

text \<open>The payment currency of a campaign or of an asset policy.\<close>

datatype payment_currency = Native | Asset nat

section \<open>The currency parameters of a pallet\<close>

text \<open>
  The \<open>NativeCurrency\<close> and \<open>Fungibles\<close> type parameters of a pallet, as a record of the trait
  operations that the pallets call. The native operations are those of \<open>Currency\<close> and
  \<open>ReservableCurrency\<close>; \<open>withdraw\<close> returns the amount of the negative imbalance, which the caller
  drops. The asset operations are those of \<open>fungibles::Inspect\<close> and \<open>fungibles::Mutate\<close>.
\<close>

record 'l currencies =
  native_minimum :: balance
  native_free :: "'l \<Rightarrow> account_id \<Rightarrow> balance"
  native_reserved :: "'l \<Rightarrow> account_id \<Rightarrow> balance"
  native_transfer :: "account_id \<Rightarrow> account_id \<Rightarrow> balance \<Rightarrow> existence_requirement \<Rightarrow> 'l \<Rightarrow> 'l dispatch_result"
  native_withdraw :: "account_id \<Rightarrow> balance \<Rightarrow> existence_requirement \<Rightarrow> 'l \<Rightarrow> (balance \<times> 'l) dispatch_result"
  native_drop_imbalance :: "balance \<Rightarrow> 'l \<Rightarrow> 'l"
  native_reserve :: "account_id \<Rightarrow> balance \<Rightarrow> 'l \<Rightarrow> 'l dispatch_result"
  native_unreserve :: "account_id \<Rightarrow> balance \<Rightarrow> 'l \<Rightarrow> balance \<times> 'l"
  fungibles_balance :: "'l \<Rightarrow> nat \<Rightarrow> account_id \<Rightarrow> balance"
  fungibles_transfer :: "nat \<Rightarrow> account_id \<Rightarrow> account_id \<Rightarrow> balance \<Rightarrow> preservation \<Rightarrow> 'l \<Rightarrow> 'l dispatch_result"
  fungibles_burn :: "nat \<Rightarrow> account_id \<Rightarrow> balance \<Rightarrow> preservation \<Rightarrow> precision \<Rightarrow> 'l \<Rightarrow> 'l dispatch_result"

text \<open>The balance of an account in a payment currency.\<close>

definition pay_balance :: "'l currencies \<Rightarrow> 'l \<Rightarrow> payment_currency \<Rightarrow> account_id \<Rightarrow> balance" where
  "pay_balance K l c who = (case c of Native \<Rightarrow> native_free K l who | Asset i \<Rightarrow> fungibles_balance K l i who)"

definition pay_minimum :: "'l currencies \<Rightarrow> ('l \<Rightarrow> nat \<Rightarrow> balance) \<Rightarrow> 'l \<Rightarrow> payment_currency \<Rightarrow> balance" where
  "pay_minimum K amin l c = (case c of Native \<Rightarrow> native_minimum K | Asset i \<Rightarrow> amin l i)"

definition pay_room :: "('l \<Rightarrow> nat \<Rightarrow> bool) \<Rightarrow> 'l \<Rightarrow> payment_currency \<Rightarrow> bool" where
  "pay_room room l c = (case c of Native \<Rightarrow> True | Asset i \<Rightarrow> room l i)"

section \<open>Contracts\<close>

text \<open>
  \<open>native_currency\<close>: what a successful transfer or withdrawal does to the free balances. A transfer
  that may kill its source loses the rest of the source when the rest is below the existential
  deposit; one that must keep it alive never does.
\<close>

locale native_currency =
  fixes K :: "'l currencies" and inv :: "'l \<Rightarrow> bool"
  assumes native_transfer_inv: "\<lbrakk>inv l; native_transfer K a b v er l = Inr l'\<rbrakk> \<Longrightarrow> inv l'"
    and native_transfer_trivial: "v = 0 \<or> a = b \<Longrightarrow> native_transfer K a b v er l = Inr l"
    and native_transfer_moves:
      "\<lbrakk>inv l; native_transfer K a b v er l = Inr l'; a \<noteq> b; v \<noteq> 0\<rbrakk> \<Longrightarrow>
         v \<le> native_free K l a \<and> native_free K l' b = native_free K l b + v \<and>
         (native_free K l' a = native_free K l a - v \<or>
          er = AllowDeath \<and> native_free K l a - v < native_minimum K \<and> native_free K l' a = 0) \<and>
         (er = KeepAlive \<longrightarrow> native_minimum K \<le> native_free K l' a)"
    and native_transfer_other:
      "\<lbrakk>inv l; native_transfer K a b v er l = Inr l'; c \<noteq> a; c \<noteq> b\<rbrakk> \<Longrightarrow>
         native_free K l' c = native_free K l c"
    and native_withdraw_inv:
      "\<lbrakk>inv l; native_withdraw K a v er l = Inr (imb, l')\<rbrakk> \<Longrightarrow> inv (native_drop_imbalance K imb l')"
    and native_withdraw_source:
      "\<lbrakk>inv l; native_withdraw K a v er l = Inr (imb, l'); v \<noteq> 0\<rbrakk> \<Longrightarrow>
         v \<le> native_free K l a \<and>
         (native_free K (native_drop_imbalance K imb l') a = native_free K l a - v \<or>
          native_free K l a - v < native_minimum K \<and> native_free K (native_drop_imbalance K imb l') a = 0)"
    and native_withdraw_other:
      "\<lbrakk>inv l; native_withdraw K a v er l = Inr (imb, l'); c \<noteq> a\<rbrakk> \<Longrightarrow>
         native_free K (native_drop_imbalance K imb l') c = native_free K l c"

text \<open>
  \<open>reservable_currency\<close> adds \<open>ReservableCurrency\<close>: reserving moves funds inside one account, and
  releasing them gives back what was reserved.
\<close>

locale reservable_currency = native_currency +
  assumes native_transfer_reserved:
      "\<lbrakk>inv l; native_transfer K a b v er l = Inr l'\<rbrakk> \<Longrightarrow> native_reserved K l' c = native_reserved K l c"
    and native_withdraw_reserved:
      "\<lbrakk>inv l; native_withdraw K a v er l = Inr (imb, l')\<rbrakk> \<Longrightarrow>
         native_reserved K (native_drop_imbalance K imb l') c = native_reserved K l c"
    and native_reserve_inv: "\<lbrakk>inv l; native_reserve K a v l = Inr l'\<rbrakk> \<Longrightarrow> inv l'"
    and native_reserve_moves:
      "\<lbrakk>inv l; native_reserve K a v l = Inr l'\<rbrakk> \<Longrightarrow>
         v \<le> native_free K l a \<and> native_free K l' a = native_free K l a - v \<and>
         native_reserved K l' a = native_reserved K l a + v"
    and native_reserve_other:
      "\<lbrakk>inv l; native_reserve K a v l = Inr l'; c \<noteq> a\<rbrakk> \<Longrightarrow>
         native_free K l' c = native_free K l c \<and> native_reserved K l' c = native_reserved K l c"
    and native_unreserve_inv: "\<lbrakk>inv l; native_unreserve K a v l = (r, l')\<rbrakk> \<Longrightarrow> inv l'"
    and native_unreserve_moves:
      "\<lbrakk>inv l; native_unreserve K a v l = (r, l')\<rbrakk> \<Longrightarrow>
         r = v - min (native_reserved K l a) v \<and>
         native_reserved K l' a = native_reserved K l a - v"
    and native_unreserve_other:
      "\<lbrakk>inv l; native_unreserve K a v l = (r, l'); c \<noteq> a\<rbrakk> \<Longrightarrow>
         native_free K l' c = native_free K l c \<and> native_reserved K l' c = native_reserved K l c"

text \<open>
  \<open>fungibles_currency\<close>: the same for fungible assets. \<open>amin\<close> is the minimum balance of an asset and
  \<open>room\<close> says that its counters are not about to overflow: the pallet swallows the error of the
  credit side of a transfer, so without room the amount may be lost to the receiver.
\<close>

locale fungibles_currency =
  fixes K :: "'l currencies" and inv :: "'l \<Rightarrow> bool"
    and room :: "'l \<Rightarrow> nat \<Rightarrow> bool" and amin :: "'l \<Rightarrow> nat \<Rightarrow> balance"
  assumes fungibles_transfer_inv: "\<lbrakk>inv l; v \<noteq> 0; fungibles_transfer K i a b v p l = Inr l'\<rbrakk> \<Longrightarrow> inv l'"
    and fungibles_transfer_self: "fungibles_transfer K i a a v p l = Inr l' \<Longrightarrow> l' = l"
    and fungibles_transfer_debit:
      "\<lbrakk>inv l; fungibles_transfer K i a b v p l = Inr l'; a \<noteq> b; v \<noteq> 0\<rbrakk> \<Longrightarrow>
         v \<le> fungibles_balance K l i a \<and>
         (fungibles_balance K l' i a = fungibles_balance K l i a - v \<or>
          p = Expendable \<and> fungibles_balance K l i a - v < amin l i \<and> fungibles_balance K l' i a = 0)"
    and fungibles_transfer_credit:
      "\<lbrakk>inv l; fungibles_transfer K i a b v p l = Inr l'; a \<noteq> b; v \<noteq> 0\<rbrakk> \<Longrightarrow>
         fungibles_balance K l' i b = fungibles_balance K l i b + v \<or>
         \<not> room l i \<and> fungibles_balance K l' i b = fungibles_balance K l i b"
    and fungibles_transfer_other:
      "\<lbrakk>inv l; v \<noteq> 0; fungibles_transfer K i a b v p l = Inr l'; (j, c) \<noteq> (i, a); (j, c) \<noteq> (i, b)\<rbrakk> \<Longrightarrow>
         fungibles_balance K l' j c = fungibles_balance K l j c"
    and fungibles_transfer_min:
      "\<lbrakk>inv l; v \<noteq> 0; fungibles_transfer K i a b v p l = Inr l'\<rbrakk> \<Longrightarrow> amin l' j = amin l j"
    and fungibles_burn_inv: "\<lbrakk>inv l; v \<noteq> 0; fungibles_burn K i a v Expendable Exact l = Inr l'\<rbrakk> \<Longrightarrow> inv l'"
    and fungibles_burn_source:
      "\<lbrakk>inv l; fungibles_burn K i a v Expendable Exact l = Inr l'; v \<noteq> 0\<rbrakk> \<Longrightarrow>
         v \<le> fungibles_balance K l i a \<and>
         (fungibles_balance K l' i a = fungibles_balance K l i a - v \<or>
          fungibles_balance K l i a - v < amin l i \<and> fungibles_balance K l' i a = 0)"
    and fungibles_burn_other:
      "\<lbrakk>inv l; v \<noteq> 0; fungibles_burn K i a v Expendable Exact l = Inr l'; (j, c) \<noteq> (i, a)\<rbrakk> \<Longrightarrow>
         fungibles_balance K l' j c = fungibles_balance K l j c"
    and fungibles_burn_min:
      "\<lbrakk>inv l; v \<noteq> 0; fungibles_burn K i a v Expendable Exact l = Inr l'\<rbrakk> \<Longrightarrow> amin l' j = amin l j"

text \<open>\<open>payments\<close>: both, on one ledger, not interfering with each other.\<close>

locale payments = reservable_currency K inv + fungibles_currency K inv room amin
  for K :: "'l currencies" and inv :: "'l \<Rightarrow> bool"
    and room :: "'l \<Rightarrow> nat \<Rightarrow> bool" and amin :: "'l \<Rightarrow> nat \<Rightarrow> balance" +
  assumes native_transfer_assets:
      "native_transfer K a b v er l = Inr l' \<Longrightarrow>
         fungibles_balance K l' i c = fungibles_balance K l i c \<and> amin l' i = amin l i"
    and native_withdraw_assets:
      "native_withdraw K a v er l = Inr (imb, l') \<Longrightarrow>
         fungibles_balance K (native_drop_imbalance K imb l') i c = fungibles_balance K l i c \<and>
         amin (native_drop_imbalance K imb l') i = amin l i"
    and native_reserve_assets:
      "native_reserve K a v l = Inr l' \<Longrightarrow>
         fungibles_balance K l' i c = fungibles_balance K l i c \<and> amin l' i = amin l i"
    and native_unreserve_assets:
      "native_unreserve K a v l = (r, l') \<Longrightarrow>
         fungibles_balance K l' i c = fungibles_balance K l i c \<and> amin l' i = amin l i"
    and fungibles_transfer_native:
      "\<lbrakk>inv l; v \<noteq> 0; fungibles_transfer K i a b v p l = Inr l'\<rbrakk> \<Longrightarrow>
         native_free K l' c = native_free K l c \<and> native_reserved K l' c = native_reserved K l c"
    and fungibles_burn_native:
      "\<lbrakk>inv l; v \<noteq> 0; fungibles_burn K i a v Expendable Exact l = Inr l'\<rbrakk> \<Longrightarrow>
         native_free K l' c = native_free K l c \<and> native_reserved K l' c = native_reserved K l c"

end
