(* ===== verification/Balances.thy ===== *)
theory Balances
  imports Currency
begin

text \<open>
  The account store of \<open>frame_system\<close> (reference counters) and the native currency
  \<open>pallet_balances\<close> on top of it: \<open>Currency\<close> and \<open>ReservableCurrency\<close> as the pallets use them, in
  the configuration of the leafchain runtime (\<open>AccountStore = System\<close>, \<open>DustRemoval = ()\<close>, the
  \<open>insecure_zero_ed\<close> feature off).

  A store mutation can fail after it has already changed reference counters; a caller that
  swallows the error keeps those changes. The low-level operations therefore return the result
  together with the state (\<open>outcome\<close>), and the trait operations drop the state where the
  source propagates the error. The \<open>flags\<close> word of an account is represented by the one bit that
  is in use, \<open>new_logic\<close>. The record is extensible, so that the asset store shares the accounts.
\<close>

section \<open>State\<close>

record account_data =
  free :: balance
  reserved :: balance
  frozen :: balance
  new_logic :: bool

record account_info =
  consumers :: nat
  providers :: nat
  sufficients :: nat
  data :: account_data

datatype ledger_event =
    NewAccount account_id | KilledAccount account_id
  | Endowed account_id balance | DustLost account_id balance | Upgraded account_id
  | Transfer account_id account_id balance | Withdraw account_id balance
  | ReservedEv account_id balance | Unreserved account_id balance
  | ReserveRepatriated account_id account_id balance balance_status

record ledger_state =
  accounts :: "(account_id, account_info) fmap"
  total_issuance :: balance
  ledger_events :: "ledger_event list"

record balances_config =
  existential_deposit :: balance
  max_consumers :: nat

type_synonym ('z, 'a) outcome = "'a dispatch_result \<times> 'z ledger_state_scheme"

definition default_data :: account_data where
  "default_data = \<lparr>free = 0, reserved = 0, frozen = 0, new_logic = True\<rparr>"

definition default_info :: account_info where
  "default_info = \<lparr>consumers = 0, providers = 0, sufficients = 0, data = default_data\<rparr>"

definition info_of :: "'z ledger_state_scheme \<Rightarrow> account_id \<Rightarrow> account_info" where
  "info_of s who = get_or default_info (accounts s) who"

definition account_of :: "'z ledger_state_scheme \<Rightarrow> account_id \<Rightarrow> account_data" where
  "account_of s who = data (info_of s who)"

definition set_info :: "account_id \<Rightarrow> account_info \<Rightarrow> 'z ledger_state_scheme \<Rightarrow> 'z ledger_state_scheme" where
  "set_info who i s = s\<lparr>accounts := fmupd who i (accounts s)\<rparr>"

definition ledger_event :: "ledger_event \<Rightarrow> 'z ledger_state_scheme \<Rightarrow> 'z ledger_state_scheme" where
  "ledger_event e s = s\<lparr>ledger_events := ledger_events s @ [e]\<rparr>"

definition total :: "account_data \<Rightarrow> balance" where
  "total a = add128 (free a) (reserved a)"

section \<open>Reference counters of \<open>frame_system\<close>\<close>

definition inc_providers :: "account_id \<Rightarrow> 'z ledger_state_scheme \<Rightarrow> 'z ledger_state_scheme" where
  "inc_providers who s =
    (let a = info_of s who in
     if providers a = 0 \<and> sufficients a = 0
     then ledger_event (NewAccount who) (set_info who (a\<lparr>providers := 1\<rparr>) s)
     else set_info who (a\<lparr>providers := add32 (providers a) 1\<rparr>) s)"

definition dec_providers :: "account_id \<Rightarrow> 'z ledger_state_scheme \<Rightarrow> ('z ledger_state_scheme) dispatch_result" where
  "dec_providers who s =
    (case fmlookup (accounts s) who of
       None \<Rightarrow> Inr s
     | Some a0 \<Rightarrow>
        (let a = (if providers a0 = 0 then a0\<lparr>providers := 1\<rparr> else a0) in
         if providers a = 1 \<and> consumers a = 0 \<and> sufficients a = 0
         then Inr (ledger_event (KilledAccount who) (s\<lparr>accounts := fmdrop who (accounts s)\<rparr>))
         else if providers a = 1 \<and> consumers a > 0 then Inl ConsumerRemaining
         else Inr (set_info who (a\<lparr>providers := providers a - 1\<rparr>) s)))"

definition inc_consumers :: "balances_config \<Rightarrow> account_id \<Rightarrow> 'z ledger_state_scheme \<Rightarrow> ('z ledger_state_scheme) dispatch_result" where
  "inc_consumers C who s =
    (let a = info_of s who in
     if providers a > 0
     then if consumers a < max_consumers C
          then Inr (set_info who (a\<lparr>consumers := add32 (consumers a) 1\<rparr>) s)
          else Inl TooManyConsumers
     else Inl NoProviders)"

definition inc_consumers_without_limit :: "account_id \<Rightarrow> 'z ledger_state_scheme \<Rightarrow> ('z ledger_state_scheme) dispatch_result" where
  "inc_consumers_without_limit who s =
    (let a = info_of s who in
     if providers a > 0 then Inr (set_info who (a\<lparr>consumers := add32 (consumers a) 1\<rparr>) s)
     else Inl NoProviders)"

definition dec_consumers :: "account_id \<Rightarrow> 'z ledger_state_scheme \<Rightarrow> 'z ledger_state_scheme" where
  "dec_consumers who s =
    (let a = info_of s who in
     set_info who (if consumers a > 0 then a\<lparr>consumers := consumers a - 1\<rparr> else a) s)"

definition can_dec_provider :: "'z ledger_state_scheme \<Rightarrow> account_id \<Rightarrow> bool" where
  "can_dec_provider s who = (consumers (info_of s who) = 0 \<or> providers (info_of s who) > 1)"

text \<open>The write at the end of \<open>StoredMap::try_mutate_exists\<close>; \<open>None\<close> is the default data.\<close>

definition store_data :: "account_id \<Rightarrow> account_data option \<Rightarrow> 'z ledger_state_scheme \<Rightarrow> 'z ledger_state_scheme" where
  "store_data who d s =
    (let a = info_of s who in
     if providers a > 0 \<or> sufficients a > 0
     then set_info who (a\<lparr>data := (case d of None \<Rightarrow> default_data | Some x \<Rightarrow> x)\<rparr>) s
     else s\<lparr>accounts := fmdrop who (accounts s)\<rparr>)"

section \<open>Account mutation\<close>

definition ensure_upgraded :: "balances_config \<Rightarrow> account_id \<Rightarrow> 'z ledger_state_scheme \<Rightarrow> 'z ledger_state_scheme" where
  "ensure_upgraded C who s =
    (let a = account_of s who in
     if new_logic a then s
     else
       (let needs = reserved a \<noteq> 0 \<and> frozen a = 0;
            orphan = needs \<and> providers (info_of s who) = 0;
            a1 = a\<lparr>new_logic := True\<rparr>;
            a2 = (if orphan then a1\<lparr>free := max (free a1) (existential_deposit C)\<rparr> else a1);
            s1 = (if orphan then inc_providers who s else s);
            s2 = (if needs then (case inc_consumers_without_limit who s1 of Inl _ \<Rightarrow> s1 | Inr s' \<Rightarrow> s') else s1)
        in ledger_event (Upgraded who) (store_data who (Some a2) s2)))"

text \<open>The reference-counter updates in the middle of \<open>try_mutate_account\<close>.\<close>

definition adjust_refs ::
  "balances_config \<Rightarrow> account_id \<Rightarrow> bool \<Rightarrow> bool \<Rightarrow> bool \<Rightarrow> bool \<Rightarrow> 'z ledger_state_scheme \<Rightarrow> ('z, unit) outcome" where
  "adjust_refs C who did_provide does_provide did_consume does_consume s =
    (let s1 = (if \<not> did_provide \<and> does_provide then inc_providers who s else s);
         s2 = (if did_consume \<and> \<not> does_consume then dec_consumers who s1 else s1)
     in case (if \<not> did_consume \<and> does_consume then inc_consumers C who s2 else Inr s2) of
          Inl e \<Rightarrow> (Inl e, s2)
        | Inr s3 \<Rightarrow>
       (case (if does_consume \<and> consumers (info_of s3 who) = 0 then inc_consumers C who s3 else Inr s3) of
          Inl e \<Rightarrow> (Inl e, s3)
        | Inr s4 \<Rightarrow>
       (case (if did_provide \<and> \<not> does_provide then dec_providers who s4 else Inr s4) of
          Inl e \<Rightarrow>
            (let s5 = (if did_consume \<and> \<not> does_consume
                       then (case inc_consumers C who s4 of Inl _ \<Rightarrow> s4 | Inr s' \<Rightarrow> s') else s4);
                 s6 = (if \<not> did_consume \<and> does_consume then dec_consumers who s5 else s5)
             in (Inl e, s6))
        | Inr s5 \<Rightarrow> (Inr (), s5))))"

definition maybe_dust :: "balances_config \<Rightarrow> account_data \<Rightarrow> balance option" where
  "maybe_dust C a =
    (if free a < existential_deposit C \<and> reserved a = 0
     then (if free a = 0 then None else Some (free a)) else None)"

definition kept_data :: "balances_config \<Rightarrow> account_data \<Rightarrow> account_data option" where
  "kept_data C a = (if free a < existential_deposit C \<and> reserved a = 0 then None else Some a)"

definition try_mutate_account ::
  "balances_config \<Rightarrow> account_id \<Rightarrow>
   (account_data \<Rightarrow> bool \<Rightarrow> 'z ledger_state_scheme \<Rightarrow> ('z, account_data \<times> 'r) outcome) \<Rightarrow>
   'z ledger_state_scheme \<Rightarrow> ('z, 'r \<times> balance option) outcome" where
  "try_mutate_account C who f s =
    (let s0 = ensure_upgraded C who s;
         old = account_of s0 who;
         is_new = (old = default_data);
         did_provide = (free old \<ge> existential_deposit C);
         did_consume = (\<not> is_new \<and> (reserved old \<noteq> 0 \<or> frozen old \<noteq> 0))
     in case f old is_new s0 of
          (Inl e, s1) \<Rightarrow> (Inl e, s1)
        | (Inr (a, r), s1) \<Rightarrow>
       (let does_provide = (free a \<ge> existential_deposit C);
            does_consume = (reserved a \<noteq> 0 \<or> frozen a \<noteq> 0)
        in case adjust_refs C who did_provide does_provide did_consume does_consume s1 of
             (Inl e, s2) \<Rightarrow> (Inl e, s2)
           | (Inr _, s2) \<Rightarrow>
          (let s3 = store_data who (kept_data C a) s2;
               s4 = (if is_new then ledger_event (Endowed who (free a)) s3 else s3);
               s5 = (case maybe_dust C a of None \<Rightarrow> s4 | Some d \<Rightarrow> ledger_event (DustLost who d) s4)
           in (Inr (r, maybe_dust C a), s5))))"

text \<open>
  \<open>handle_dust\<close> with \<open>DustRemoval = ()\<close> drops the credit, which lowers the total issuance;
  \<open>handle_raw_dust\<close> caps the amount below the existential deposit first.
\<close>

definition handle_dust :: "balance \<Rightarrow> 'z ledger_state_scheme \<Rightarrow> 'z ledger_state_scheme" where
  "handle_dust d s = s\<lparr>total_issuance := total_issuance s - d\<rparr>"

definition handle_raw_dust :: "balances_config \<Rightarrow> balance \<Rightarrow> 'z ledger_state_scheme \<Rightarrow> 'z ledger_state_scheme" where
  "handle_raw_dust C d s = handle_dust (min d (existential_deposit C - 1)) s"

definition try_mutate_account_handling_dust ::
  "balances_config \<Rightarrow> account_id \<Rightarrow>
   (account_data \<Rightarrow> bool \<Rightarrow> 'z ledger_state_scheme \<Rightarrow> ('z, account_data \<times> 'r) outcome) \<Rightarrow>
   'z ledger_state_scheme \<Rightarrow> ('z, 'r) outcome" where
  "try_mutate_account_handling_dust C who f s =
    (case try_mutate_account C who f s of
       (Inl e, s') \<Rightarrow> (Inl e, s')
     | (Inr (r, None), s') \<Rightarrow> (Inr r, s')
     | (Inr (r, Some d), s') \<Rightarrow> (Inr r, handle_raw_dust C d s'))"

section \<open>\<open>fungible::Inspect\<close> and \<open>fungible::Unbalanced\<close>\<close>

definition reducible_balance ::
  "balances_config \<Rightarrow> 'z ledger_state_scheme \<Rightarrow> account_id \<Rightarrow> preservation \<Rightarrow> fortitude \<Rightarrow> balance" where
  "reducible_balance C s who pres force =
    (let a = account_of s who;
         u = (if force = Polite then frozen a - reserved a else 0);
         keep = pres = Preserve
              \<or> pres = Protect \<and> free a \<noteq> 0 \<and> providers (info_of s who) = 1
              \<or> pres = Expendable \<and> free a \<noteq> 0 \<and> \<not> can_dec_provider s who
     in free a - (if keep then max u (existential_deposit C) else u))"

definition can_deposit ::
  "balances_config \<Rightarrow> 'z ledger_state_scheme \<Rightarrow> account_id \<Rightarrow> balance \<Rightarrow> provenance \<Rightarrow> deposit_consequence" where
  "can_deposit C s who amount prov =
    (if amount = 0 then DcSuccess
     else if prov = Minted \<and> checked_add u128_max (total_issuance s) amount = None then DcOverflow
     else let a = account_of s who in
       case checked_add u128_max (free a) amount of
         None \<Rightarrow> DcOverflow
       | Some x \<Rightarrow> if x < existential_deposit C then DcBelowMinimum
                   else if checked_add u128_max (reserved a) x = None then DcOverflow
                   else DcSuccess)"

definition can_withdraw ::
  "balances_config \<Rightarrow> 'z ledger_state_scheme \<Rightarrow> account_id \<Rightarrow> balance \<Rightarrow> withdraw_consequence" where
  "can_withdraw C s who amount =
    (if amount = 0 then WcSuccess
     else if checked_sub (total_issuance s) amount = None then WcUnderflow
     else let a = account_of s who in
       case checked_sub (free a) amount of
         None \<Rightarrow> WcBalanceLow
       | Some x \<Rightarrow>
          if amount > reducible_balance C s who Expendable Polite then WcFrozen
          else if x < existential_deposit C \<and> \<not> can_dec_provider s who then WcWouldDie
          else if add128 x (reserved a) < frozen a then WcFrozen
          else if x < existential_deposit C then WcReducedToZero x
          else WcSuccess)"

definition write_balance ::
  "balances_config \<Rightarrow> account_id \<Rightarrow> balance \<Rightarrow> 'z ledger_state_scheme \<Rightarrow> ('z, balance option) outcome" where
  "write_balance C who amount s =
    (let max_reduction = reducible_balance C s who Expendable Force in
     case try_mutate_account C who
            (\<lambda>a _ s'. if free a - amount \<le> max_reduction
                      then (Inr (a\<lparr>free := amount\<rparr>, Inr ()), s')
                      else (Inr (a, Inl (balances_err balances_error.InsufficientBalance)), s')) s of
       (Inl e, s') \<Rightarrow> (Inl e, s')
     | (Inr (Inl e, _), s') \<Rightarrow> (Inl e, s')
     | (Inr (Inr _, d), s') \<Rightarrow> (Inr d, s'))"

definition decrease_balance ::
  "balances_config \<Rightarrow> account_id \<Rightarrow> balance \<Rightarrow> precision \<Rightarrow> preservation \<Rightarrow> fortitude \<Rightarrow>
   'z ledger_state_scheme \<Rightarrow> ('z, balance) outcome" where
  "decrease_balance C who amount prec pres force s =
    (let old = free (account_of s who);
         reducible = reducible_balance C s who pres force;
         amt = (if prec = BestEffort then min amount reducible else amount)
     in if prec = Exact \<and> reducible < amount then (Inl (Token FundsUnavailable), s)
        else case checked_sub old amt of
          None \<Rightarrow> (Inl (Token FundsUnavailable), s)
        | Some new \<Rightarrow>
           (case write_balance C who new s of
              (Inl e, s') \<Rightarrow> (Inl e, s')
            | (Inr None, s') \<Rightarrow> (Inr (old - new), s')
            | (Inr (Some d), s') \<Rightarrow> (Inr (old - new), handle_dust d s')))"

definition increase_balance ::
  "balances_config \<Rightarrow> account_id \<Rightarrow> balance \<Rightarrow> precision \<Rightarrow>
   'z ledger_state_scheme \<Rightarrow> ('z, balance) outcome" where
  "increase_balance C who amount prec s =
    (let old = free (account_of s who) in
     case (if prec = BestEffort then Some (add128 old amount) else checked_add u128_max old amount) of
       None \<Rightarrow> (Inl (Arithmetic Overflow), s)
     | Some new \<Rightarrow>
        if new < existential_deposit C
        then if prec = BestEffort then (Inr 0, s) else (Inl (Token BelowMinimum), s)
        else if new = old then (Inr 0, s)
        else case write_balance C who new s of
               (Inl e, s') \<Rightarrow> (Inl e, s')
             | (Inr None, s') \<Rightarrow> (Inr (new - old), s')
             | (Inr (Some d), s') \<Rightarrow> (Inr (new - old), handle_dust d s'))"

definition fungible_transfer ::
  "balances_config \<Rightarrow> account_id \<Rightarrow> account_id \<Rightarrow> balance \<Rightarrow> preservation \<Rightarrow>
   'z ledger_state_scheme \<Rightarrow> ('z ledger_state_scheme) dispatch_result" where
  "fungible_transfer C source dest amount pres s =
    try_bind (withdraw_into_result (can_withdraw C s source amount) (pres \<noteq> Expendable)) (\<lambda>_.
    try_bind (deposit_into_result (can_deposit C s dest amount Extant)) (\<lambda>_.
    if source = dest then Inr s
    else case decrease_balance C source amount BestEffort pres Polite s of
           (Inl e, _) \<Rightarrow> Inl e
         | (Inr _, s1) \<Rightarrow>
            Inr (ledger_event (Transfer source dest amount)
                   (snd (increase_balance C dest amount BestEffort s1)))))"

section \<open>\<open>Currency\<close> and \<open>ReservableCurrency\<close>\<close>

definition free_balance :: "'z ledger_state_scheme \<Rightarrow> account_id \<Rightarrow> balance" where
  "free_balance s who = free (account_of s who)"

definition total_balance :: "'z ledger_state_scheme \<Rightarrow> account_id \<Rightarrow> balance" where
  "total_balance s who = total (account_of s who)"

definition reserved_balance :: "'z ledger_state_scheme \<Rightarrow> account_id \<Rightarrow> balance" where
  "reserved_balance s who = reserved (account_of s who)"

definition transfer ::
  "balances_config \<Rightarrow> account_id \<Rightarrow> account_id \<Rightarrow> balance \<Rightarrow> existence_requirement \<Rightarrow>
   'z ledger_state_scheme \<Rightarrow> ('z ledger_state_scheme) dispatch_result" where
  "transfer C transactor dest value er s =
    (if value = 0 \<or> transactor = dest then Inr s
     else fungible_transfer C transactor dest value
            (case er of KeepAlive \<Rightarrow> Preserve | AllowDeath \<Rightarrow> Expendable) s)"

definition ensure_can_withdraw ::
  "'z ledger_state_scheme \<Rightarrow> account_id \<Rightarrow> balance \<Rightarrow> balance \<Rightarrow> unit dispatch_result" where
  "ensure_can_withdraw s who amount new_balance =
    (if amount = 0 then Inr ()
     else if new_balance \<ge> frozen (account_of s who) then Inr ()
     else Inl (balances_err LiquidityRestrictions))"

definition withdraw ::
  "balances_config \<Rightarrow> account_id \<Rightarrow> balance \<Rightarrow> existence_requirement \<Rightarrow>
   'z ledger_state_scheme \<Rightarrow> (balance \<times> 'z ledger_state_scheme) dispatch_result" where
  "withdraw C who value liveness s =
    (if value = 0 then Inr (0, s)
     else case try_mutate_account_handling_dust C who
       (\<lambda>a _ s'.
         case checked_sub (free a) value of
           None \<Rightarrow> (Inl (balances_err balances_error.InsufficientBalance), s')
         | Some new_free \<Rightarrow>
            (let would_kill = new_free < existential_deposit C \<and> free a \<ge> existential_deposit C in
             if \<not> (liveness = AllowDeath \<or> \<not> would_kill) then (Inl (balances_err Expendability), s')
             else case ensure_can_withdraw s' who value new_free of
                    Inl e \<Rightarrow> (Inl e, s')
                  | Inr _ \<Rightarrow> (Inr (a\<lparr>free := new_free\<rparr>, value), ledger_event (Withdraw who value) s'))) s of
       (Inl e, _) \<Rightarrow> Inl e
     | (Inr imb, s') \<Rightarrow> Inr (imb, s'))"

text \<open>Dropping a negative imbalance squares up the total issuance.\<close>

definition drop_negative_imbalance :: "balance \<Rightarrow> 'z ledger_state_scheme \<Rightarrow> 'z ledger_state_scheme" where
  "drop_negative_imbalance v s = s\<lparr>total_issuance := total_issuance s - v\<rparr>"

definition can_reserve :: "balances_config \<Rightarrow> 'z ledger_state_scheme \<Rightarrow> account_id \<Rightarrow> balance \<Rightarrow> bool" where
  "can_reserve C s who value =
    (value = 0 \<or>
     (case checked_sub (free (account_of s who)) value of
        None \<Rightarrow> False
      | Some n \<Rightarrow> n \<ge> existential_deposit C \<and> is_ok (ensure_can_withdraw s who value n)))"

definition reserve ::
  "balances_config \<Rightarrow> account_id \<Rightarrow> balance \<Rightarrow> 'z ledger_state_scheme \<Rightarrow> ('z ledger_state_scheme) dispatch_result" where
  "reserve C who value s =
    (if value = 0 then Inr s
     else case try_mutate_account_handling_dust C who
       (\<lambda>a _ s'.
         case checked_sub (free a) value of
           None \<Rightarrow> (Inl (balances_err balances_error.InsufficientBalance), s')
         | Some new_free \<Rightarrow>
            (case checked_add u128_max (reserved a) value of
               None \<Rightarrow> (Inl (Arithmetic Overflow), s')
             | Some new_reserved \<Rightarrow>
                (case ensure_can_withdraw s' who value new_free of
                   Inl e \<Rightarrow> (Inl e, s')
                 | Inr _ \<Rightarrow> (Inr (a\<lparr>free := new_free, reserved := new_reserved\<rparr>, ()), s')))) s of
       (Inl e, _) \<Rightarrow> Inl e
     | (Inr _, s') \<Rightarrow> Inr (ledger_event (ReservedEv who value) s'))"

definition unreserve ::
  "balances_config \<Rightarrow> account_id \<Rightarrow> balance \<Rightarrow> 'z ledger_state_scheme \<Rightarrow> balance \<times> 'z ledger_state_scheme" where
  "unreserve C who value s =
    (if value = 0 then (0, s)
     else if total_balance s who = 0 then (value, s)
     else case try_mutate_account_handling_dust C who
       (\<lambda>a _ s'.
         (let actual = min (reserved a) value in
          (Inr (a\<lparr>reserved := reserved a - actual, free := add128 (free a) actual\<rparr>, actual), s'))) s of
       (Inl e, s') \<Rightarrow> (value, s')
     | (Inr actual, s') \<Rightarrow> (value - actual, ledger_event (Unreserved who actual) s'))"

definition reducible_total_balance_on_hold :: "'z ledger_state_scheme \<Rightarrow> account_id \<Rightarrow> fortitude \<Rightarrow> balance" where
  "reducible_total_balance_on_hold s who force =
    (let a = account_of s who in
     reserved a - (if force = Force then 0 else frozen a - free a))"

definition do_transfer_reserved ::
  "balances_config \<Rightarrow> account_id \<Rightarrow> account_id \<Rightarrow> balance \<Rightarrow> precision \<Rightarrow> fortitude \<Rightarrow> balance_status \<Rightarrow>
   'z ledger_state_scheme \<Rightarrow> (balance \<times> 'z ledger_state_scheme) dispatch_result" where
  "do_transfer_reserved C slashed beneficiary value prec force status s =
    (if value = 0 then Inr (0, s)
     else let mx = reducible_total_balance_on_hold s slashed force;
              actual = (case prec of BestEffort \<Rightarrow> min value mx | Exact \<Rightarrow> value)
     in ensure (actual \<le> mx) (Token FundsUnavailable)
       (if slashed = beneficiary
        then (case status of
                Free \<Rightarrow> (let (rest, s') = unreserve C slashed actual s in Inr (actual - rest, s'))
              | Reserved \<Rightarrow> Inr (actual, s))
        else case try_mutate_account C beneficiary
          (\<lambda>to_account is_new s1.
            if is_new then (Inl (balances_err DeadAccount), s1)
            else case try_mutate_account C slashed
              (\<lambda>from_account _ s2.
                case (case status of
                        Free \<Rightarrow> map_option (\<lambda>x. to_account\<lparr>free := x\<rparr>) (checked_add u128_max (free to_account) actual)
                      | Reserved \<Rightarrow> map_option (\<lambda>x. to_account\<lparr>reserved := x\<rparr>) (checked_add u128_max (reserved to_account) actual)) of
                  None \<Rightarrow> (Inl (Arithmetic Overflow), s2)
                | Some to_account' \<Rightarrow>
                   (Inr (from_account\<lparr>reserved := reserved from_account - actual\<rparr>, to_account'), s2)) s1 of
                (Inl e, s2) \<Rightarrow> (Inl e, s2)
              | (Inr (to_account', dust1), s2) \<Rightarrow> (Inr (to_account', dust1), s2)) s of
             (Inl e, _) \<Rightarrow> Inl e
           | (Inr (dust1, dust2), s1) \<Rightarrow>
              (let s2 = (case dust1 of None \<Rightarrow> s1 | Some d \<Rightarrow> handle_raw_dust C d s1);
                   s3 = (case dust2 of None \<Rightarrow> s2 | Some d \<Rightarrow> handle_raw_dust C d s2)
               in Inr (actual, ledger_event (ReserveRepatriated slashed beneficiary actual status) s3))))"

definition repatriate_reserved ::
  "balances_config \<Rightarrow> account_id \<Rightarrow> account_id \<Rightarrow> balance \<Rightarrow> balance_status \<Rightarrow>
   'z ledger_state_scheme \<Rightarrow> (balance \<times> 'z ledger_state_scheme) dispatch_result" where
  "repatriate_reserved C slashed beneficiary value status s =
    try_bind (do_transfer_reserved C slashed beneficiary value BestEffort Polite status s)
      (\<lambda>(actual, s'). Inr (value - actual, s'))"

section \<open>Well-formedness\<close>

text \<open>
  \<open>acc_ok C x i\<close>: the counters of an account are consistent with its balances. The free balance
  above the existential deposit holds a provider reference, held or frozen funds hold one
  consumer reference on top of the \<open>fst x\<close> that other pallets hold, the \<open>snd x\<close> sufficient references
  of other pallets are counted, consumers need a provider, and an account below the existential deposit with nothing reserved is empty. \<open>bal_inv\<close> adds that the
  total issuance is the sum of all balances and fits its type.
\<close>

definition bal_config_ok :: "balances_config \<Rightarrow> bool" where
  "bal_config_ok C = (0 < existential_deposit C \<and> max_consumers C \<le> u32_max)"

definition acc_ok :: "balances_config \<Rightarrow> nat \<times> nat \<Rightarrow> account_info \<Rightarrow> bool" where
  "acc_ok C x i =
    (new_logic (data i) \<and>
     (existential_deposit C \<le> free (data i) \<longrightarrow> 0 < providers i) \<and>
     fst x + of_bool (reserved (data i) \<noteq> 0 \<or> frozen (data i) \<noteq> 0) \<le> consumers i \<and>
     snd x \<le> sufficients i \<and>
     (0 < consumers i \<longrightarrow> 0 < providers i) \<and>
     (free (data i) < existential_deposit C \<and> reserved (data i) = 0 \<longrightarrow> data i = default_data) \<and>
     (0 < providers i \<or> 0 < sufficients i))"

definition entry_total :: "account_id \<Rightarrow> account_info \<Rightarrow> nat" where
  "entry_total who i = free (data i) + reserved (data i)"

definition bal_wf :: "balances_config \<Rightarrow> (account_id \<Rightarrow> nat \<times> nat) \<Rightarrow> 'z ledger_state_scheme \<Rightarrow> bool" where
  "bal_wf C x s =
    (\<forall>who. case fmlookup (accounts s) who of None \<Rightarrow> x who = (0, 0) | Some i \<Rightarrow> acc_ok C (x who) i)"

definition issued :: "'z ledger_state_scheme \<Rightarrow> nat" where
  "issued s = fmsum entry_total (accounts s)"

definition bal_inv :: "balances_config \<Rightarrow> (account_id \<Rightarrow> nat \<times> nat) \<Rightarrow> 'z ledger_state_scheme \<Rightarrow> bool" where
  "bal_inv C x s = (bal_wf C x s \<and> total_issuance s = issued s \<and> issued s \<le> u128_max)"

text \<open>The free balance after a debit of \<open>v\<close>: the rest, or nothing where the rest is dust.\<close>

definition after_debit :: "balances_config \<Rightarrow> account_data \<Rightarrow> balance \<Rightarrow> balance" where
  "after_debit C a v = (if free a - v < existential_deposit C \<and> reserved a = 0 then 0 else free a - v)"

section \<open>Reference counters and the store\<close>

lemma info_of_simps [simp]:
  "info_of (set_info who i s) c = (if c = who then i else info_of s c)"
  "info_of (ledger_event e s) c = info_of s c"
  "info_of (s\<lparr>accounts := fmdrop who (accounts s)\<rparr>) c = (if c = who then default_info else info_of s c)"
  "info_of (s\<lparr>total_issuance := t\<rparr>) c = info_of s c"
  by (auto simp: info_of_def set_info_def ledger_event_def)

lemma accounts_simps [simp]:
  "fmlookup (accounts (set_info who i s)) c = (if c = who then Some i else fmlookup (accounts s) c)"
  "accounts (ledger_event e s) = accounts s"
  "total_issuance (set_info who i s) = total_issuance s"
  "total_issuance (ledger_event e s) = total_issuance s"
  "accounts (handle_dust d s) = accounts s"
  "total_issuance (handle_dust d s) = total_issuance s - d"
  by (auto simp: set_info_def ledger_event_def handle_dust_def)

lemma default_info_simps [simp]:
  "consumers default_info = 0" "providers default_info = 0" "sufficients default_info = 0"
  "data default_info = default_data" "free default_data = 0" "reserved default_data = 0"
  "frozen default_data = 0" "new_logic default_data"
  by (simp_all add: default_info_def default_data_def)

lemma add32_Suc_pos [simp]: "0 < add32 n (Suc 0)"
  by (simp add: sat_add_def u32_max_def)

lemma inc_providers_info:
  "info_of (inc_providers who s) c =
     (if c = who then (info_of s who)\<lparr>providers := add32 (providers (info_of s who)) 1\<rparr> else info_of s c)"
  by (simp add: inc_providers_def Let_def u32_max_def)

lemma inc_consumers_Inr:
  assumes "inc_consumers C who s = Inr s'" "max_consumers C \<le> u32_max"
  shows "s' = set_info who ((info_of s who)\<lparr>consumers := Suc (consumers (info_of s who))\<rparr>) s \<and>
    0 < providers (info_of s who)"
  using assms by (auto simp: inc_consumers_def Let_def split: if_splits)

lemma dec_providers_Inr:
  assumes "dec_providers who s = Inr s'" "0 < providers (info_of s who)"
  shows "0 < consumers (info_of s' who) \<longrightarrow> 0 < providers (info_of s' who)"
    "consumers (info_of s' who) = consumers (info_of s who)"
    "sufficients (info_of s' who) = sufficients (info_of s who)"
    "c \<noteq> who \<Longrightarrow> fmlookup (accounts s') c = fmlookup (accounts s) c"
    "total_issuance s' = total_issuance s"
  using assms
  by (auto simp: dec_providers_def Let_def info_of_def get_or_def ledger_event_def set_info_def
      split: option.splits if_splits)

lemma refs_frame:
  "c \<noteq> who \<Longrightarrow> fmlookup (accounts (inc_providers who s)) c = fmlookup (accounts s) c"
  "c \<noteq> who \<Longrightarrow> fmlookup (accounts (dec_consumers who s)) c = fmlookup (accounts s) c"
  "c \<noteq> who \<Longrightarrow> fmlookup (accounts (store_data who d s)) c = fmlookup (accounts s) c"
  "total_issuance (inc_providers who s) = total_issuance s"
  "total_issuance (dec_consumers who s) = total_issuance s"
  "total_issuance (store_data who d s) = total_issuance s"
  by (auto simp: inc_providers_def dec_consumers_def store_data_def Let_def)

lemma dec_consumers_info:
  "info_of (dec_consumers who s) c =
     (if c = who then (info_of s who)\<lparr>consumers := consumers (info_of s who) - 1\<rparr> else info_of s c)"
  by (auto simp: dec_consumers_def Let_def)

lemma adjust_refs_ok:
  assumes run: "adjust_refs C who dp dp' dc dc' s = (Inr u, s')"
    and pre: "dp \<longrightarrow> 0 < providers (info_of s who)" "x + of_bool dc \<le> consumers (info_of s who)"
      "0 < consumers (info_of s who) \<longrightarrow> 0 < providers (info_of s who)"
    and mc: "max_consumers C \<le> u32_max"
  shows "(dp' \<longrightarrow> 0 < providers (info_of s' who)) \<and> x + of_bool dc' \<le> consumers (info_of s' who) \<and>
    sufficients (info_of s' who) = sufficients (info_of s who) \<and>
    (0 < consumers (info_of s' who) \<longrightarrow> 0 < providers (info_of s' who)) \<and>
    (\<forall>c. c \<noteq> who \<longrightarrow> fmlookup (accounts s') c = fmlookup (accounts s) c) \<and>
    total_issuance s' = total_issuance s"
proof -
  define s1 where "s1 = (if \<not> dp \<and> dp' then inc_providers who s else s)"
  define s2 where "s2 = (if dc \<and> \<not> dc' then dec_consumers who s1 else s1)"
  obtain s3 s4 where s3: "(if \<not> dc \<and> dc' then inc_consumers C who s2 else Inr s2) = Inr s3"
    and s4: "(if dc' \<and> consumers (info_of s3 who) = 0 then inc_consumers C who s3 else Inr s3) = Inr s4"
    and s5: "(if dp \<and> \<not> dp' then dec_providers who s4 else Inr s4) = Inr s'"
    using run unfolding adjust_refs_def s1_def [symmetric] Let_def s2_def [symmetric]
    by (auto split: sum.splits)
  have 1: "(dp \<or> dp' \<longrightarrow> 0 < providers (info_of s1 who)) \<and> x + of_bool dc \<le> consumers (info_of s1 who) \<and>
    sufficients (info_of s1 who) = sufficients (info_of s who) \<and>
    (0 < consumers (info_of s1 who) \<longrightarrow> 0 < providers (info_of s1 who))"
    using pre by (auto simp: s1_def inc_providers_info)
  have 2: "(dp \<or> dp' \<longrightarrow> 0 < providers (info_of s2 who)) \<and> x + of_bool (dc \<and> dc') \<le> consumers (info_of s2 who) \<and>
    sufficients (info_of s2 who) = sufficients (info_of s who) \<and>
    (0 < consumers (info_of s2 who) \<longrightarrow> 0 < providers (info_of s2 who))"
    using 1 by (auto simp: s2_def dec_consumers_info)
  have 3: "(dp \<or> dp' \<longrightarrow> 0 < providers (info_of s3 who)) \<and> x + of_bool dc' \<le> consumers (info_of s3 who) \<and>
    sufficients (info_of s3 who) = sufficients (info_of s who) \<and>
    (0 < consumers (info_of s3 who) \<longrightarrow> 0 < providers (info_of s3 who))"
    using 2 s3 by (auto dest: inc_consumers_Inr [OF _ mc] split: if_splits)
  have 4: "s4 = s3" using s4 3 by (auto split: if_splits)
  have frame: "(\<forall>c. c \<noteq> who \<longrightarrow> fmlookup (accounts s3) c = fmlookup (accounts s) c) \<and> total_issuance s3 = total_issuance s"
    using s3 by (auto simp: s1_def s2_def refs_frame dest!: inc_consumers_Inr [OF _ mc] split: if_splits)
  show ?thesis
  proof (cases "dp \<and> \<not> dp'")
    case True
    then have dec: "dec_providers who s3 = Inr s'" and pos: "0 < providers (info_of s3 who)"
      using s5 3 4 by simp_all
    then show ?thesis using dec_providers_Inr [OF dec pos] 3 frame True by simp
  next
    case False
    then have "s' = s3" using s5 4 by auto
    then show ?thesis using 3 frame by auto
  qed
qed

lemma bal_wf_acc:
  assumes "bal_wf C x s"
  shows "new_logic (account_of s who)"
    "0 < existential_deposit C \<Longrightarrow> existential_deposit C \<le> free (account_of s who) \<Longrightarrow> 0 < providers (info_of s who)"
    "fst (x who) + of_bool (reserved (account_of s who) \<noteq> 0 \<or> frozen (account_of s who) \<noteq> 0) \<le> consumers (info_of s who)"
    "0 < consumers (info_of s who) \<Longrightarrow> 0 < providers (info_of s who)"
    "free (account_of s who) < existential_deposit C \<Longrightarrow> reserved (account_of s who) = 0 \<Longrightarrow>
      account_of s who = default_data"
    "snd (x who) \<le> sufficients (info_of s who)"
  using spec [OF assms [unfolded bal_wf_def], of who]
  by (auto simp: acc_ok_def account_of_def info_of_def get_or_def split: option.splits)

lemma ensure_upgraded_id: "bal_wf C x s \<Longrightarrow> ensure_upgraded C who s = s"
  using bal_wf_acc(1) by (auto simp: ensure_upgraded_def Let_def)

lemma store_data_ok:
  assumes "existential_deposit C \<le> free a \<longrightarrow> 0 < providers (info_of s who)"
    "fst y + of_bool (reserved a \<noteq> 0 \<or> frozen a \<noteq> 0) \<le> consumers (info_of s who)"
    "0 < consumers (info_of s who) \<longrightarrow> 0 < providers (info_of s who)"
    "snd y \<le> sufficients (info_of s who)" "new_logic a" "0 < existential_deposit C"
  shows "account_of (store_data who (kept_data C a) s) who =
      (case kept_data C a of None \<Rightarrow> default_data | Some b \<Rightarrow> b)"
    "case fmlookup (accounts (store_data who (kept_data C a) s)) who of
       None \<Rightarrow> y = (0, 0) | Some i \<Rightarrow> acc_ok C y i"
proof -
  let ?i = "info_of s who"
  consider (keep) "free a < existential_deposit C \<and> reserved a = 0" "0 < providers ?i \<or> 0 < sufficients ?i"
    | (live) "\<not> (free a < existential_deposit C \<and> reserved a = 0)" "0 < providers ?i"
    | (gone) "free a < existential_deposit C \<and> reserved a = 0" "providers ?i = 0" "sufficients ?i = 0"
        "consumers ?i = 0"
    using assms by (cases "reserved a = 0") auto
  then show "account_of (store_data who (kept_data C a) s) who =
      (case kept_data C a of None \<Rightarrow> default_data | Some b \<Rightarrow> b)"
    by cases (simp_all add: store_data_def account_of_def kept_data_def Let_def)
  from assms show "case fmlookup (accounts (store_data who (kept_data C a) s)) who of
       None \<Rightarrow> y = (0, 0) | Some i \<Rightarrow> acc_ok C y i"
    by (auto simp: store_data_def kept_data_def Let_def acc_ok_def prod_eq_iff)
qed

text \<open>
  The effect of a mutation on a well-formed store, for a closure that does not itself change
  the accounts: only the entry of \<open>who\<close> changes, it stays well formed, and it holds the new data
  or, below the existential deposit, nothing.
\<close>

lemma try_mutate_account_ok:
  assumes inv: "bal_wf C x s" and C: "bal_config_ok C"
    and f: "f (account_of s who) (account_of s who = default_data) s = (Inr (a, r0), s1)"
    and s1: "accounts s1 = accounts s" "total_issuance s1 = total_issuance s"
    and a: "new_logic a"
    and run: "try_mutate_account C who f s = (Inr (r, d), s')"
  shows "r = r0 \<and> d = maybe_dust C a \<and>
    account_of s' who = (case kept_data C a of None \<Rightarrow> default_data | Some b \<Rightarrow> b) \<and>
    bal_wf C x s' \<and> (\<forall>c. c \<noteq> who \<longrightarrow> fmlookup (accounts s') c = fmlookup (accounts s) c) \<and>
    total_issuance s' = total_issuance s"
proof -
  let ?old = "account_of s who"
  let ?dp = "existential_deposit C \<le> free ?old" and ?dp' = "existential_deposit C \<le> free a"
  let ?dc = "?old \<noteq> default_data \<and> (reserved ?old \<noteq> 0 \<or> frozen ?old \<noteq> 0)"
  let ?dc' = "reserved a \<noteq> 0 \<or> frozen a \<noteq> 0"
  have mc: "max_consumers C \<le> u32_max" and ed: "0 < existential_deposit C"
    using C by (simp_all add: bal_config_ok_def)
  have info1: "info_of s1 = info_of s" using s1 by (simp add: info_of_def fun_eq_iff)
  obtain u s2 where refs: "adjust_refs C who ?dp ?dp' ?dc ?dc' s1 = (Inr u, s2)"
    and r: "r = r0" "d = maybe_dust C a"
    and acc: "accounts s' = accounts (store_data who (kept_data C a) s2)"
    and iss: "total_issuance s' = total_issuance s2"
    using run f
    by (auto simp: try_mutate_account_def ensure_upgraded_id [OF inv] Let_def refs_frame
        split: prod.splits sum.splits option.splits if_splits)
  have pre: "?dp \<longrightarrow> 0 < providers (info_of s1 who)" "fst (x who) + of_bool ?dc \<le> consumers (info_of s1 who)"
      "0 < consumers (info_of s1 who) \<longrightarrow> 0 < providers (info_of s1 who)"
    using bal_wf_acc [OF inv, of who] ed by (auto simp: info1)
  note ok = adjust_refs_ok [OF refs pre mc]
  have info': "info_of s' who = info_of (store_data who (kept_data C a) s2) who"
    by (simp add: info_of_def acc)
  have "account_of s' who = (case kept_data C a of None \<Rightarrow> default_data | Some b \<Rightarrow> b)"
    and wf: "case fmlookup (accounts s') who of None \<Rightarrow> x who = (0, 0) | Some i \<Rightarrow> acc_ok C (x who) i"
    using ok a ed store_data_ok [of C a s2 who "x who"] info' bal_wf_acc(6) [OF inv, of who] info1
    by (simp_all add: acc account_of_def)
  moreover have frame: "\<forall>c. c \<noteq> who \<longrightarrow> fmlookup (accounts s') c = fmlookup (accounts s) c"
    using ok by (simp add: acc s1 refs_frame)
  moreover have "bal_wf C x s'"
    unfolding bal_wf_def using wf frame inv by (metis bal_wf_def)
  ultimately show ?thesis using ok r by (simp add: iss s1)
qed

lemma adjust_refs_grow:
  assumes "dp \<longrightarrow> dp'" "dc' \<longrightarrow> dc" "dc \<longrightarrow> 0 < consumers (info_of s who)"
  shows "\<exists>s'. adjust_refs C who dp dp' dc dc' s = (Inr (), s')"
  using assms by (auto simp: adjust_refs_def Let_def inc_providers_info)

lemma try_mutate_account_succeeds:
  assumes inv: "bal_wf C x s"
    and f: "f (account_of s who) (account_of s who = default_data) s = (Inr (a, r), s1)"
    and s1: "accounts s1 = accounts s"
    and grow: "existential_deposit C \<le> free (account_of s who) \<longrightarrow> existential_deposit C \<le> free a"
      "reserved a \<noteq> 0 \<or> frozen a \<noteq> 0 \<longrightarrow>
        reserved (account_of s who) \<noteq> 0 \<or> frozen (account_of s who) \<noteq> 0"
  shows "\<exists>d s'. try_mutate_account C who f s = (Inr (r, d), s')"
proof -
  let ?old = "account_of s who"
  let ?dc = "?old \<noteq> default_data \<and> (reserved ?old \<noteq> 0 \<or> frozen ?old \<noteq> 0)"
  have info1: "info_of s1 = info_of s" using s1 by (simp add: info_of_def fun_eq_iff)
  have dc: "?dc \<longrightarrow> 0 < consumers (info_of s1 who)" "(reserved a \<noteq> 0 \<or> frozen a \<noteq> 0) \<longrightarrow> ?dc"
    using bal_wf_acc(3) [OF inv, of who] grow(2) by (auto simp: info1)
  obtain s2 where "adjust_refs C who (existential_deposit C \<le> free ?old) (existential_deposit C \<le> free a)
      ?dc (reserved a \<noteq> 0 \<or> frozen a \<noteq> 0) s1 = (Inr (), s2)"
    using adjust_refs_grow [OF grow(1) dc(2) dc(1)] by blast
  then show ?thesis
    using f by (simp add: try_mutate_account_def ensure_upgraded_id [OF inv] Let_def)
qed

lemma entry_total_opt:
  "opt_nat (entry_total who) (fmlookup (accounts s) who) = free (account_of s who) + reserved (account_of s who)"
  by (cases "fmlookup (accounts s) who") (simp_all add: account_of_def info_of_def entry_total_def)

lemma issued_change:
  assumes "\<forall>c. c \<noteq> who \<longrightarrow> fmlookup (accounts s') c = fmlookup (accounts s) c"
  shows "issued s' + free (account_of s who) + reserved (account_of s who) =
    issued s + free (account_of s' who) + reserved (account_of s' who)"
  using fmsum_agree [of who "accounts s'" "accounts s" entry_total] assms
  by (simp add: issued_def entry_total_opt)

lemma account_of_frame:
  "fmlookup (accounts s') c = fmlookup (accounts s) c \<Longrightarrow> account_of s' c = account_of s c"
  "fmlookup (accounts s') c = fmlookup (accounts s) c \<Longrightarrow> info_of s' c = info_of s c"
  by (simp_all add: account_of_def info_of_def get_or_def)

lemma issued_ge: "free (account_of s who) + reserved (account_of s who) \<le> issued s"
  unfolding entry_total_opt [symmetric] issued_def
  by (cases "fmlookup (accounts s) who") (auto intro: fmsum_ge)

text \<open>What a mutation loses: exactly the dust below the existential deposit.\<close>

lemma kept_plus_dust:
  "free a + reserved a =
    (case kept_data C a of None \<Rightarrow> 0 | Some b \<Rightarrow> free b + reserved b) +
    (case maybe_dust C a of None \<Rightarrow> 0 | Some d \<Rightarrow> d)"
  by (simp add: kept_data_def maybe_dust_def)

lemma kept_free:
  "free (case kept_data C a of None \<Rightarrow> default_data | Some b \<Rightarrow> b) =
    (if free a < existential_deposit C \<and> reserved a = 0 then 0 else free a)"
  "reserved (case kept_data C a of None \<Rightarrow> default_data | Some b \<Rightarrow> b) = reserved a"
  by (simp_all add: kept_data_def)

lemma write_balance_ok:
  assumes inv: "bal_wf C x s" and C: "bal_config_ok C"
    and red: "free (account_of s who) - amount \<le> reducible_balance C s who Expendable Force"
    and run: "write_balance C who amount s = (Inr d, s')"
  shows "bal_wf C x s' \<and>
    free (account_of s' who) =
      (if amount < existential_deposit C \<and> reserved (account_of s who) = 0 then 0 else amount) \<and>
    reserved (account_of s' who) = reserved (account_of s who) \<and>
    d = (if amount < existential_deposit C \<and> reserved (account_of s who) = 0 \<and> amount \<noteq> 0
         then Some amount else None) \<and>
    (\<forall>c. c \<noteq> who \<longrightarrow> fmlookup (accounts s') c = fmlookup (accounts s) c) \<and>
    total_issuance s' = total_issuance s"
proof -
  let ?f = "\<lambda>a (_::bool) s'. if free a - amount \<le> reducible_balance C s who Expendable Force
      then (Inr (a\<lparr>free := amount\<rparr>, Inr ()), s')
      else (Inr (a, Inl (balances_err balances_error.InsufficientBalance)), s')"
  obtain r where mut: "try_mutate_account C who ?f s = (Inr (Inr r, d), s')"
    using run by (auto simp: write_balance_def Let_def split: prod.splits sum.splits)
  have "new_logic ((account_of s who)\<lparr>free := amount\<rparr>)" using bal_wf_acc(1) [OF inv] by simp
  from try_mutate_account_ok [OF inv C _ _ _ this mut] red
  show ?thesis by (simp add: kept_free maybe_dust_def)
qed
section \<open>Effect of the trait operations\<close>

lemma can_withdraw_ok:
  assumes "withdraw_into_result (can_withdraw C s who amount) keep = Inr r" "amount \<noteq> 0"
  shows "amount \<le> free (account_of s who) \<and> amount \<le> reducible_balance C s who Expendable Polite \<and>
    (keep \<longrightarrow> existential_deposit C \<le> free (account_of s who) - amount)"
  using assms
  by (auto simp: can_withdraw_def Let_def checked_sub_def split: option.splits if_splits)

lemma can_deposit_ok:
  assumes "can_deposit C s who amount Extant = DcSuccess" "amount \<noteq> 0"
  shows "free (account_of s who) + amount \<le> u128_max \<and>
    existential_deposit C \<le> free (account_of s who) + amount"
  using assms
  by (auto simp: can_deposit_def Let_def checked_add_def split: option.splits if_splits)

lemma reducible_force: "reducible_balance C s who Expendable Polite \<le> reducible_balance C s who Expendable Force"
  by (auto simp: reducible_balance_def Let_def)

lemma reducible_preserve:
  assumes "amount \<le> reducible_balance C s who Expendable Polite" "amount \<noteq> 0"
    "pres \<noteq> Expendable \<longrightarrow> existential_deposit C \<le> free (account_of s who) - amount"
  shows "amount \<le> reducible_balance C s who pres Polite"
  using assms by (cases pres) (auto simp: reducible_balance_def Let_def split: if_splits)

lemma decrease_balance_ok:
  assumes inv: "bal_wf C x s" and C: "bal_config_ok C"
    and red: "amount \<le> reducible_balance C s who Expendable Polite" "amount \<le> reducible_balance C s who pres Polite"
    and run: "decrease_balance C who amount BestEffort pres Polite s = (Inr r, s')"
  defines "new \<equiv> free (account_of s who) - amount"
  shows "bal_wf C x s' \<and>
    free (account_of s' who) = (if new < existential_deposit C \<and> reserved (account_of s who) = 0 then 0 else new) \<and>
    reserved (account_of s' who) = reserved (account_of s who) \<and>
    (\<forall>c. c \<noteq> who \<longrightarrow> fmlookup (accounts s') c = fmlookup (accounts s) c) \<and>
    total_issuance s' =
      total_issuance s - (if new < existential_deposit C \<and> reserved (account_of s who) = 0 then new else 0)"
proof -
  have le: "amount \<le> free (account_of s who)" using red(1) by (auto simp: reducible_balance_def Let_def)
  have force: "amount \<le> reducible_balance C s who Expendable Force"
    using red(1) reducible_force [of C s who] by linarith
  obtain d s1 where w: "write_balance C who new s = (Inr d, s1)"
    and s': "s' = (case d of None \<Rightarrow> s1 | Some v \<Rightarrow> handle_dust v s1)"
    using run le red(2)
    by (auto simp: decrease_balance_def Let_def min_absorb1 checked_sub_def new_def
        split: prod.splits sum.splits option.splits)
  have "free (account_of s who) - new \<le> reducible_balance C s who Expendable Force"
    using force le by (simp add: new_def)
  note ok = write_balance_ok [OF inv C this w]
  have acc: "accounts s' = accounts s1" by (simp add: s' split: option.splits)
  then have "account_of s' = account_of s1" "bal_wf C x s' = bal_wf C x s1"
    by (simp_all add: account_of_def info_of_def fun_eq_iff bal_wf_def)
  with ok acc show ?thesis by (auto simp: s')
qed

lemma increase_balance_ok:
  assumes inv: "bal_wf C x s" and C: "bal_config_ok C" and "amount \<noteq> 0"
    and le: "free (account_of s who) + amount \<le> u128_max"
      "existential_deposit C \<le> free (account_of s who) + amount"
  shows "bal_wf C x (snd (increase_balance C who amount BestEffort s)) \<and>
    free (account_of (snd (increase_balance C who amount BestEffort s)) who) = free (account_of s who) + amount \<and>
    reserved (account_of (snd (increase_balance C who amount BestEffort s)) who) = reserved (account_of s who) \<and>
    (\<forall>c. c \<noteq> who \<longrightarrow> fmlookup (accounts (snd (increase_balance C who amount BestEffort s))) c = fmlookup (accounts s) c) \<and>
    total_issuance (snd (increase_balance C who amount BestEffort s)) = total_issuance s"
proof -
  let ?new = "free (account_of s who) + amount"
  have red: "free (account_of s who) - ?new \<le> reducible_balance C s who Expendable Force" by simp
  let ?f = "\<lambda>a (_::bool) s'. if free a - ?new \<le> reducible_balance C s who Expendable Force
      then (Inr (a\<lparr>free := ?new\<rparr>, Inr ()), s')
      else (Inr (a, Inl (balances_err balances_error.InsufficientBalance)), s')"
  have "\<exists>d s'. try_mutate_account C who ?f s = (Inr (Inr (), d), s')"
    by (rule try_mutate_account_succeeds [OF inv]) auto
  then obtain d s' where w: "write_balance C who ?new s = (Inr d, s')"
    by (auto simp: write_balance_def Let_def)
  note ok = write_balance_ok [OF inv C red w]
  then have "d = None" using le by auto
  then have "increase_balance C who amount BestEffort s = (Inr (?new - free (account_of s who)), s')"
    using w le \<open>amount \<noteq> 0\<close> by (simp add: increase_balance_def Let_def)
  then show ?thesis using ok le by simp
qed

lemma transfer_ok:
  assumes inv: "bal_inv C x s" and C: "bal_config_ok C" and ne: "a \<noteq> b" "v \<noteq> 0"
    and run: "transfer C a b v er s = Inr s'"
  shows "bal_inv C x s' \<and> v \<le> free (account_of s a) \<and>
    free (account_of s' a) = after_debit C (account_of s a) v \<and>
    free (account_of s' b) = free (account_of s b) + v \<and>
    (er = KeepAlive \<longrightarrow> existential_deposit C \<le> free (account_of s a) - v) \<and>
    reserved (account_of s' a) = reserved (account_of s a) \<and>
    reserved (account_of s' b) = reserved (account_of s b) \<and>
    (\<forall>c. c \<noteq> a \<longrightarrow> c \<noteq> b \<longrightarrow> account_of s' c = account_of s c)"
proof -
  define pres where "pres = (case er of KeepAlive \<Rightarrow> Preserve | AllowDeath \<Rightarrow> Expendable)"
  have wf: "bal_wf C x s" and iss: "total_issuance s = issued s" "issued s \<le> u128_max"
    using inv by (simp_all add: bal_inv_def)
  obtain w r s1 where cw: "withdraw_into_result (can_withdraw C s a v) (pres \<noteq> Expendable) = Inr w"
    and cd: "can_deposit C s b v Extant = DcSuccess"
    and dec: "decrease_balance C a v BestEffort pres Polite s = (Inr r, s1)"
    and s': "s' = ledger_event (Transfer a b v) (snd (increase_balance C b v BestEffort s1))"
    using run ne
    by (auto simp: transfer_def fungible_transfer_def pres_def [symmetric] dispatch_simps
        split: prod.splits sum.splits if_splits)
  note W = can_withdraw_ok [OF cw ne(2)] and D = can_deposit_ok [OF cd ne(2)]
  have red: "v \<le> reducible_balance C s a pres Polite"
    by (rule reducible_preserve) (use W ne in auto)
  note dec_ok = decrease_balance_ok [OF wf C _ red dec]
  have b1: "account_of s1 b = account_of s b"
    using dec_ok W ne by (intro account_of_frame) auto
  define s2 where "s2 = snd (increase_balance C b v BestEffort s1)"
  have wf1: "bal_wf C x s1" using dec_ok W by simp
  note inc_ok = increase_balance_ok [OF wf1 C ne(2), of b, unfolded b1, folded s2_def]
  have a2: "account_of s2 a = account_of s1 a"
    using inc_ok D ne by (intro account_of_frame) auto
  have s'2: "account_of s' = account_of s2" "issued s' = issued s2" "total_issuance s' = total_issuance s2"
    "bal_wf C x s' = bal_wf C x s2"
    by (simp_all add: s' s2_def account_of_def fun_eq_iff issued_def bal_wf_def)
  have "issued s1 + free (account_of s a) + reserved (account_of s a) =
      issued s + free (account_of s1 a) + reserved (account_of s1 a)"
    using dec_ok W by (intro issued_change) simp
  moreover have "issued s2 + free (account_of s1 b) + reserved (account_of s1 b) =
      issued s1 + free (account_of s2 b) + reserved (account_of s2 b)"
    using inc_ok D by (intro issued_change) simp
  ultimately have "bal_inv C x s2"
    using dec_ok inc_ok W D iss b1 unfolding bal_inv_def by (auto split: if_splits)
  then have "bal_inv C x s'" by (simp add: bal_inv_def s'2)
  moreover have "\<forall>c. c \<noteq> a \<longrightarrow> c \<noteq> b \<longrightarrow> account_of s' c = account_of s c"
    unfolding s'2 using dec_ok inc_ok W D by (auto intro!: account_of_frame)
  ultimately show ?thesis
    using dec_ok inc_ok W D by (simp add: s'2 a2 b1 after_debit_def pres_def split: existence_requirement.splits)
qed
lemma handling_dust_ok:
  assumes inv: "bal_inv C x s" and C: "bal_config_ok C"
    and f: "f (account_of s who) (account_of s who = default_data) s = (Inr (a, r0), s1)"
    and s1: "accounts s1 = accounts s" "total_issuance s1 = total_issuance s"
    and a: "new_logic a"
    and run: "try_mutate_account_handling_dust C who f s = (Inr r, s')"
  shows "r = r0 \<and> bal_wf C x s' \<and>
    free (account_of s' who) = (if free a < existential_deposit C \<and> reserved a = 0 then 0 else free a) \<and>
    reserved (account_of s' who) = reserved a \<and>
    (\<forall>c. c \<noteq> who \<longrightarrow> account_of s' c = account_of s c) \<and>
    total_issuance s' = issued s - (if free a < existential_deposit C \<and> reserved a = 0 then free a else 0) \<and>
    issued s' + free (account_of s who) + reserved (account_of s who) =
      issued s + free (account_of s' who) + reserved (account_of s' who)"
proof -
  have wf: "bal_wf C x s" and iss: "total_issuance s = issued s" using inv by (simp_all add: bal_inv_def)
  have ed: "0 < existential_deposit C" using C by (simp add: bal_config_ok_def)
  obtain d s2 where mut: "try_mutate_account C who f s = (Inr (r, d), s2)"
    and s': "s' = (case d of None \<Rightarrow> s2 | Some v \<Rightarrow> handle_raw_dust C v s2)"
    using run by (auto simp: try_mutate_account_handling_dust_def split: prod.splits sum.splits option.splits)
  note ok = try_mutate_account_ok [OF wf C f s1 a mut]
  have acc: "accounts s' = accounts s2"
    by (simp add: s' handle_raw_dust_def split: option.splits)
  then have eq: "account_of s' = account_of s2" "issued s' = issued s2" "bal_wf C x s' = bal_wf C x s2"
    by (simp_all add: account_of_def info_of_def fun_eq_iff issued_def bal_wf_def)
  have "issued s2 + free (account_of s who) + reserved (account_of s who) =
      issued s + free (account_of s2 who) + reserved (account_of s2 who)"
    using ok by (intro issued_change) simp
  moreover have "total_issuance s' = issued s - (if free a < existential_deposit C \<and> reserved a = 0 then free a else 0)"
    using ok iss ed by (auto simp: s' handle_raw_dust_def maybe_dust_def min_def)
  ultimately show ?thesis
    using ok by (auto simp: eq kept_free intro!: account_of_frame)
qed

lemma withdraw_ok:
  assumes inv: "bal_inv C x s" and C: "bal_config_ok C"
    and run: "withdraw C who v er s = Inr (imb, s')"
  shows "imb = v \<and> bal_inv C x (drop_negative_imbalance imb s') \<and> v \<le> free (account_of s who) \<and>
    (v \<noteq> 0 \<longrightarrow> free (account_of s' who) = after_debit C (account_of s who) v) \<and>
    (v = 0 \<longrightarrow> account_of s' who = account_of s who) \<and>
    (er = KeepAlive \<and> existential_deposit C \<le> free (account_of s who) \<longrightarrow>
       v = 0 \<or> existential_deposit C \<le> free (account_of s who) - v) \<and>
    reserved (account_of s' who) = reserved (account_of s who) \<and>
    (\<forall>c. c \<noteq> who \<longrightarrow> account_of s' c = account_of s c)"
proof (cases "v = 0")
  case True
  then show ?thesis using run inv by (simp add: withdraw_def drop_negative_imbalance_def)
next
  case False
  let ?a = "account_of s who"
  let ?f = "\<lambda>a (_::bool) s'. case checked_sub (free a) v of
      None \<Rightarrow> (Inl (balances_err balances_error.InsufficientBalance), s')
    | Some new_free \<Rightarrow>
       (let would_kill = new_free < existential_deposit C \<and> free a \<ge> existential_deposit C in
        if \<not> (er = AllowDeath \<or> \<not> would_kill) then (Inl (balances_err Expendability), s')
        else case ensure_can_withdraw s' who v new_free of
               Inl e \<Rightarrow> (Inl e, s')
             | Inr _ \<Rightarrow> (Inr (a\<lparr>free := new_free\<rparr>, v), ledger_event (Withdraw who v) s'))"
  have mut: "try_mutate_account_handling_dust C who ?f s = (Inr imb, s')"
    using run False by (auto simp: withdraw_def split: prod.splits sum.splits)
  have wf: "bal_wf C x s" using inv by (simp add: bal_inv_def)
  have fx: "v \<le> free ?a \<and> (er = AllowDeath \<or> \<not> (free ?a - v < existential_deposit C \<and> existential_deposit C \<le> free ?a)) \<and>
      ?f ?a (?a = default_data) s = (Inr (?a\<lparr>free := free ?a - v\<rparr>, v), ledger_event (Withdraw who v) s)"
    using mut
    by (auto simp: try_mutate_account_handling_dust_def try_mutate_account_def ensure_upgraded_id [OF wf]
        Let_def checked_sub_def split: option.splits if_splits sum.splits prod.splits)
  have nl: "new_logic (?a\<lparr>free := free ?a - v\<rparr>)" using bal_wf_acc(1) [OF wf] by simp
  note ok = handling_dust_ok [OF inv C conjunct2 [OF conjunct2 [OF fx]] _ _ nl mut, simplified]
  have eq: "bal_wf C x (drop_negative_imbalance imb s') = bal_wf C x s'" "issued (drop_negative_imbalance imb s') = issued s'"
    by (simp_all add: drop_negative_imbalance_def bal_wf_def issued_def)
  have "bal_inv C x (drop_negative_imbalance imb s')"
    using ok fx inv issued_ge [of s who] unfolding bal_inv_def eq
    by (auto simp: drop_negative_imbalance_def split: if_splits)
  then show ?thesis using ok fx False by (auto simp: after_debit_def)
qed

lemma reserve_ok:
  assumes inv: "bal_inv C x s" and C: "bal_config_ok C"
    and run: "reserve C who v s = Inr s'"
  shows "bal_inv C x s' \<and> v \<le> free (account_of s who) \<and>
    free (account_of s' who) = free (account_of s who) - v \<and>
    reserved (account_of s' who) = reserved (account_of s who) + v \<and>
    (\<forall>c. c \<noteq> who \<longrightarrow> account_of s' c = account_of s c)"
proof (cases "v = 0")
  case True
  then show ?thesis using run inv by (simp add: reserve_def)
next
  case False
  let ?a = "account_of s who"
  let ?f = "\<lambda>a (_::bool) s'. case checked_sub (free a) v of
      None \<Rightarrow> (Inl (balances_err balances_error.InsufficientBalance), s')
    | Some new_free \<Rightarrow>
       (case checked_add u128_max (reserved a) v of
          None \<Rightarrow> (Inl (Arithmetic Overflow), s')
        | Some new_reserved \<Rightarrow>
           (case ensure_can_withdraw s' who v new_free of
              Inl e \<Rightarrow> (Inl e, s')
            | Inr _ \<Rightarrow> (Inr (a\<lparr>free := new_free, reserved := new_reserved\<rparr>, ()), s')))"
  obtain u s1 where mut: "try_mutate_account_handling_dust C who ?f s = (Inr u, s1)"
    and s': "s' = ledger_event (ReservedEv who v) s1"
    using run False by (auto simp: reserve_def split: prod.splits sum.splits)
  have wf: "bal_wf C x s" using inv by (simp add: bal_inv_def)
  have fx: "v \<le> free ?a \<and> reserved ?a + v \<le> u128_max \<and>
      ?f ?a (?a = default_data) s = (Inr (?a\<lparr>free := free ?a - v, reserved := reserved ?a + v\<rparr>, ()), s)"
    using mut
    by (auto simp: try_mutate_account_handling_dust_def try_mutate_account_def ensure_upgraded_id [OF wf]
        Let_def checked_sub_def checked_add_def split: option.splits if_splits sum.splits prod.splits)
  have nl: "new_logic (?a\<lparr>free := free ?a - v, reserved := reserved ?a + v\<rparr>)"
    using bal_wf_acc(1) [OF wf] by simp
  note ok = handling_dust_ok [OF inv C conjunct2 [OF conjunct2 [OF fx]] refl refl nl mut, simplified]
  have eq: "bal_wf C x s' = bal_wf C x s1" "issued s' = issued s1" "total_issuance s' = total_issuance s1"
    "account_of s' = account_of s1"
    by (simp_all add: s' bal_wf_def issued_def account_of_def fun_eq_iff)
  show ?thesis using ok fx inv False unfolding bal_inv_def eq by auto
qed

lemma unreserve_ok:
  assumes inv: "bal_inv C x s" and C: "bal_config_ok C"
    and run: "unreserve C who v s = (r, s')"
  defines "m \<equiv> min (reserved (account_of s who)) v"
  shows "bal_inv C x s' \<and> r = v - m \<and>
    reserved (account_of s' who) = reserved (account_of s who) - m \<and>
    (free (account_of s' who) = free (account_of s who) + m \<or>
     free (account_of s who) + m < existential_deposit C \<and> free (account_of s' who) = 0) \<and>
    (existential_deposit C \<le> free (account_of s who) \<longrightarrow>
       free (account_of s' who) = free (account_of s who) + m) \<and>
    (\<forall>c. c \<noteq> who \<longrightarrow> account_of s' c = account_of s c)"
proof (cases "v = 0 \<or> total_balance s who = 0")
  case True
  then have "s' = s \<and> r = v \<and> (v = 0 \<or> reserved (account_of s who) = 0)"
    using run by (auto simp: unreserve_def total_balance_def total_def sat_add_def u128_max_def split: if_splits)
  then show ?thesis using inv by (auto simp: m_def)
next
  case False
  let ?a = "account_of s who"
  let ?f = "\<lambda>a (_::bool) s'. let actual = min (reserved a) v in
     (Inr (a\<lparr>reserved := reserved a - actual, free := add128 (free a) actual\<rparr>, actual), s')"
  have wf: "bal_wf C x s" using inv by (simp add: bal_inv_def)
  have sum: "free ?a + m \<le> u128_max"
    using issued_ge [of s who] inv by (simp add: bal_inv_def m_def min_def split: if_splits)
  have fx: "?f ?a (?a = default_data) s =
      (Inr (?a\<lparr>reserved := reserved ?a - m, free := free ?a + m\<rparr>, m), s)"
    using sum by (simp add: Let_def m_def)
  have "\<exists>d s'. try_mutate_account C who ?f s = (Inr (m, d), s')"
    by (rule try_mutate_account_succeeds [where f = ?f, OF wf fx]) auto
  then obtain s1 where mut: "try_mutate_account_handling_dust C who ?f s = (Inr m, s1)"
    by (fastforce simp: try_mutate_account_handling_dust_def split: option.splits)
  then have s': "s' = ledger_event (Unreserved who m) s1" "r = v - m"
    using run False by (auto simp: unreserve_def)
  have nl: "new_logic (?a\<lparr>reserved := reserved ?a - m, free := free ?a + m\<rparr>)"
    using bal_wf_acc(1) [OF wf] by simp
  note ok = handling_dust_ok [where f = ?f, OF inv C fx refl refl nl mut, simplified]
  have eq: "bal_wf C x s' = bal_wf C x s1" "issued s' = issued s1" "total_issuance s' = total_issuance s1"
    "account_of s' = account_of s1"
    by (simp_all add: s' bal_wf_def issued_def account_of_def fun_eq_iff)
  have "m \<le> reserved ?a" by (simp add: m_def)
  then show ?thesis using ok inv unfolding bal_inv_def eq s'(2) by (auto split: if_splits)
qed

section \<open>When a transfer succeeds\<close>

lemma issued_ge2:
  assumes "a \<noteq> b"
  shows "free (account_of s a) + reserved (account_of s a) + (free (account_of s b) + reserved (account_of s b)) \<le> issued s"
proof -
  have "issued s = fmsum entry_total (fmdrop b (fmdrop a (accounts s))) +
      opt_nat (entry_total b) (fmlookup (accounts s) b) + opt_nat (entry_total a) (fmlookup (accounts s) a)"
    unfolding issued_def
    using fmsum_drop [of entry_total a "accounts s"] fmsum_drop [of entry_total b "fmdrop a (accounts s)"] assms
    by simp
  then show ?thesis by (simp add: entry_total_opt)
qed

lemma decrease_balance_succeeds:
  assumes inv: "bal_wf C x s"
    and le: "v + existential_deposit C \<le> free (account_of s who)" "frozen (account_of s who) = 0"
  shows "\<exists>r s'. decrease_balance C who v BestEffort pres Polite s = (Inr r, s')"
proof -
  let ?new = "free (account_of s who) - v"
  let ?f = "\<lambda>a (_::bool) s'. if free a - ?new \<le> reducible_balance C s who Expendable Force
      then (Inr (a\<lparr>free := ?new\<rparr>, Inr ()), s')
      else (Inr (a, Inl (balances_err balances_error.InsufficientBalance)), s')"
  have red: "v \<le> reducible_balance C s who p f" for p f
    using le by (auto simp: reducible_balance_def Let_def)
  have "\<exists>d s'. try_mutate_account C who ?f s = (Inr (Inr (), d), s')"
    by (rule try_mutate_account_succeeds [OF inv]) (use le red in auto)
  then obtain d s' where "write_balance C who ?new s = (Inr d, s')"
    by (auto simp: write_balance_def Let_def)
  then show ?thesis using red [of pres Polite] le
    by (cases d) (auto simp: decrease_balance_def Let_def min_absorb1 checked_sub_def)
qed

lemma transfer_succeeds:
  assumes inv: "bal_inv C x s" and ne: "a \<noteq> b"
    and le: "v + existential_deposit C \<le> free (account_of s a)" "frozen (account_of s a) = 0"
    and dest: "existential_deposit C \<le> free (account_of s b) + v"
  shows "\<exists>s'. transfer C a b v er s = Inr s'"
proof (cases "v = 0")
  case True
  then show ?thesis by (simp add: transfer_def)
next
  case False
  have wf: "bal_wf C x s" and iss: "total_issuance s = issued s" "issued s \<le> u128_max"
    using inv by (simp_all add: bal_inv_def)
  note sum = issued_ge2 [OF ne, of s]
  have red: "v \<le> reducible_balance C s a p f" for p f
    using le by (auto simp: reducible_balance_def Let_def)
  have w: "can_withdraw C s a v = WcSuccess"
    using False le sum iss red [of Expendable Polite]
    by (auto simp: can_withdraw_def Let_def checked_sub_def split: option.splits if_splits)
  have d: "can_deposit C s b v Extant = DcSuccess"
    using False le sum iss dest by (auto simp: can_deposit_def Let_def checked_add_def)
  obtain r s1 where "decrease_balance C a v BestEffort (case er of KeepAlive \<Rightarrow> Preserve | AllowDeath \<Rightarrow> Expendable)
      Polite s = (Inr r, s1)"
    using decrease_balance_succeeds [OF wf le] by blast
  then show ?thesis using False ne w d by (simp add: transfer_def fungible_transfer_def try_bind_def)
qed

end
