(* ===== verification/Assets.thy ===== *)
theory Assets
  imports Balances
begin

text \<open>
  The fungible assets of \<open>pallet_assets\<close>, as the pallets use them through
  \<open>fungibles::Inspect\<close> and \<open>fungibles::Mutate\<close>: asset records and asset accounts on top of the
  shared account store, in the configuration of the leafchain runtime (no freezer, no extra
  data). Creating an asset account takes a consumer or a sufficient reference on the system
  account of its holder, and its death gives the reference back.
\<close>

section \<open>State\<close>

datatype asset_life = Live | AssetFrozen | Destroying

datatype account_status = Liquid | AccountFrozen | AccountBlocked

datatype existence_reason =
    Consumer | Sufficient | DepositHeld balance | DepositRefunded | DepositFrom account_id balance

record asset_details =
  total_supply :: balance
  min_balance :: balance
  is_sufficient :: bool
  accounts_count :: nat
  sufficients_count :: nat
  life :: asset_life

record asset_account =
  asset_balance :: balance
  account_state :: account_status
  reason :: existence_reason

datatype asset_event =
    AssetTransferred nat account_id account_id balance | AssetBurned nat account_id balance

record assets_state = ledger_state +
  asset_map :: "(nat, asset_details) fmap"
  asset_accounts :: "(nat \<times> account_id, asset_account) fmap"
  asset_events :: "asset_event list"

datatype dead_consequence = Remove | Keep

definition is_frozen :: "account_status \<Rightarrow> bool" where
  "is_frozen st = (st = AccountFrozen \<or> st = AccountBlocked)"

definition is_blocked :: "account_status \<Rightarrow> bool" where
  "is_blocked st = (st = AccountBlocked)"

section \<open>More reference counters of \<open>frame_system\<close>\<close>

definition inc_sufficients :: "account_id \<Rightarrow> 'z ledger_state_scheme \<Rightarrow> 'z ledger_state_scheme" where
  "inc_sufficients who s =
    (let a = info_of s who in
     if providers a + sufficients a = 0
     then ledger_event (NewAccount who) (set_info who (a\<lparr>sufficients := 1\<rparr>) s)
     else set_info who (a\<lparr>sufficients := add32 (sufficients a) 1\<rparr>) s)"

definition dec_sufficients :: "account_id \<Rightarrow> 'z ledger_state_scheme \<Rightarrow> 'z ledger_state_scheme" where
  "dec_sufficients who s =
    (case fmlookup (accounts s) who of
       None \<Rightarrow> s
     | Some a \<Rightarrow>
        if (sufficients a = 0 \<or> sufficients a = 1) \<and> providers a = 0
        then ledger_event (KilledAccount who) (s\<lparr>accounts := fmdrop who (accounts s)\<rparr>)
        else set_info who (a\<lparr>sufficients := sufficients a - 1\<rparr>) s)"

definition can_accrue_consumers :: "balances_config \<Rightarrow> 'z ledger_state_scheme \<Rightarrow> account_id \<Rightarrow> nat \<Rightarrow> bool" where
  "can_accrue_consumers C s who amount =
    (case checked_add u32_max (consumers (info_of s who)) amount of
       None \<Rightarrow> False
     | Some c \<Rightarrow> providers (info_of s who) > 0 \<and> c \<le> max_consumers C)"

definition can_inc_consumer :: "balances_config \<Rightarrow> 'z ledger_state_scheme \<Rightarrow> account_id \<Rightarrow> bool" where
  "can_inc_consumer C s who = can_accrue_consumers C s who 1"

section \<open>Operations of the pallet\<close>

definition assets_balance :: "'z assets_state_scheme \<Rightarrow> nat \<Rightarrow> account_id \<Rightarrow> balance" where
  "assets_balance s aid who =
    (case fmlookup (asset_accounts s) (aid, who) of None \<Rightarrow> 0 | Some a \<Rightarrow> asset_balance a)"

definition minimum_balance :: "'z assets_state_scheme \<Rightarrow> nat \<Rightarrow> balance" where
  "minimum_balance s aid = (case fmlookup (asset_map s) aid of None \<Rightarrow> 0 | Some d \<Rightarrow> min_balance d)"

definition asset_issuance :: "'z assets_state_scheme \<Rightarrow> nat \<Rightarrow> balance" where
  "asset_issuance s aid = (case fmlookup (asset_map s) aid of None \<Rightarrow> 0 | Some d \<Rightarrow> total_supply d)"

definition asset_event :: "asset_event \<Rightarrow> 'z assets_state_scheme \<Rightarrow> 'z assets_state_scheme" where
  "asset_event e s = s\<lparr>asset_events := asset_events s @ [e]\<rparr>"

text \<open>\<open>new_account\<close> without a deposit: the only form that transfers use.\<close>

definition new_account ::
  "balances_config \<Rightarrow> account_id \<Rightarrow> asset_details \<Rightarrow> 'z assets_state_scheme \<Rightarrow>
   (existence_reason \<times> asset_details \<times> 'z assets_state_scheme) dispatch_result" where
  "new_account C who d s =
    ok_or (checked_add u32_max (accounts_count d) 1) (Arithmetic Overflow) (\<lambda>n.
    if is_sufficient d
    then Inr (Sufficient,
              d\<lparr>sufficients_count := add32 (sufficients_count d) 1, accounts_count := n\<rparr>,
              inc_sufficients who s)
    else try_bind (map_err (\<lambda>_. assets_err UnavailableConsumer) (inc_consumers C who s)) (\<lambda>s'.
      if \<not> can_inc_consumer C s' who then Inl (assets_err UnavailableConsumer)
      else Inr (Consumer, d\<lparr>accounts_count := n\<rparr>, s')))"

definition dead_account ::
  "account_id \<Rightarrow> asset_details \<Rightarrow> existence_reason \<Rightarrow> bool \<Rightarrow> 'z assets_state_scheme \<Rightarrow>
   dead_consequence \<times> asset_details \<times> 'z assets_state_scheme" where
  "dead_account who d r force s =
    (let n = accounts_count d - 1 in
     case r of
       Consumer \<Rightarrow> (Remove, d\<lparr>accounts_count := n\<rparr>, dec_consumers who s)
     | Sufficient \<Rightarrow> (Remove, d\<lparr>sufficients_count := sufficients_count d - 1, accounts_count := n\<rparr>,
                      dec_sufficients who s)
     | DepositRefunded \<Rightarrow> (Remove, d\<lparr>accounts_count := n\<rparr>, s)
     | DepositHeld _ \<Rightarrow> (if force then (Remove, d\<lparr>accounts_count := n\<rparr>, s) else (Keep, d, s))
     | DepositFrom _ _ \<Rightarrow> (if force then (Remove, d\<lparr>accounts_count := n\<rparr>, s) else (Keep, d, s)))"

definition can_increase ::
  "balances_config \<Rightarrow> 'z assets_state_scheme \<Rightarrow> nat \<Rightarrow> account_id \<Rightarrow> balance \<Rightarrow> bool \<Rightarrow> deposit_consequence" where
  "can_increase C s aid who amount increase_supply =
    (case fmlookup (asset_map s) aid of
       None \<Rightarrow> DcUnknownAsset
     | Some d \<Rightarrow>
        if increase_supply \<and> checked_add u128_max (total_supply d) amount = None then DcOverflow
        else case fmlookup (asset_accounts s) (aid, who) of
          Some a \<Rightarrow>
            if is_blocked (account_state a) then DcBlocked
            else if checked_add u128_max (asset_balance a) amount = None then DcOverflow
            else DcSuccess
        | None \<Rightarrow>
            if amount < min_balance d then DcBelowMinimum
            else if \<not> is_sufficient d \<and> \<not> can_accrue_consumers C s who 2 then DcCannotCreate
            else if is_sufficient d \<and> checked_add u32_max (sufficients_count d) 1 = None then DcOverflow
            else DcSuccess)"

definition can_decrease ::
  "'z assets_state_scheme \<Rightarrow> nat \<Rightarrow> account_id \<Rightarrow> balance \<Rightarrow> bool \<Rightarrow> withdraw_consequence" where
  "can_decrease s aid who amount keep_alive =
    (case fmlookup (asset_map s) aid of
       None \<Rightarrow> WcUnknownAsset
     | Some d \<Rightarrow>
        if checked_sub (total_supply d) amount = None then WcUnderflow
        else if life d = AssetFrozen then WcFrozen
        else if amount = 0 then WcSuccess
        else case fmlookup (asset_accounts s) (aid, who) of
          None \<Rightarrow> WcBalanceLow
        | Some a \<Rightarrow>
            if is_frozen (account_state a) then WcFrozen
            else case checked_sub (asset_balance a) amount of
              None \<Rightarrow> WcBalanceLow
            | Some rest \<Rightarrow>
                if rest < min_balance d then (if keep_alive then WcWouldDie else WcReducedToZero rest)
                else WcSuccess)"

definition assets_reducible_balance ::
  "'z assets_state_scheme \<Rightarrow> nat \<Rightarrow> account_id \<Rightarrow> bool \<Rightarrow> balance dispatch_result" where
  "assets_reducible_balance s aid who keep_alive =
    ok_or (fmlookup (asset_map s) aid) (assets_err Unknown) (\<lambda>d.
    ensure (life d = Live) (assets_err AssetNotLive) (
    ok_or (fmlookup (asset_accounts s) (aid, who)) (assets_err NoAccount) (\<lambda>a.
    ensure (\<not> is_frozen (account_state a)) (assets_err assets_error.Frozen) (
    Inr (min (if keep_alive then asset_balance a - min_balance d else asset_balance a) (total_supply d))))))"

definition prep_debit ::
  "'z assets_state_scheme \<Rightarrow> nat \<Rightarrow> account_id \<Rightarrow> balance \<Rightarrow> bool \<Rightarrow> bool \<Rightarrow> balance dispatch_result" where
  "prep_debit s aid who amount keep_alive best_effort =
    try_bind (assets_reducible_balance s aid who keep_alive) (\<lambda>r.
    let actual = min r amount in
    ensure (best_effort \<or> actual \<ge> amount) (assets_err BalanceLow) (
    try_bind (withdraw_into_result (can_decrease s aid who actual keep_alive) keep_alive) (\<lambda>dust.
    Inr (add128 actual dust))))"

text \<open>\<open>increase_balance\<close> and \<open>decrease_balance\<close> with the trivial check of the trait instances.\<close>

definition assets_increase_balance ::
  "balances_config \<Rightarrow> nat \<Rightarrow> account_id \<Rightarrow> balance \<Rightarrow> 'z assets_state_scheme \<Rightarrow> ('z assets_state_scheme) dispatch_result" where
  "assets_increase_balance C aid who amount s =
    (if amount = 0 then Inr s
     else try_bind (deposit_into_result (can_increase C s aid who amount True)) (\<lambda>_.
     ok_or (fmlookup (asset_map s) aid) (assets_err Unknown) (\<lambda>d.
     ensure (life d = Live) (assets_err AssetNotLive) (
     case fmlookup (asset_accounts s) (aid, who) of
       Some a \<Rightarrow>
         Inr (s\<lparr>asset_accounts :=
                fmupd (aid, who) (a\<lparr>asset_balance := add128 (asset_balance a) amount\<rparr>) (asset_accounts s)\<rparr>)
     | None \<Rightarrow>
         ensure (amount \<ge> min_balance d) (Token BelowMinimum) (
         try_bind (new_account C who d s) (\<lambda>(r, d', s').
         Inr (s'\<lparr>asset_map := fmupd aid d' (asset_map s'),
                 asset_accounts := fmupd (aid, who)
                   \<lparr>asset_balance = amount, account_state = Liquid, reason = r\<rparr> (asset_accounts s')\<rparr>)))))))"

definition assets_decrease_balance ::
  "nat \<Rightarrow> account_id \<Rightarrow> balance \<Rightarrow> bool \<Rightarrow> bool \<Rightarrow> 'z assets_state_scheme \<Rightarrow>
   (balance \<times> 'z assets_state_scheme) dispatch_result" where
  "assets_decrease_balance aid who amount keep_alive best_effort s =
    (if amount = 0 then Inr (amount, s)
     else ok_or (fmlookup (asset_map s) aid) (assets_err Unknown) (\<lambda>d.
     ensure (life d = Live) (assets_err AssetNotLive) (
     try_bind (prep_debit s aid who amount keep_alive best_effort) (\<lambda>actual.
     ok_or (fmlookup (asset_accounts s) (aid, who)) (assets_err NoAccount) (\<lambda>a.
     let a' = a\<lparr>asset_balance := asset_balance a - actual\<rparr> in
     if asset_balance a' < min_balance d
     then (case dead_account who d (reason a') False s of
             (Remove, d', s') \<Rightarrow>
               Inr (actual, s'\<lparr>asset_map := fmupd aid d' (asset_map s'),
                               asset_accounts := fmdrop (aid, who) (asset_accounts s')\<rparr>)
           | (Keep, d', s') \<Rightarrow>
               Inr (actual, s'\<lparr>asset_map := fmupd aid d' (asset_map s'),
                               asset_accounts := fmupd (aid, who) a' (asset_accounts s')\<rparr>))
     else Inr (actual, s\<lparr>asset_accounts := fmupd (aid, who) a' (asset_accounts s)\<rparr>))))))"

section \<open>\<open>fungibles::Mutate\<close>\<close>

definition assets_transfer ::
  "balances_config \<Rightarrow> nat \<Rightarrow> account_id \<Rightarrow> account_id \<Rightarrow> balance \<Rightarrow> preservation \<Rightarrow>
   'z assets_state_scheme \<Rightarrow> ('z assets_state_scheme) dispatch_result" where
  "assets_transfer C aid source dest amount pres s =
    try_bind (withdraw_into_result (can_decrease s aid source amount False) (pres \<noteq> Expendable)) (\<lambda>_.
    try_bind (deposit_into_result (can_increase C s aid dest amount False)) (\<lambda>_.
    if source = dest then Inr s
    else try_bind (assets_decrease_balance aid source amount (pres \<noteq> Expendable) True s) (\<lambda>(_, s1).
      Inr (asset_event (AssetTransferred aid source dest amount)
             (case assets_increase_balance C aid dest amount s1 of Inl _ \<Rightarrow> s1 | Inr s2 \<Rightarrow> s2)))))"

definition assets_burn_from ::
  "nat \<Rightarrow> account_id \<Rightarrow> balance \<Rightarrow> preservation \<Rightarrow> precision \<Rightarrow> 'z assets_state_scheme \<Rightarrow>
   ('z assets_state_scheme) dispatch_result" where
  "assets_burn_from aid who amount pres prec s =
    (let reducible = (case assets_reducible_balance s aid who (pres \<noteq> Expendable) of Inl _ \<Rightarrow> 0 | Inr r \<Rightarrow> r);
         actual = min reducible amount
     in ensure (actual = amount \<or> prec = BestEffort) (Token FundsUnavailable) (
        ok_or (checked_sub (asset_issuance s aid) actual) (Arithmetic Overflow) (\<lambda>_.
        try_bind (assets_decrease_balance aid who actual (pres \<noteq> Expendable) True s) (\<lambda>(burned, s1).
        Inr (asset_event (AssetBurned aid who burned)
          (case fmlookup (asset_map s1) aid of
             None \<Rightarrow> s1
           | Some d \<Rightarrow> s1\<lparr>asset_map := fmupd aid (d\<lparr>total_supply := asset_issuance s1 aid - burned\<rparr>) (asset_map s1)\<rparr>))))))"

section \<open>Well-formedness\<close>

text \<open>
  \<open>asset_refs\<close> counts the consumer and sufficient references that asset accounts hold on an
  account; \<open>ledger_inv\<close> is the well-formedness of the native ledger under these references,
  together with the holdings of every asset fitting its supply. \<open>asset_room\<close> excludes the counter
  overflows that would make the credit side of a transfer fail silently.
\<close>

definition refs_of :: "existence_reason \<Rightarrow> 'z assets_state_scheme \<Rightarrow> account_id \<Rightarrow> nat" where
  "refs_of r s who = fmcount (\<lambda>k a. snd k = who \<and> reason a = r) (asset_accounts s)"

definition asset_refs :: "'z assets_state_scheme \<Rightarrow> account_id \<Rightarrow> nat \<times> nat" where
  "asset_refs s who = (refs_of Consumer s who, refs_of Sufficient s who)"

definition holdings :: "'z assets_state_scheme \<Rightarrow> nat \<Rightarrow> nat" where
  "holdings s aid = fmsum (\<lambda>k a. if fst k = aid then asset_balance a else 0) (asset_accounts s)"

definition assets_wf :: "'z assets_state_scheme \<Rightarrow> bool" where
  "assets_wf s =
    ((\<forall>aid. holdings s aid \<le> asset_issuance s aid \<and> asset_issuance s aid \<le> u128_max) \<and>
     (\<forall>aid who. contains_key (asset_accounts s) (aid, who) \<longrightarrow> contains_key (asset_map s) aid) \<and>
     fcard (fmdom (asset_map s)) < u32_max)"

definition ledger_inv :: "balances_config \<Rightarrow> 'z assets_state_scheme \<Rightarrow> bool" where
  "ledger_inv C s = (bal_inv C (asset_refs s) s \<and> assets_wf s)"

definition asset_room :: "'z assets_state_scheme \<Rightarrow> nat \<Rightarrow> bool" where
  "asset_room s aid =
    (case fmlookup (asset_map s) aid of
       None \<Rightarrow> True
     | Some d \<Rightarrow> 2 * total_supply d \<le> u128_max \<and> accounts_count d < u32_max)"

text \<open>The balance that a debit of \<open>v\<close> leaves: nothing where the rest is below the minimum.\<close>

definition asset_after_debit :: "'z assets_state_scheme \<Rightarrow> nat \<Rightarrow> account_id \<Rightarrow> balance \<Rightarrow> balance" where
  "asset_after_debit s aid who v =
    (if assets_balance s aid who - v < minimum_balance s aid then 0 else assets_balance s aid who - v)"

abbreviation ext :: "'z ledger_state_scheme \<Rightarrow> 'z" where
  "ext \<equiv> ledger_state.more"

text \<open>The configuration of the leafchain runtime, and its ledger as currency parameters.\<close>

definition thx_balances :: balances_config where
  "thx_balances = \<lparr>existential_deposit = 10000000, max_consumers = 16\<rparr>"

definition ledger_currencies :: "balances_config \<Rightarrow> ('z assets_state_scheme) currencies" where
  "ledger_currencies C =
    \<lparr>native_minimum = existential_deposit C,
     native_free = free_balance,
     native_reserved = reserved_balance,
     native_transfer = transfer C,
     native_withdraw = withdraw C,
     native_drop_imbalance = drop_negative_imbalance,
     native_reserve = reserve C,
     native_unreserve = unreserve C,
     fungibles_balance = assets_balance,
     fungibles_transfer = assets_transfer C,
     fungibles_burn = assets_burn_from\<rparr>"

section \<open>References under the native ledger\<close>

lemma bal_wf_step:
  assumes "bal_wf C x s" "\<And>c. c \<noteq> who \<Longrightarrow> fmlookup (accounts s') c = fmlookup (accounts s) c"
    "\<And>c. c \<noteq> who \<Longrightarrow> x' c = x c"
    "case fmlookup (accounts s') who of None \<Rightarrow> x' who = (0, 0) | Some i \<Rightarrow> acc_ok C (x' who) i"
  shows "bal_wf C x' s'"
  unfolding bal_wf_def using assms by (metis bal_wf_def)

lemma bal_inv_step:
  assumes "bal_inv C x s" "\<And>c. c \<noteq> who \<Longrightarrow> fmlookup (accounts s') c = fmlookup (accounts s) c"
    "\<And>c. c \<noteq> who \<Longrightarrow> x' c = x c"
    "case fmlookup (accounts s') who of None \<Rightarrow> x' who = (0, 0) | Some i \<Rightarrow> acc_ok C (x' who) i"
    "account_of s' who = account_of s who" "total_issuance s' = total_issuance s"
  shows "bal_inv C x' s'"
  using assms bal_wf_step [of C x s who s' x'] issued_change [of who s' s]
  unfolding bal_inv_def by auto

lemma dec_consumers_inv:
  assumes "bal_inv C x s" "0 < fst (x who)"
    "x' = x(who := (fst (x who) - 1, snd (x who)))"
  shows "bal_inv C x' (dec_consumers who s)"
proof (rule bal_inv_step [OF assms(1), of who])
  have wf: "bal_wf C x s" using assms(1) by (simp add: bal_inv_def)
  have "fmlookup (accounts s) who \<noteq> None"
    using spec [OF wf [unfolded bal_wf_def], of who] assms(2) by (auto split: option.splits)
  then obtain i where i: "fmlookup (accounts s) who = Some i" by auto
  then have ok: "acc_ok C (x who) i" using spec [OF wf [unfolded bal_wf_def], of who] by simp
  show "case fmlookup (accounts (dec_consumers who s)) who of None \<Rightarrow> x' who = (0, 0) | Some i \<Rightarrow> acc_ok C (x' who) i"
    using ok assms(2) i
    by (auto simp: dec_consumers_def Let_def info_of_def assms(3) acc_ok_def)
  show "account_of (dec_consumers who s) who = account_of s who"
    by (simp add: account_of_def dec_consumers_info)
qed (auto simp: refs_frame assms(3))

lemma dec_sufficients_account:
  assumes wf: "bal_wf C x s" and pos: "0 < snd (x who)"
  shows "account_of (dec_sufficients who s) = account_of s"
proof -
  obtain i where i: "fmlookup (accounts s) who = Some i" "acc_ok C (x who) i"
    using spec [OF wf [unfolded bal_wf_def], of who] pos by (cases "fmlookup (accounts s) who") auto
  then have "providers i = 0 \<Longrightarrow> data i = default_data" by (auto simp: acc_ok_def)
  then have "account_of (dec_sufficients who s) c = account_of s c" for c
    using i pos
    by (auto simp: account_of_def dec_sufficients_def acc_ok_def info_of_def get_or_def set_info_def ledger_event_def)
  then show ?thesis by auto
qed

lemma dec_sufficients_inv:
  assumes "bal_inv C x s" "0 < snd (x who)"
    "x' = x(who := (fst (x who), snd (x who) - 1))"
  shows "bal_inv C x' (dec_sufficients who s)"
proof (rule bal_inv_step [OF assms(1), of who])
  have wf: "bal_wf C x s" using assms(1) by (simp add: bal_inv_def)
  obtain i where i: "fmlookup (accounts s) who = Some i" "acc_ok C (x who) i"
    using spec [OF wf [unfolded bal_wf_def], of who] assms(2) by (cases "fmlookup (accounts s) who") auto
  show "case fmlookup (accounts (dec_sufficients who s)) who of None \<Rightarrow> x' who = (0, 0) | Some i \<Rightarrow> acc_ok C (x' who) i"
    using i assms(2) by (auto simp: dec_sufficients_def assms(3) acc_ok_def)
  show "account_of (dec_sufficients who s) who = account_of s who"
    by (simp add: dec_sufficients_account [where x = x and C = C] wf assms(2))
qed (auto simp: dec_sufficients_def assms(3) split: option.splits)

lemma inc_consumers_inv:
  assumes "bal_inv C x s" "inc_consumers C who s = Inr s'" "max_consumers C \<le> u32_max"
    "x' = x(who := (fst (x who) + 1, snd (x who)))"
  shows "bal_inv C x' s'"
proof (rule bal_inv_step [OF assms(1), of who])
  have wf: "bal_wf C x s" using assms(1) by (simp add: bal_inv_def)
  note s' = inc_consumers_Inr [OF assms(2,3)]
  then obtain i where i: "fmlookup (accounts s) who = Some i"
    by (cases "fmlookup (accounts s) who") (auto simp: info_of_def)
  then have ok: "acc_ok C (x who) i" using spec [OF wf [unfolded bal_wf_def], of who] by simp
  show "case fmlookup (accounts s') who of None \<Rightarrow> x' who = (0, 0) | Some i \<Rightarrow> acc_ok C (x' who) i"
    using ok i s' by (auto simp: info_of_def assms(4) acc_ok_def)
  show "account_of s' who = account_of s who" using s' by (simp add: account_of_def)
  show "\<And>c. c \<noteq> who \<Longrightarrow> fmlookup (accounts s') c = fmlookup (accounts s) c"
    "total_issuance s' = total_issuance s" using s' by auto
qed (auto simp: assms(4))

lemma inc_sufficients_inv:
  assumes "bal_inv C x s" "snd (x who) < u32_max" "0 < existential_deposit C"
    "x' = x(who := (fst (x who), snd (x who) + 1))"
  shows "bal_inv C x' (inc_sufficients who s)"
proof (rule bal_inv_step [OF assms(1), of who])
  have wf: "bal_wf C x s" using assms(1) by (simp add: bal_inv_def)
  show "case fmlookup (accounts (inc_sufficients who s)) who of None \<Rightarrow> x' who = (0, 0) | Some i \<Rightarrow> acc_ok C (x' who) i"
  proof (cases "fmlookup (accounts s) who")
    case None
    then show ?thesis
      using spec [OF wf [unfolded bal_wf_def], of who] assms(3)
      by (simp add: info_of_def assms(4) acc_ok_def inc_sufficients_def Let_def)
  next
    case (Some i)
    have "Suc (snd (x who)) \<le> add32 n (Suc 0)" if "snd (x who) \<le> n" for n
      using that assms(2) by (simp add: sat_add_def)
    then show ?thesis
      using Some spec [OF wf [unfolded bal_wf_def], of who]
      by (auto simp: info_of_def assms(4) acc_ok_def inc_sufficients_def Let_def)
  qed
  show "account_of (inc_sufficients who s) who = account_of s who"
    by (simp add: account_of_def inc_sufficients_def Let_def)
qed (auto simp: assms(4) inc_sufficients_def Let_def)

section \<open>Counting asset accounts\<close>

text \<open>A ledger operation that leaves the asset maps alone and the reverse.\<close>

lemma ledger_frame_simps [simp]:
  "asset_accounts (set_info who i s) = asset_accounts s"
  "asset_map (set_info who i s) = asset_map s"
  "asset_accounts (ledger_event e s) = asset_accounts s"
  "asset_map (ledger_event e s) = asset_map s"
  by (simp_all add: set_info_def ledger_event_def)

lemma refs_asset_frame [simp]:
  "asset_accounts (dec_consumers who s) = asset_accounts s"
  "asset_map (dec_consumers who s) = asset_map s"
  "asset_accounts (dec_sufficients who s) = asset_accounts s"
  "asset_map (dec_sufficients who s) = asset_map s"
  "asset_accounts (inc_sufficients who s) = asset_accounts s"
  "asset_map (inc_sufficients who s) = asset_map s"
  by (simp_all add: dec_consumers_def dec_sufficients_def inc_sufficients_def Let_def split: option.splits)

lemma inc_consumers_asset_frame:
  "inc_consumers C who s = Inr s' \<Longrightarrow> asset_accounts s' = asset_accounts s \<and> asset_map s' = asset_map s"
  by (auto simp: inc_consumers_def Let_def split: if_splits)

lemma bal_inv_more:
  "accounts s' = accounts s \<Longrightarrow> total_issuance s' = total_issuance s \<Longrightarrow> bal_inv C x s' = bal_inv C x s"
  by (simp add: bal_inv_def bal_wf_def issued_def)

lemma refs_of_upd:
  "refs_of r (s\<lparr>asset_accounts := fmupd (aid, who) a (asset_accounts s)\<rparr>) c +
     (if c = who \<and> (\<exists>b. fmlookup (asset_accounts s) (aid, who) = Some b \<and> reason b = r) then 1 else 0)
   = refs_of r s c + (if c = who \<and> reason a = r then 1 else 0)"
  using fmcount_upd [of "\<lambda>k a. snd k = c \<and> reason a = r" "(aid, who)" a "asset_accounts s"]
  by (cases "fmlookup (asset_accounts s) (aid, who)") (auto simp: refs_of_def)

lemma refs_of_drop:
  "refs_of r (s\<lparr>asset_accounts := fmdrop (aid, who) (asset_accounts s)\<rparr>) c +
     (if c = who \<and> (\<exists>b. fmlookup (asset_accounts s) (aid, who) = Some b \<and> reason b = r) then 1 else 0)
   = refs_of r s c"
  using fmcount_drop [of "\<lambda>k a. snd k = c \<and> reason a = r" "(aid, who)" "asset_accounts s"]
  by (cases "fmlookup (asset_accounts s) (aid, who)") (auto simp: refs_of_def)

lemma holdings_upd:
  "holdings (s\<lparr>asset_accounts := fmupd (aid, who) a (asset_accounts s)\<rparr>) i +
     (if i = aid then assets_balance s aid who else 0)
   = holdings s i + (if i = aid then asset_balance a else 0)"
  using fmsum_upd [of "\<lambda>k a. if fst k = i then asset_balance a else 0" "(aid, who)" a "asset_accounts s"]
  by (cases "fmlookup (asset_accounts s) (aid, who)") (auto simp: holdings_def assets_balance_def)

lemma holdings_drop:
  "holdings (s\<lparr>asset_accounts := fmdrop (aid, who) (asset_accounts s)\<rparr>) i +
     (if i = aid then assets_balance s aid who else 0) = holdings s i"
  using fmsum_drop [of "\<lambda>k a. if fst k = i then asset_balance a else 0" "(aid, who)" "asset_accounts s"]
  by (cases "fmlookup (asset_accounts s) (aid, who)") (auto simp: holdings_def assets_balance_def)

lemma asset_balance_le:
  "assets_wf s \<Longrightarrow> assets_balance s aid who \<le> asset_issuance s aid \<and> asset_issuance s aid \<le> u128_max"
proof -
  assume "assets_wf s"
  then have "holdings s aid \<le> asset_issuance s aid" "asset_issuance s aid \<le> u128_max"
    by (simp_all add: assets_wf_def)
  moreover have "assets_balance s aid who \<le> holdings s aid"
    using holdings_drop [where s = s and aid = aid and who = who and i = aid] by simp
  ultimately show ?thesis by linarith
qed

lemma refs_of_ge: "fmlookup (asset_accounts s) (aid, who) = Some a \<Longrightarrow> 0 < refs_of (reason a) s who"
  using fmsum_ge [of "asset_accounts s" "(aid, who)" a "\<lambda>k b. if snd k = who \<and> reason b = reason a then 1 else 0"]
  by (auto simp: refs_of_def fmcount_def)

lemma refs_of_cong: "asset_accounts s' = asset_accounts s \<Longrightarrow> refs_of r s' = refs_of r s"
  by (simp add: refs_of_def fun_eq_iff)

lemma asset_refs_cong: "asset_accounts s' = asset_accounts s \<Longrightarrow> asset_refs s' = asset_refs s"
  by (simp add: asset_refs_def refs_of_def fun_eq_iff)

lemma asset_refs_drop:
  assumes a: "fmlookup (asset_accounts s) (aid, who) = Some a"
    and s': "asset_accounts s' = fmdrop (aid, who) (asset_accounts s)"
  shows "asset_refs s' = (asset_refs s)(who :=
    (refs_of Consumer s who - of_bool (reason a = Consumer), refs_of Sufficient s who - of_bool (reason a = Sufficient)))"
proof (rule ext)
  fix c
  have "refs_of r s' c + (if c = who \<and> reason a = r then 1 else 0) = refs_of r s c" for r
    using refs_of_drop [where s = s and aid = aid and who = who and r = r and c = c] a s'
    by (simp add: refs_of_def)
  from this [of Consumer] this [of Sufficient]
  show "asset_refs s' c = ((asset_refs s)(who := (refs_of Consumer s who - of_bool (reason a = Consumer),
      refs_of Sufficient s who - of_bool (reason a = Sufficient)))) c"
    by (auto simp: asset_refs_def)
qed

lemma asset_refs_same:
  assumes a: "fmlookup (asset_accounts s) (aid, who) = Some a" "reason b = reason a"
    and s': "asset_accounts s' = fmupd (aid, who) b (asset_accounts s)"
  shows "asset_refs s' = asset_refs s"
proof (rule ext)
  fix c
  have "refs_of r s' c = refs_of r s c" for r
    using refs_of_upd [where s = s and aid = aid and who = who and a = b and r = r and c = c] a s'
    by (simp add: refs_of_def split: if_splits)
  then show "asset_refs s' c = asset_refs s c" by (simp add: asset_refs_def)
qed

lemma asset_refs_new:
  assumes a: "fmlookup (asset_accounts s) (aid, who) = None"
    and s': "asset_accounts s' = fmupd (aid, who) b (asset_accounts s)"
  shows "asset_refs s' = (asset_refs s)(who :=
    (refs_of Consumer s who + of_bool (reason b = Consumer), refs_of Sufficient s who + of_bool (reason b = Sufficient)))"
proof (rule ext)
  fix c
  have "refs_of r s' c = refs_of r s c + (if c = who \<and> reason b = r then 1 else 0)" for r
    using refs_of_upd [where s = s and aid = aid and who = who and a = b and r = r and c = c] a s'
    by (simp add: refs_of_def)
  then show "asset_refs s' c = ((asset_refs s)(who := (refs_of Consumer s who + of_bool (reason b = Consumer),
      refs_of Sufficient s who + of_bool (reason b = Sufficient)))) c"
    by (simp add: asset_refs_def)
qed

lemma holdings_cong: "asset_accounts s' = asset_accounts s \<Longrightarrow> holdings s' = holdings s"
  by (simp add: holdings_def fun_eq_iff)

section \<open>Effect of debits and credits\<close>

lemma can_decrease_ok:
  assumes "withdraw_into_result (can_decrease s aid who amount False) keep = Inr r" "amount \<noteq> 0"
  shows "amount \<le> assets_balance s aid who \<and>
    (keep \<longrightarrow> minimum_balance s aid \<le> assets_balance s aid who - amount)"
  using assms
  by (auto simp: can_decrease_def checked_sub_def assets_balance_def minimum_balance_def
      split: option.splits if_splits)

lemma prep_debit_ok:
  assumes wf: "assets_wf s" and run: "prep_debit s aid who v keep be = Inr actual"
    and v: "v \<noteq> 0" "v \<le> assets_balance s aid who"
    "keep \<longrightarrow> minimum_balance s aid \<le> assets_balance s aid who - v"
  shows "assets_balance s aid who - actual = asset_after_debit s aid who v \<and> v \<le> actual \<and>
    actual \<le> assets_balance s aid who"
proof -
  obtain d a where d: "fmlookup (asset_map s) aid = Some d" "fmlookup (asset_accounts s) (aid, who) = Some a"
    using run by (auto simp: prep_debit_def assets_reducible_balance_def dispatch_simps)
  have bal: "assets_balance s aid who = asset_balance a" "minimum_balance s aid = min_balance d"
    "asset_balance a \<le> total_supply d" "total_supply d \<le> u128_max"
    using d asset_balance_le [OF wf, of aid who]
    by (simp_all add: assets_balance_def minimum_balance_def asset_issuance_def)
  then have "min (min (if keep then asset_balance a - min_balance d else asset_balance a) (total_supply d)) v = v"
    using v by auto
  then have "actual = add128 v (if asset_balance a - v < min_balance d then asset_balance a - v else 0)"
    using run v bal d
    by (auto simp: prep_debit_def assets_reducible_balance_def dispatch_simps can_decrease_def Let_def
        checked_sub_def split: if_splits)
  then show ?thesis using bal v by (auto simp: asset_after_debit_def)
qed

lemma asset_refs_sel [simp]:
  "fst (asset_refs s who) = refs_of Consumer s who" "snd (asset_refs s who) = refs_of Sufficient s who"
  by (simp_all add: asset_refs_def)

lemma dead_account_inv:
  assumes inv: "bal_inv C (asset_refs s) s" and a: "fmlookup (asset_accounts s) (aid, who) = Some a"
    and dead: "dead_account who d (reason a) False s = (k, d', s')"
  shows "(k = Keep \<longrightarrow> s' = s) \<and>
    (k = Remove \<longrightarrow> bal_inv C ((asset_refs s)(who :=
       (refs_of Consumer s who - of_bool (reason a = Consumer), refs_of Sufficient s who - of_bool (reason a = Sufficient)))) s')"
proof -
  have pos: "reason a = Consumer \<Longrightarrow> 0 < fst (asset_refs s who)" "reason a = Sufficient \<Longrightarrow> 0 < snd (asset_refs s who)"
    using refs_of_ge [OF a] by simp_all
  show ?thesis
  proof (cases "reason a")
    case Consumer
    then show ?thesis using dead dec_consumers_inv [OF inv pos(1) refl]
      by (auto simp: dead_account_def Let_def)
  next
    case Sufficient
    then show ?thesis using dead dec_sufficients_inv [OF inv pos(2) refl]
      by (auto simp: dead_account_def Let_def)
  next
    case DepositRefunded
    then have "(asset_refs s)(who := (refs_of Consumer s who - of_bool (reason a = Consumer),
        refs_of Sufficient s who - of_bool (reason a = Sufficient))) = asset_refs s"
      by (simp add: asset_refs_def fun_eq_iff)
    with DepositRefunded show ?thesis using dead inv by (auto simp: dead_account_def Let_def)
  qed (use dead in \<open>auto simp: dead_account_def Let_def\<close>)
qed

lemma dead_account_frame:
  assumes inv: "bal_inv C (asset_refs s) s" and a: "fmlookup (asset_accounts s) (aid, who) = Some a"
    and dead: "dead_account who d (reason a) False s = (k, d', s')"
  shows "asset_accounts s' = asset_accounts s \<and> asset_map s' = asset_map s \<and> account_of s' = account_of s \<and>
    (\<forall>c. c \<noteq> who \<longrightarrow> info_of s' c = info_of s c) \<and>
    total_supply d' = total_supply d \<and> min_balance d' = min_balance d \<and> is_sufficient d' = is_sufficient d \<and>
    life d' = life d \<and> accounts_count d' \<le> accounts_count d \<and> sufficients_count d' \<le> sufficients_count d"
proof -
  have wf: "bal_wf C (asset_refs s) s" using inv by (simp add: bal_inv_def)
  have pos: "reason a = Sufficient \<Longrightarrow> 0 < snd (asset_refs s who)"
    using refs_of_ge [OF a] by simp_all
  have sf: "reason a = Sufficient \<Longrightarrow> account_of (dec_sufficients who s) = account_of s"
    using dec_sufficients_account [OF wf pos] by simp
  have cf: "account_of (dec_consumers who s) = account_of s"
    by (simp add: account_of_def fun_eq_iff dec_consumers_info)
  have "info_of (dec_sufficients who s) c = info_of s c" if "c \<noteq> who" for c
    using that by (simp add: dec_sufficients_def split: option.splits)
  then show ?thesis using dead sf cf
    by (cases "reason a") (auto simp: dead_account_def Let_def dec_consumers_info split: if_splits)
qed

text \<open>The three ways in which a debit ends: the account lives on, dies, or dies but is kept.\<close>

lemma assets_decrease_cases:
  assumes inv: "ledger_inv C s" and run: "assets_decrease_balance aid who v keep True s = Inr (actual, s')"
    and v: "v \<noteq> 0" "v \<le> assets_balance s aid who"
      "keep \<longrightarrow> minimum_balance s aid \<le> assets_balance s aid who - v"
  obtains d d' a k s1 where "fmlookup (asset_map s) aid = Some d" "life d = Live"
    "fmlookup (asset_accounts s) (aid, who) = Some a"
    "asset_balance a - actual = asset_after_debit s aid who v" "v \<le> actual" "actual \<le> asset_balance a"
    "(if asset_after_debit s aid who v < min_balance d then dead_account who d (reason a) False s
      else (Keep, d, s)) = (k, d', s1)"
    "accounts s' = accounts s1" "total_issuance s' = total_issuance s1"
    "\<And>i. fmlookup (asset_map s') i = (if i = aid then Some d' else fmlookup (asset_map s) i)"
    "asset_accounts s' = (case k of Remove \<Rightarrow> fmdrop (aid, who) (asset_accounts s)
      | Keep \<Rightarrow> fmupd (aid, who) (a\<lparr>asset_balance := asset_balance a - actual\<rparr>) (asset_accounts s))"
proof -
  have binv: "bal_inv C (asset_refs s) s" and wf: "assets_wf s" using inv by (simp_all add: ledger_inv_def)
  obtain d a actual' where d: "fmlookup (asset_map s) aid = Some d" "life d = Live"
    and a: "fmlookup (asset_accounts s) (aid, who) = Some a"
    and prep': "prep_debit s aid who v keep True = Inr actual'"
    using run v unfolding assets_decrease_balance_def by (simp add: dispatch_simps) blast
  obtain k0 d0 s0 where dd: "dead_account who d (reason a) False s = (k0, d0, s0)"
    by (metis prod_cases3)
  have actual': "actual' = actual"
    using run v d a prep' dd by (cases k0) (auto simp: assets_decrease_balance_def Let_def split: if_splits)
  note prep = prep' [unfolded actual']
  note P = prep_debit_ok [OF wf prep v]
  have ba: "assets_balance s aid who = asset_balance a" using a by (simp add: assets_balance_def)
  have eq: "asset_balance a - actual = asset_after_debit s aid who v" using P ba by simp
  obtain k d' s1 where dead: "(if asset_after_debit s aid who v < min_balance d
      then dead_account who d (reason a) False s else (Keep, d, s)) = (k, d', s1)"
    by (metis prod_cases3)
  have fr: "asset_accounts s1 = asset_accounts s \<and> asset_map s1 = asset_map s"
    using dead dead_account_frame [OF binv a] by (auto split: if_splits)
  have "accounts s' = accounts s1 \<and> total_issuance s' = total_issuance s1 \<and>
     (\<forall>i. fmlookup (asset_map s') i = (if i = aid then Some d' else fmlookup (asset_map s) i)) \<and>
     asset_accounts s' = (case k of Remove \<Rightarrow> fmdrop (aid, who) (asset_accounts s)
      | Keep \<Rightarrow> fmupd (aid, who) (a\<lparr>asset_balance := asset_balance a - actual\<rparr>) (asset_accounts s))"
  proof (cases "asset_after_debit s aid who v < min_balance d")
    case True
    then show ?thesis
      using run v d a prep dead fr by (cases k) (auto simp: assets_decrease_balance_def Let_def eq)
  next
    case False
    then show ?thesis
      using run v d a prep dead fr by (auto simp: assets_decrease_balance_def Let_def eq)
  qed
  note fin = this
  show ?thesis
    by (rule that [OF d a eq _ _ dead]) (use P ba fin in auto)
qed

lemma assets_decrease_ok:
  assumes inv: "ledger_inv C s" and run: "assets_decrease_balance aid who v keep True s = Inr (actual, s')"
    and v: "v \<noteq> 0" "v \<le> assets_balance s aid who"
      "keep \<longrightarrow> minimum_balance s aid \<le> assets_balance s aid who - v"
  shows "bal_inv C (asset_refs s') s'" (is ?inv)
    and "v \<le> actual \<and> assets_balance s' aid who = asset_after_debit s aid who v \<and>
      holdings s' aid + actual = holdings s aid \<and> contains_key (asset_accounts s) (aid, who) \<and> (\<forall>i. i \<noteq> aid \<longrightarrow> holdings s' i = holdings s i) \<and>
      (\<forall>k. k \<noteq> (aid, who) \<longrightarrow> fmlookup (asset_accounts s') k = fmlookup (asset_accounts s) k)" (is ?bal)
    and "account_of s' = account_of s \<and> (\<forall>c. c \<noteq> who \<longrightarrow> info_of s' c = info_of s c) \<and>
      (\<forall>i. i \<noteq> aid \<longrightarrow> fmlookup (asset_map s') i = fmlookup (asset_map s) i) \<and>
      (\<exists>d d'. fmlookup (asset_map s) aid = Some d \<and> fmlookup (asset_map s') aid = Some d' \<and> life d = Live \<and>
        total_supply d' = total_supply d \<and> min_balance d' = min_balance d \<and> is_sufficient d' = is_sufficient d \<and>
        life d' = life d \<and> accounts_count d' \<le> accounts_count d \<and> sufficients_count d' \<le> sufficients_count d)" (is ?frame)
proof -
  have binv: "bal_inv C (asset_refs s) s" using inv by (simp_all add: ledger_inv_def)
  obtain d d' a k s1 where d: "fmlookup (asset_map s) aid = Some d" "life d = Live"
    and a: "fmlookup (asset_accounts s) (aid, who) = Some a"
    and actual: "asset_balance a - actual = asset_after_debit s aid who v" "v \<le> actual" "actual \<le> asset_balance a"
    and dead: "(if asset_after_debit s aid who v < min_balance d then dead_account who d (reason a) False s
      else (Keep, d, s)) = (k, d', s1)"
    and s': "accounts s' = accounts s1" "total_issuance s' = total_issuance s1"
    and map': "\<And>i. fmlookup (asset_map s') i = (if i = aid then Some d' else fmlookup (asset_map s) i)"
    and acc': "asset_accounts s' = (case k of Remove \<Rightarrow> fmdrop (aid, who) (asset_accounts s)
      | Keep \<Rightarrow> fmupd (aid, who) (a\<lparr>asset_balance := asset_balance a - actual\<rparr>) (asset_accounts s))"
    by (rule assets_decrease_cases [OF inv run v]) blast
  have info': "info_of s' = info_of s1" using s' by (simp add: info_of_def fun_eq_iff)
  show ?frame
    using dead dead_account_frame [OF binv a] d map' s'
    by (auto simp: account_of_def fun_eq_iff info' split: if_splits)
  show ?inv
  proof (cases k)
    case Keep
    then have "s1 = s" using dead dead_account_inv [OF binv a] by (auto split: if_splits)
    moreover have "asset_refs s' = asset_refs s" using Keep acc' by (intro asset_refs_same [OF a]) simp_all
    ultimately show ?thesis using binv s' by (simp add: bal_inv_more [of s' s])
  next
    case Remove
    then have "bal_inv C (asset_refs s') s1"
      using dead dead_account_inv [OF binv a] asset_refs_drop [OF a, of s'] acc' by (auto split: if_splits)
    then show ?thesis using s' by (simp add: bal_inv_more [of s' s1])
  qed
  have rem: "k = Remove \<Longrightarrow> asset_after_debit s aid who v = 0"
    using dead d by (auto simp: asset_after_debit_def minimum_balance_def split: if_splits)
  have H: "holdings s' i + (if i = aid then actual else 0) = holdings s i" for i
  proof (cases k)
    case Keep
    have "holdings s' i = holdings (s\<lparr>asset_accounts := fmupd (aid, who) (a\<lparr>asset_balance := asset_balance a - actual\<rparr>) (asset_accounts s)\<rparr>) i"
      using Keep acc' by (simp add: holdings_def)
    then show ?thesis
      using holdings_upd [where s = s and aid = aid and who = who and i = i and a = "a\<lparr>asset_balance := asset_balance a - actual\<rparr>"]
        a actual by (auto simp: assets_balance_def)
  next
    case Remove
    have "holdings s' i = holdings (s\<lparr>asset_accounts := fmdrop (aid, who) (asset_accounts s)\<rparr>) i"
      using Remove acc' by (simp add: holdings_def)
    then show ?thesis
      using holdings_drop [where s = s and aid = aid and who = who and i = i] rem [OF Remove] a actual
      by (auto simp: assets_balance_def)
  qed
  have "holdings s' i = holdings s i" if "i \<noteq> aid" for i using H [of i] that by simp
  then show ?bal
    using H [of aid] acc' actual rem a by (cases k) (auto simp: assets_balance_def contains_key_def split: if_splits)
qed

lemma assets_increase_ok:
  assumes inv: "bal_inv C (asset_refs s) s" and C: "bal_config_ok C"
    and room: "snd (asset_refs s who) < u32_max" and v: "v \<noteq> 0"
    and d: "fmlookup (asset_map s) aid = Some d"
    and run: "assets_increase_balance C aid who v s = Inr s'"
  obtains d' where "bal_inv C (asset_refs s') s'" "account_of s' = account_of s"
    "assets_balance s' aid who = assets_balance s aid who + v"
    "\<And>k. k \<noteq> (aid, who) \<Longrightarrow> fmlookup (asset_accounts s') k = fmlookup (asset_accounts s) k"
    "\<And>i. holdings s' i = holdings s i + (if i = aid then v else 0)"
    "\<And>i. fmlookup (asset_map s') i = (if i = aid then Some d' else fmlookup (asset_map s) i)"
    "total_supply d' = total_supply d" "min_balance d' = min_balance d"
proof -
  have ok: "can_increase C s aid who v True = DcSuccess" "life d = Live"
    using run v d by (auto simp: assets_increase_balance_def dispatch_simps)
  show thesis
  proof (cases "fmlookup (asset_accounts s) (aid, who)")
  case (Some a)
  let ?a = "a\<lparr>asset_balance := asset_balance a + v\<rparr>"
  let ?s = "s\<lparr>asset_accounts := fmupd (aid, who) ?a (asset_accounts s)\<rparr>"
  have le: "asset_balance a + v \<le> u128_max"
    using ok d Some by (auto simp: can_increase_def checked_add_def split: if_splits)
  then have s': "s' = ?s"
    using run ok d v Some by (simp add: assets_increase_balance_def)
  have "asset_refs ?s = asset_refs s" by (rule asset_refs_same [OF Some, of ?a]) simp_all
  then have "bal_inv C (asset_refs ?s) ?s" using inv by (simp add: bal_inv_more [of ?s s])
  moreover have "holdings ?s i = holdings s i + (if i = aid then v else 0)" for i
    using holdings_upd [where s = s and aid = aid and who = who and i = i and a = ?a] Some
    by (auto simp: assets_balance_def)
  ultimately show thesis
    using Some d by (intro that [of d]) (auto simp: s' assets_balance_def account_of_def info_of_def fun_eq_iff)
next
  case None
  obtain r d' s1 where new: "new_account C who d s = Inr (r, d', s1)"
    and s': "s' = s1\<lparr>asset_map := fmupd aid d' (asset_map s1),
      asset_accounts := fmupd (aid, who) \<lparr>asset_balance = v, account_state = Liquid, reason = r\<rparr> (asset_accounts s1)\<rparr>"
    using run ok d v None by (auto simp: assets_increase_balance_def dispatch_simps)
  have r: "r = (if is_sufficient d then Sufficient else Consumer)"
    and d': "total_supply d' = total_supply d" "min_balance d' = min_balance d"
    and s1: "if is_sufficient d then s1 = inc_sufficients who s else inc_consumers C who s = Inr s1"
    using new by (auto simp: new_account_def dispatch_simps split: if_splits)
  have fr: "asset_accounts s1 = asset_accounts s \<and> asset_map s1 = asset_map s"
    using s1 inc_consumers_asset_frame by (auto split: if_splits)
  let ?b = "\<lparr>asset_balance = v, account_state = Liquid, reason = r\<rparr>"
  define s2 where "s2 = s1\<lparr>asset_map := fmupd aid d' (asset_map s1),
    asset_accounts := fmupd (aid, who) ?b (asset_accounts s1)\<rparr>"
  have s2: "accounts s2 = accounts s1" "total_issuance s2 = total_issuance s1"
    "asset_accounts s2 = fmupd (aid, who) ?b (asset_accounts s)" "asset_map s2 = fmupd aid d' (asset_map s)"
    using fr by (simp_all add: s2_def)
  have s2': "s' = s2" by (simp add: s' s2_def)
  have "bal_inv C ((asset_refs s)(who := (refs_of Consumer s who + of_bool (r = Consumer),
      refs_of Sufficient s who + of_bool (r = Sufficient)))) s1"
  proof (cases "is_sufficient d")
    case True
    then show ?thesis
      using s1 r inc_sufficients_inv [OF inv room _ refl] C by (simp add: bal_config_ok_def)
  next
    case False
    then show ?thesis
      using s1 r inc_consumers_inv [OF inv _ _ refl, of who s1] C by (simp add: bal_config_ok_def)
  qed
  then have inv2: "bal_inv C (asset_refs s2) s2"
    using asset_refs_new [OF None s2(3)] by (simp add: bal_inv_more [OF s2(1,2)])
  have hold: "holdings s2 i = holdings s i + (if i = aid then v else 0)" for i
  proof -
    have "holdings s2 i = holdings (s\<lparr>asset_accounts := fmupd (aid, who) ?b (asset_accounts s)\<rparr>) i"
      by (simp add: holdings_def s2(3))
    then show ?thesis
      using holdings_upd [where s = s and aid = aid and who = who and i = i and a = ?b] None
      by (cases "i = aid") (auto simp: assets_balance_def)
  qed
  have "account_of s1 c = account_of s c" for c
  proof (cases "is_sufficient d")
    case True
    then show ?thesis using s1 by (simp add: account_of_def inc_sufficients_def Let_def)
  next
    case False
    then have "s1 = set_info who ((info_of s who)\<lparr>consumers := Suc (consumers (info_of s who))\<rparr>) s"
      using s1 C inc_consumers_Inr [of C who s s1] by (simp add: bal_config_ok_def)
    then show ?thesis by (simp add: account_of_def)
  qed
  then have acc: "account_of s2 = account_of s"
    by (simp add: account_of_def info_of_def fun_eq_iff s2)
  show thesis
    by (rule that [of d']) (use inv2 acc None d d' hold in \<open>auto simp: assets_balance_def s2' s2\<close>)
  qed
qed

lemma assets_increase_succeeds:
  assumes C: "bal_config_ok C" and ok: "can_increase C s aid who v True = DcSuccess" and v: "v \<noteq> 0"
    and d: "fmlookup (asset_map s) aid = Some d" "life d = Live" "accounts_count d < u32_max"
  shows "\<exists>s'. assets_increase_balance C aid who v s = Inr s'"
proof (cases "fmlookup (asset_accounts s) (aid, who)")
  case (Some a)
  then show ?thesis using ok v d by (simp add: assets_increase_balance_def)
next
  case None
  have mb: "min_balance d \<le> v" "\<not> is_sufficient d \<longrightarrow> can_accrue_consumers C s who 2"
    using ok d None by (auto simp: can_increase_def checked_add_def split: if_splits)
  have cnt: "checked_add u32_max (accounts_count d) (Suc 0) = Some (Suc (accounts_count d))" using d(3) by simp
  have "\<exists>r. new_account C who d s = Inr r"
  proof (cases "is_sufficient d")
    case False
    then obtain s1 where "inc_consumers C who s = Inr s1" "can_inc_consumer C s1 who"
      using mb C
      by (auto simp: can_accrue_consumers_def can_inc_consumer_def inc_consumers_def Let_def checked_add_def
          bal_config_ok_def split: if_splits)
    then show ?thesis using False by (simp add: new_account_def cnt)
  qed (simp add: new_account_def cnt)
  then show ?thesis using ok v d None mb by (auto simp: assets_increase_balance_def)
qed

lemma assets_balance_lookup:
  "fmlookup (asset_accounts s') (i, c) = fmlookup (asset_accounts s) (i, c) \<Longrightarrow> assets_balance s' i c = assets_balance s i c"
  by (simp add: assets_balance_def)

lemma asset_event_simps [simp]:
  "assets_balance (asset_event e s) aid = assets_balance s aid"
  "minimum_balance (asset_event e s) = minimum_balance s"
  "account_of (asset_event e s) = account_of s"
  "info_of (asset_event e s) = info_of s"
  "ledger_inv C (asset_event e s) = ledger_inv C s"
proof -
  have "asset_refs (asset_event e s) = asset_refs s" by (rule asset_refs_cong) (simp add: asset_event_def)
  moreover have "holdings (asset_event e s) = holdings s" by (rule holdings_cong) (simp add: asset_event_def)
  ultimately show "ledger_inv C (asset_event e s) = ledger_inv C s"
    by (simp add: ledger_inv_def bal_inv_more [of "asset_event e s" s] assets_wf_def asset_issuance_def)
       (simp add: asset_event_def bal_inv_def bal_wf_def issued_def)
qed (rule ext, simp add: asset_event_def assets_balance_def minimum_balance_def account_of_def info_of_def)+

lemma refs_lt:
  assumes "assets_wf s"
  shows "refs_of r s who < u32_max"
proof -
  let ?A = "fmdom' (asset_accounts s) \<inter> {k. snd k = who \<and> reason (the (fmlookup (asset_accounts s) k)) = r}"
  have "refs_of r s who = card ?A"
    unfolding refs_of_def fmcount_def fmsum_def by (simp add: sum.If_cases)
  also have "\<dots> \<le> card (fmdom' (asset_map s))"
  proof (rule card_inj_on_le [where f = fst])
    show "inj_on fst ?A" by (rule inj_onI) (simp add: prod_eq_iff)
    show "fst ` ?A \<subseteq> fmdom' (asset_map s)"
    proof
      fix i assume "i \<in> fst ` ?A"
      then have "contains_key (asset_accounts s) (i, who)" by (auto simp: contains_key_def fmlookup_dom'_iff)
      then have "contains_key (asset_map s) i" using assms unfolding assets_wf_def by blast
      then show "i \<in> fmdom' (asset_map s)" by (simp add: contains_key_def fmlookup_dom'_iff)
    qed
  qed simp
  also have "\<dots> < u32_max" using assms by (simp add: assets_wf_def fmdom'_alt_def fcard.rep_eq)
  finally show ?thesis .
qed

lemma assets_wf_step:
  assumes wf: "assets_wf s" and "\<And>i. holdings s' i \<le> asset_issuance s' i"
    and "\<And>i. asset_issuance s' i \<le> asset_issuance s i"
    and key: "\<And>i. contains_key (asset_map s') i \<longleftrightarrow> contains_key (asset_map s) i"
    and "\<And>i c. contains_key (asset_accounts s') (i, c) \<Longrightarrow> contains_key (asset_accounts s) (i, c) \<or> contains_key (asset_map s) i"
  shows "assets_wf s'"
proof -
  have "fmdom (asset_map s') = fmdom (asset_map s)"
    using key by (auto simp: contains_key_def fmlookup_dom_iff)
  moreover have "asset_issuance s' i \<le> u128_max" for i
    using assms(3) [of i] wf unfolding assets_wf_def by (meson le_trans)
  moreover have "contains_key (asset_map s) i" if "contains_key (asset_accounts s') (i, c)" for i c
    using assms(5) [OF that] wf unfolding assets_wf_def by blast
  ultimately show ?thesis using wf assms(2) key by (simp add: assets_wf_def)
qed

text \<open>
  The credit of a transfer, as the state after an attempt that may fail: the amount arrives, or
  there was no room for it.
\<close>

lemma assets_credit_ok:
  assumes wf: "assets_wf s" and binv: "bal_inv C (asset_refs s) s" and C: "bal_config_ok C" and v: "v \<noteq> 0"
    and d: "fmlookup (asset_map s) aid = Some d" "life d = Live"
    and s': "s' = (case assets_increase_balance C aid b v s of Inl _ \<Rightarrow> s | Inr s2 \<Rightarrow> s2)"
  shows "bal_inv C (asset_refs s') s' \<and> account_of s' = account_of s \<and>
    (assets_balance s' aid b = assets_balance s aid b + v \<or>
     (can_increase C s aid b v True \<noteq> DcSuccess \<or> u32_max \<le> accounts_count d) \<and>
     assets_balance s' aid b = assets_balance s aid b) \<and>
    (\<forall>k. k \<noteq> (aid, b) \<longrightarrow> fmlookup (asset_accounts s') k = fmlookup (asset_accounts s) k) \<and>
    (\<forall>i. holdings s' i \<le> holdings s i + (if i = aid then v else 0)) \<and>
    (\<forall>i. asset_issuance s' i = asset_issuance s i \<and> minimum_balance s' i = minimum_balance s i \<and>
         (contains_key (asset_map s') i \<longleftrightarrow> contains_key (asset_map s) i))"
proof (cases "assets_increase_balance C aid b v s")
  case (Inl e)
  then have "can_increase C s aid b v True \<noteq> DcSuccess \<or> u32_max \<le> accounts_count d"
    using assets_increase_succeeds [OF C _ v d, of b] by fastforce
  with Inl s' binv show ?thesis by simp
next
  case (Inr s2)
  have "snd (asset_refs s b) < u32_max" using refs_lt [OF wf] by simp
  then obtain d' where "bal_inv C (asset_refs s2) s2"
      "account_of s2 = account_of s" "assets_balance s2 aid b = assets_balance s aid b + v"
      "\<And>k. k \<noteq> (aid, b) \<Longrightarrow> fmlookup (asset_accounts s2) k = fmlookup (asset_accounts s) k"
      "\<And>i. holdings s2 i = holdings s i + (if i = aid then v else 0)"
      "\<And>i. fmlookup (asset_map s2) i = (if i = aid then Some d' else fmlookup (asset_map s) i)"
      "total_supply d' = total_supply d" "min_balance d' = min_balance d"
    by (rule assets_increase_ok [OF binv C _ v d(1) Inr]) blast
  with Inr s' d show ?thesis by (auto simp: asset_issuance_def minimum_balance_def contains_key_def)
qed

lemma assets_debit_wf:
  assumes inv: "ledger_inv C s" and run: "assets_decrease_balance aid who v keep True s = Inr (actual, s')"
    and v: "v \<noteq> 0" "v \<le> assets_balance s aid who"
      "keep \<longrightarrow> minimum_balance s aid \<le> assets_balance s aid who - v"
  shows "assets_wf s'" "asset_issuance s' i = asset_issuance s i" "minimum_balance s' i = minimum_balance s i"
    "contains_key (asset_map s') i \<longleftrightarrow> contains_key (asset_map s) i"
proof -
  note D = assets_decrease_ok [OF inv run v]
  show 1: "asset_issuance s' i = asset_issuance s i" for i
    using D(3) by (cases "i = aid") (auto simp: asset_issuance_def)
  show "minimum_balance s' i = minimum_balance s i" using D(3) by (cases "i = aid") (auto simp: minimum_balance_def)
  show 2: "contains_key (asset_map s') i \<longleftrightarrow> contains_key (asset_map s) i" for i
    using D(3) by (cases "i = aid") (auto simp: contains_key_def)
  have "holdings s' i \<le> holdings s i" for i using D(2) by (cases "i = aid") auto
  moreover have wf: "assets_wf s" using inv by (simp add: ledger_inv_def)
  ultimately have 3: "holdings s' i \<le> asset_issuance s' i" for i
    using 1 [of i] le_trans by (metis assets_wf_def)
  have "contains_key (asset_accounts s) (i, c)" if "contains_key (asset_accounts s') (i, c)" for i c
    using that D(2) by (cases "(i, c) = (aid, who)") (auto simp: contains_key_def)
  then show "assets_wf s'" by (intro assets_wf_step [OF wf 3]) (simp_all add: 1 2)
qed

lemma assets_transfer_ok:
  assumes inv: "ledger_inv C s" and C: "bal_config_ok C"
    and ne: "a \<noteq> b" "v \<noteq> 0" and run: "assets_transfer C aid a b v pres s = Inr s'"
  shows "ledger_inv C s' \<and> v \<le> assets_balance s aid a \<and>
    assets_balance s' aid a = asset_after_debit s aid a v \<and>
    (assets_balance s' aid b = assets_balance s aid b + v \<or>
     \<not> asset_room s aid \<and> assets_balance s' aid b = assets_balance s aid b) \<and>
    (pres \<noteq> Expendable \<longrightarrow> minimum_balance s aid \<le> assets_balance s aid a - v) \<and>
    (\<forall>i c. (i, c) \<noteq> (aid, a) \<longrightarrow> (i, c) \<noteq> (aid, b) \<longrightarrow> assets_balance s' i c = assets_balance s i c) \<and>
    account_of s' = account_of s \<and> (\<forall>i. minimum_balance s' i = minimum_balance s i)"
proof -
  obtain w actual s1 where cw: "withdraw_into_result (can_decrease s aid a v False) (pres \<noteq> Expendable) = Inr w"
    and cd: "can_increase C s aid b v False = DcSuccess"
    and dec: "assets_decrease_balance aid a v (pres \<noteq> Expendable) True s = Inr (actual, s1)"
    and s': "s' = asset_event (AssetTransferred aid a b v)
      (case assets_increase_balance C aid b v s1 of Inl _ \<Rightarrow> s1 | Inr s2 \<Rightarrow> s2)"
    using run ne
    by (auto simp: assets_transfer_def dispatch_simps split: prod.splits if_splits)
  note W = can_decrease_ok [OF cw ne(2)]
  note D = assets_decrease_ok [OF inv dec ne(2) conjunct1 [OF W] conjunct2 [OF W]]
  note E = assets_debit_wf [OF inv dec ne(2) conjunct1 [OF W] conjunct2 [OF W]]
  obtain d d' where d: "fmlookup (asset_map s) aid = Some d" "fmlookup (asset_map s1) aid = Some d'" "life d' = Live"
    "total_supply d' = total_supply d" "min_balance d' = min_balance d" "is_sufficient d' = is_sufficient d"
    "accounts_count d' \<le> accounts_count d" "sufficients_count d' \<le> sufficients_count d"
    using D(3) by auto
  have lb: "fmlookup (asset_accounts s1) (aid, b) = fmlookup (asset_accounts s) (aid, b)" "info_of s1 b = info_of s b"
    using D ne by auto
  define s2 where "s2 = (case assets_increase_balance C aid b v s1 of Inl _ \<Rightarrow> s1 | Inr s2 \<Rightarrow> s2)"
  note I = assets_credit_ok [OF E(1) D(1) C ne(2) d(2,3) s2_def]
  have eq: "s' = asset_event (AssetTransferred aid a b v) s2" using s' by (simp add: s2_def)
  have room: "\<not> asset_room s aid"
    if "can_increase C s1 aid b v True \<noteq> DcSuccess \<or> u32_max \<le> accounts_count d'"
  proof
    assume r: "asset_room s aid"
    have "assets_wf s" using inv by (simp add: ledger_inv_def)
    then have sup: "v \<le> total_supply d" "2 * total_supply d \<le> u128_max" "accounts_count d < u32_max"
      using asset_balance_le [of s aid a] W d r by (auto simp: asset_issuance_def asset_room_def)
    have "can_increase C s1 aid b v True = DcSuccess"
      using cd d sup lb by (auto simp: can_increase_def can_accrue_consumers_def checked_add_def split: if_splits option.splits)
    with that d(7) sup(3) show False by simp
  qed
  have "assets_wf s2"
  proof (rule assets_wf_step [OF E(1)])
    show "holdings s2 i \<le> asset_issuance s2 i" for i
    proof -
      have "holdings s2 i \<le> holdings s i" using I D(2) by (cases "i = aid") (auto dest: spec [of _ i])
      also have "\<dots> \<le> asset_issuance s i" using inv by (simp add: ledger_inv_def assets_wf_def)
      finally show ?thesis using I E(2) by simp
    qed
    show "contains_key (asset_accounts s1) (i, c) \<or> contains_key (asset_map s1) i"
      if "contains_key (asset_accounts s2) (i, c)" for i c
      using that I d(2) by (cases "(i, c) = (aid, b)") (auto simp: contains_key_def)
  qed (use I in simp_all)
  then have "ledger_inv C s'" using I by (simp add: ledger_inv_def [of C s2] eq)
  moreover have "assets_balance s' aid a = asset_after_debit s aid a v"
    using D(2) I ne assets_balance_lookup [of s2 aid a s1] by (simp add: eq)
  moreover have "assets_balance s' aid b = assets_balance s aid b + v \<or>
     \<not> asset_room s aid \<and> assets_balance s' aid b = assets_balance s aid b"
    using I room assets_balance_lookup [OF lb(1)] by (auto simp: eq)
  moreover have "assets_balance s' i c = assets_balance s i c" if "(i, c) \<noteq> (aid, a)" "(i, c) \<noteq> (aid, b)" for i c
    using that D(2) I assets_balance_lookup [of s2 i c s] by (simp add: eq)
  ultimately show ?thesis using W D(3) I E(3) by (simp add: eq)
qed

lemma assets_burn_ok:
  assumes inv: "ledger_inv C s" and v: "v \<noteq> 0"
    and run: "assets_burn_from aid who v Expendable Exact s = Inr s'"
  shows "ledger_inv C s' \<and> v \<le> assets_balance s aid who \<and>
    assets_balance s' aid who = asset_after_debit s aid who v \<and>
    (\<forall>i c. (i, c) \<noteq> (aid, who) \<longrightarrow> assets_balance s' i c = assets_balance s i c) \<and>
    account_of s' = account_of s \<and> (\<forall>i. minimum_balance s' i = minimum_balance s i)"
proof -
  have wf: "assets_wf s" using inv by (simp add: ledger_inv_def)
  obtain burned s1 where red: "v \<le> (case assets_reducible_balance s aid who False of Inl _ \<Rightarrow> 0 | Inr r \<Rightarrow> r)"
    and dec: "assets_decrease_balance aid who v False True s = Inr (burned, s1)"
    and s': "s' = asset_event (AssetBurned aid who burned)
      (case fmlookup (asset_map s1) aid of
         None \<Rightarrow> s1
       | Some d \<Rightarrow> s1\<lparr>asset_map := fmupd aid (d\<lparr>total_supply := asset_issuance s1 aid - burned\<rparr>) (asset_map s1)\<rparr>)"
    using run by (auto simp: assets_burn_from_def dispatch_simps Let_def min_def split: if_splits)
  have le: "v \<le> assets_balance s aid who"
    using red v by (auto simp: assets_reducible_balance_def assets_balance_def ok_or_def ensure_def
        split: option.splits if_splits sum.splits)
  note D = assets_decrease_ok [OF inv dec v le, simplified]
  note E = assets_debit_wf [OF inv dec v le, simplified]
  obtain d d' where d: "fmlookup (asset_map s) aid = Some d" "fmlookup (asset_map s1) aid = Some d'"
    "total_supply d' = total_supply d" "min_balance d' = min_balance d"
    using D(3) by auto
  define s2 where "s2 = s1\<lparr>asset_map := fmupd aid (d'\<lparr>total_supply := asset_issuance s1 aid - burned\<rparr>) (asset_map s1)\<rparr>"
  have eq: "s' = asset_event (AssetBurned aid who burned) s2" by (simp add: s' d s2_def)
  have "asset_refs s2 = asset_refs s1" by (rule asset_refs_cong) (simp add: s2_def)
  moreover have "bal_inv C (asset_refs s1) s2 = bal_inv C (asset_refs s1) s1"
    by (rule bal_inv_more) (simp_all add: s2_def)
  moreover have "assets_wf s2"
  proof (rule assets_wf_step [OF E(1)])
    show "holdings s2 i \<le> asset_issuance s2 i" for i
    proof -
      have h: "holdings s2 i = holdings s1 i" by (simp add: holdings_def s2_def)
      have "holdings s i \<le> asset_issuance s i" using wf by (simp add: assets_wf_def)
      then show ?thesis
        using D(2,3) d unfolding h by (cases "i = aid") (auto simp: s2_def asset_issuance_def)
    qed
  qed (use d in \<open>auto simp: s2_def asset_issuance_def contains_key_def\<close>)
  ultimately have "ledger_inv C s'" using D(1) by (simp add: eq ledger_inv_def [of C s2])
  moreover have "assets_balance s2 = assets_balance s1" "account_of s2 = account_of s1"
    by (simp_all add: s2_def assets_balance_def account_of_def info_of_def fun_eq_iff)
  moreover have "minimum_balance s2 i = minimum_balance s i" for i
    using D(3) d by (auto simp: s2_def minimum_balance_def)
  moreover have "assets_balance s1 i c = assets_balance s i c" if "(i, c) \<noteq> (aid, who)" for i c
    using that D(2) by (intro assets_balance_lookup) simp
  ultimately show ?thesis using le D(2,3) by (simp add: eq)
qed

section \<open>Native operations do not touch the asset store\<close>

lemma more_basic [simp]:
  "ext (set_info who i s) = ext s"
  "ext (ledger_event e s) = ext s"
  "ext (inc_providers who s) = ext s"
  "ext (dec_consumers who s) = ext s"
  "ext (store_data who d s) = ext s"
  "ext (handle_dust v s) = ext s"
  "ext (handle_raw_dust C v s) = ext s"
  "ext (drop_negative_imbalance v s) = ext s"
  by (simp_all add: set_info_def ledger_event_def inc_providers_def dec_consumers_def store_data_def
      handle_dust_def handle_raw_dust_def drop_negative_imbalance_def Let_def)

lemma more_refs:
  "inc_consumers C who s = Inr s' \<Longrightarrow> ext s' = ext s"
  "inc_consumers_without_limit who s = Inr s' \<Longrightarrow> ext s' = ext s"
  "dec_providers who s = Inr s' \<Longrightarrow> ext s' = ext s"
  by (auto simp: inc_consumers_def inc_consumers_without_limit_def dec_providers_def Let_def
      split: if_splits option.splits)

lemma more_ensure_upgraded [simp]: "ext (ensure_upgraded C who s) = ext s"
  by (auto simp: ensure_upgraded_def Let_def split: sum.splits dest!: more_refs)

lemma more_adjust_refs: "adjust_refs C who dp dp' dc dc' s = (r, s') \<Longrightarrow> ext s' = ext s"
  by (auto simp: adjust_refs_def Let_def split: sum.splits if_splits dest!: more_refs)

lemma more_try_mutate_account:
  assumes "\<And>a n t r t'. f a n t = (r, t') \<Longrightarrow> ext t' = ext t" "try_mutate_account C who f s = (r, s')"
  shows "ext s' = ext s"
  using assms(2)
  by (auto simp: try_mutate_account_def Let_def split: prod.splits sum.splits option.splits if_splits
      dest!: assms(1) more_adjust_refs)

lemma more_write_balance: "write_balance C who amount s = (r, s') \<Longrightarrow> ext s' = ext s"
  by (auto simp: write_balance_def Let_def split: prod.splits sum.splits if_splits
      dest!: more_try_mutate_account [rotated])

lemma more_handling_dust:
  assumes "\<And>a n t r t'. f a n t = (r, t') \<Longrightarrow> ext t' = ext t" "try_mutate_account_handling_dust C who f s = (r, s')"
  shows "ext s' = ext s"
  using assms(2) more_try_mutate_account [OF assms(1)]
  by (fastforce simp: try_mutate_account_handling_dust_def split: prod.splits sum.splits option.splits)

lemma more_decrease_balance: "decrease_balance C who amount prec pres force s = (r, s') \<Longrightarrow> ext s' = ext s"
  by (auto simp: decrease_balance_def Let_def split: prod.splits sum.splits option.splits if_splits
      dest: more_write_balance)

lemma more_increase_balance [simp]: "ext (snd (increase_balance C who amount prec s)) = ext s"
  by (auto simp: increase_balance_def Let_def split: prod.splits sum.splits option.splits if_splits
      dest: more_write_balance)

lemma more_transfer: "transfer C a b v er s = Inr s' \<Longrightarrow> ext s' = ext s"
  by (auto simp: transfer_def fungible_transfer_def dispatch_simps split: if_splits prod.splits sum.splits
      dest: more_decrease_balance)

lemma more_withdraw: "withdraw C who v er s = Inr (imb, s') \<Longrightarrow> ext s' = ext s"
  by (auto simp: withdraw_def Let_def split: if_splits prod.splits sum.splits option.splits
      dest!: more_handling_dust [rotated])

lemma asset_frame:
  assumes "ext s' = ext s"
  shows "asset_accounts s' = asset_accounts s" "asset_map s' = asset_map s"
  using assms by (cases s, cases s', simp)+

lemma more_reserve: "reserve C who v s = Inr s' \<Longrightarrow> ext s' = ext s"
  by (auto simp: reserve_def split: if_splits prod.splits sum.splits option.splits
      dest!: more_handling_dust [rotated])

lemma more_unreserve: "unreserve C who v s = (r, s') \<Longrightarrow> ext s' = ext s"
  by (auto simp: unreserve_def Let_def split: if_splits prod.splits sum.splits option.splits
      dest!: more_handling_dust [rotated])

section \<open>The ledger meets the payment contract\<close>

lemma ledger_inv_native:
  assumes "ext s' = ext s"
  shows "ledger_inv C s' = (bal_inv C (asset_refs s) s' \<and> assets_wf s)"
    "assets_balance s' = assets_balance s" "minimum_balance s' = minimum_balance s"
proof -
  note fr = asset_frame [OF assms]
  show "assets_balance s' = assets_balance s" "minimum_balance s' = minimum_balance s"
    by (simp_all add: fun_eq_iff assets_balance_def minimum_balance_def fr)
  have "assets_wf s' = assets_wf s" by (simp add: assets_wf_def holdings_def asset_issuance_def fr)
  then show "ledger_inv C s' = (bal_inv C (asset_refs s) s' \<and> assets_wf s)"
    by (simp add: ledger_inv_def asset_refs_cong [OF fr(1)])
qed

lemma ledger_currencies_sel [simp]:
  "native_minimum (ledger_currencies C) = existential_deposit C"
  "native_free (ledger_currencies C) = free_balance"
  "native_reserved (ledger_currencies C) = reserved_balance"
  "native_transfer (ledger_currencies C) = transfer C"
  "native_withdraw (ledger_currencies C) = withdraw C"
  "native_drop_imbalance (ledger_currencies C) = drop_negative_imbalance"
  "native_reserve (ledger_currencies C) = reserve C"
  "native_unreserve (ledger_currencies C) = unreserve C"
  "fungibles_balance (ledger_currencies C) = assets_balance"
  "fungibles_transfer (ledger_currencies C) = assets_transfer C"
  "fungibles_burn (ledger_currencies C) = assets_burn_from"
  by (simp_all add: ledger_currencies_def)

lemma ledger_transfer:
  assumes inv: "ledger_inv C l" and C: "bal_config_ok C" and run: "transfer C a b v er l = Inr l'"
  shows "ledger_inv C l' \<and>
    (a \<noteq> b \<and> v \<noteq> 0 \<longrightarrow> v \<le> free_balance l a \<and> free_balance l' b = free_balance l b + v \<and>
       (free_balance l' a = free_balance l a - v \<or>
        er = AllowDeath \<and> free_balance l a - v < existential_deposit C \<and> free_balance l' a = 0) \<and>
       (er = KeepAlive \<longrightarrow> existential_deposit C \<le> free_balance l' a)) \<and>
    (\<forall>c. c \<noteq> a \<longrightarrow> c \<noteq> b \<longrightarrow> free_balance l' c = free_balance l c) \<and>
    (\<forall>c. reserved_balance l' c = reserved_balance l c)"
proof (cases "v = 0 \<or> a = b")
  case True
  then show ?thesis using run inv by (auto simp: transfer_def)
next
  case False
  have "bal_inv C (asset_refs l) l" "assets_wf l" using inv by (simp_all add: ledger_inv_def)
  note T = transfer_ok [OF this(1) C _ _ run]
  have "ledger_inv C l'"
    unfolding ledger_inv_native(1) [OF more_transfer [OF run]] using T False \<open>assets_wf l\<close> by simp
  moreover have "reserved_balance l' c = reserved_balance l c" for c
    using T False by (cases "c = a"; cases "c = b") (simp_all add: reserved_balance_def)
  ultimately show ?thesis using T False
    by (cases er) (auto simp: free_balance_def after_debit_def)
qed

lemma ledger_withdraw:
  assumes inv: "ledger_inv C l" and C: "bal_config_ok C" and run: "withdraw C a v er l = Inr (imb, l')"
  shows "ledger_inv C (drop_negative_imbalance imb l') \<and> v \<le> free_balance l a \<and>
    (v \<noteq> 0 \<longrightarrow> free_balance l' a = free_balance l a - v \<or>
       free_balance l a - v < existential_deposit C \<and> free_balance l' a = 0) \<and>
    (\<forall>c. c \<noteq> a \<longrightarrow> free_balance l' c = free_balance l c) \<and>
    (\<forall>c. reserved_balance l' c = reserved_balance l c)"
proof -
  have "bal_inv C (asset_refs l) l" "assets_wf l" using inv by (simp_all add: ledger_inv_def)
  note W = withdraw_ok [OF this(1) C run]
  have "ledger_inv C (drop_negative_imbalance imb l')"
  proof -
    have "ext (drop_negative_imbalance imb l') = ext l" using more_withdraw [OF run] by simp
    from ledger_inv_native(1) [OF this] show ?thesis using W \<open>assets_wf l\<close> by blast
  qed
  moreover have "reserved_balance l' c = reserved_balance l c" for c
    using W by (cases "c = a") (simp_all add: reserved_balance_def)
  ultimately show ?thesis using W by (auto simp: free_balance_def after_debit_def)
qed

lemma drop_imbalance_account [simp]: "account_of (drop_negative_imbalance v s) = account_of s"
  by (simp add: drop_negative_imbalance_def account_of_def fun_eq_iff)

lemma ledger_reserve:
  assumes inv: "ledger_inv C l" and C: "bal_config_ok C" and run: "reserve C a v l = Inr l'"
  shows "ledger_inv C l' \<and> v \<le> free_balance l a \<and> free_balance l' a = free_balance l a - v \<and>
    reserved_balance l' a = reserved_balance l a + v \<and>
    (\<forall>c. c \<noteq> a \<longrightarrow> free_balance l' c = free_balance l c \<and> reserved_balance l' c = reserved_balance l c)"
proof -
  have "bal_inv C (asset_refs l) l" "assets_wf l" using inv by (simp_all add: ledger_inv_def)
  note R = reserve_ok [OF this(1) C run]
  have "ledger_inv C l'"
    unfolding ledger_inv_native(1) [OF more_reserve [OF run]] using R \<open>assets_wf l\<close> by simp
  then show ?thesis using R by (simp add: free_balance_def reserved_balance_def)
qed

lemma ledger_unreserve:
  assumes inv: "ledger_inv C l" and C: "bal_config_ok C" and run: "unreserve C a v l = (r, l')"
  shows "ledger_inv C l' \<and> r = v - min (reserved_balance l a) v \<and>
    reserved_balance l' a = reserved_balance l a - v \<and>
    (\<forall>c. c \<noteq> a \<longrightarrow> free_balance l' c = free_balance l c \<and> reserved_balance l' c = reserved_balance l c)"
proof -
  have "bal_inv C (asset_refs l) l" "assets_wf l" using inv by (simp_all add: ledger_inv_def)
  note R = unreserve_ok [OF this(1) C run]
  have "ledger_inv C l'"
    unfolding ledger_inv_native(1) [OF more_unreserve [OF run]] using R \<open>assets_wf l\<close> by simp
  then show ?thesis using R by (auto simp: free_balance_def reserved_balance_def min_def)
qed

lemma drop_imbalance_balances [simp]:
  "free_balance (drop_negative_imbalance v s) = free_balance s"
  "reserved_balance (drop_negative_imbalance v s) = reserved_balance s"
  by (simp_all add: free_balance_def reserved_balance_def fun_eq_iff)

lemma assets_transfer_laws:
  assumes "ledger_inv C l" "bal_config_ok C" "v \<noteq> 0" "assets_transfer C i a b v p l = Inr l'"
  shows "ledger_inv C l' \<and> (\<forall>c. account_of l' c = account_of l c) \<and> (\<forall>j. minimum_balance l' j = minimum_balance l j) \<and>
    (\<forall>j c. (j, c) \<noteq> (i, a) \<longrightarrow> (j, c) \<noteq> (i, b) \<longrightarrow> assets_balance l' j c = assets_balance l j c) \<and>
    (a \<noteq> b \<longrightarrow> v \<le> assets_balance l i a \<and>
       (assets_balance l' i b = assets_balance l i b + v \<or>
        \<not> asset_room l i \<and> assets_balance l' i b = assets_balance l i b) \<and>
       (assets_balance l' i a = assets_balance l i a - v \<or>
        p = Expendable \<and> assets_balance l i a - v < minimum_balance l i \<and> assets_balance l' i a = 0))"
proof (cases "a = b")
  case True
  then show ?thesis using assms by (auto simp: assets_transfer_def dispatch_simps)
next
  case False
  then show ?thesis
    using assets_transfer_ok [OF assms(1,2) False assms(3,4)] by (auto simp: asset_after_debit_def)
qed

lemma native_contract:
  assumes C: "bal_config_ok C"
  shows "reservable_currency (ledger_currencies C) (ledger_inv C)"
  by (unfold_locales; unfold ledger_currencies_sel;
      (frule (1) ledger_transfer [OF _ C] | frule (1) ledger_withdraw [OF _ C]
       | frule (1) ledger_reserve [OF _ C] | frule (1) ledger_unreserve [OF _ C])?;
      (simp | simp add: transfer_def))

lemma fungibles_contract:
  assumes C: "bal_config_ok C"
  shows "fungibles_currency (ledger_currencies C) (ledger_inv C) asset_room minimum_balance"
proof (unfold_locales, unfold ledger_currencies_sel, goal_cases)
  case (2 i a v p l l')
  then show ?case by (auto simp: assets_transfer_def dispatch_simps)
next
  case (7 l v i a l')
  then show ?case using assets_burn_ok by blast
next
  case (8 l i a v l')
  then show ?case using assets_burn_ok [of C l v i a l'] by (auto simp: asset_after_debit_def)
next
  case (9 l v i a l' j c)
  then show ?case using assets_burn_ok [of C l v i a l'] by simp
next
  case (10 l v i a l' j)
  then show ?case using assets_burn_ok [of C l v i a l'] by simp
qed (use assets_transfer_laws [OF _ C] in \<open>blast+\<close>)

lemma payments_contract:
  assumes C: "bal_config_ok C"
  shows "payments (ledger_currencies C) (ledger_inv C) asset_room minimum_balance"
proof (rule payments.intro [OF native_contract [OF C] fungibles_contract [OF C]], unfold_locales,
    unfold ledger_currencies_sel, goal_cases)
  case (1 a b v er l l' i c)
  from ledger_inv_native(2,3) [OF more_transfer [OF this]] show ?case by simp
next
  case (2 a v er l imb l' i c)
  then have "ext (drop_negative_imbalance imb l') = ext l" using more_withdraw by simp
  from ledger_inv_native(2,3) [OF this] show ?case by simp
next
  case (3 a v l l' i c)
  from ledger_inv_native(2,3) [OF more_reserve [OF this]] show ?case by simp
next
  case (4 a v l r l' i c)
  from ledger_inv_native(2,3) [OF more_unreserve [OF this]] show ?case by simp
next
  case (5 l v i a b p l' c)
  then show ?case using assets_transfer_laws [OF _ C, of l v i a b p l']
    by (simp add: free_balance_def reserved_balance_def)
next
  case (6 l v i a l' c)
  then show ?case using assets_burn_ok [of C l v i a l']
    by (simp add: free_balance_def reserved_balance_def)
qed

lemma thx_balances_ok: "bal_config_ok thx_balances"
  by (simp add: bal_config_ok_def thx_balances_def u32_max_def)

interpretation thx: payments "ledger_currencies thx_balances" "ledger_inv thx_balances" asset_room minimum_balance
  by (rule payments_contract [OF thx_balances_ok])

end
