(* ===== verification/Ledger_Example.thy ===== *)
theory Ledger_Example
  imports Assets "HOL-Library.Code_Target_Nat"
begin

text \<open>
  A concrete ledger on which the conditional theorems of the development are instantiated: three
  funded accounts, one asset class with two holders, and an executable criterion for the ledger
  invariant. The configuration is small (an existential deposit of 10), so that the model
  evaluates on it.
\<close>

definition demo_balances :: balances_config where
  "demo_balances = \<lparr>existential_deposit = 10, max_consumers = 16\<rparr>"

definition demo_info :: "nat \<Rightarrow> balance \<Rightarrow> account_info" where
  "demo_info n v = \<lparr>consumers = n, providers = 1, sufficients = 0,
     data = \<lparr>free = v, reserved = 0, frozen = 0, new_logic = True\<rparr>\<rparr>"

definition demo_asset :: asset_details where
  "demo_asset = \<lparr>total_supply = 400, min_balance = 1, is_sufficient = False, accounts_count = 2,
     sufficients_count = 0, life = Live\<rparr>"

definition demo_ledger :: assets_state where
  "demo_ledger =
    \<lparr>accounts = fmap_of_list [(1, demo_info 1 5000), (2, demo_info 1 5000), (3, demo_info 0 500)],
     total_issuance = 10500, ledger_events = [], asset_map = fmap_of_list [(7, demo_asset)],
     asset_accounts = fmap_of_list
       [((7, 1), \<lparr>asset_balance = 300, account_state = Liquid, reason = Consumer\<rparr>),
        ((7, 2), \<lparr>asset_balance = 100, account_state = Liquid, reason = Consumer\<rparr>)],
     asset_events = []\<rparr>"

definition ledger_check :: "balances_config \<Rightarrow> 'z assets_state_scheme \<Rightarrow> bool" where
  "ledger_check C s =
    ((\<forall>who\<in>fmdom' (accounts s). acc_ok C (asset_refs s who) (info_of s who)) \<and>
     (\<forall>k\<in>fmdom' (asset_accounts s). contains_key (accounts s) (snd k) \<and> contains_key (asset_map s) (fst k)) \<and>
     (\<forall>aid\<in>fmdom' (asset_map s). holdings s aid \<le> asset_issuance s aid \<and> asset_issuance s aid \<le> u128_max) \<and>
     fcard (fmdom (asset_map s)) < u32_max \<and> total_issuance s = issued s \<and> issued s \<le> u128_max)"

lemma fmsum_zero: "(\<And>k v. fmlookup m k = Some v \<Longrightarrow> f k v = 0) \<Longrightarrow> fmsum f m = 0"
  unfolding fmsum_def by (rule sum.neutral) (auto simp: fmlookup_dom'_iff)

lemma ledger_check_sound:
  assumes "ledger_check C s"
  shows "ledger_inv C s"
proof -
  have dom: "\<And>k v. fmlookup (asset_accounts s) k = Some v \<Longrightarrow>
      contains_key (accounts s) (snd k) \<and> contains_key (asset_map s) (fst k)"
    using assms by (auto simp: ledger_check_def dest!: fmdom'I)
  have "asset_refs s who = (0, 0)" if "fmlookup (accounts s) who = None" for who
    using that dom by (fastforce simp: asset_refs_def refs_of_def fmcount_def contains_key_def intro!: fmsum_zero)
  moreover have "acc_ok C (asset_refs s who) i" if "fmlookup (accounts s) who = Some i" for who i
    using that assms fmdom'I [OF that] by (auto simp: ledger_check_def info_of_def)
  ultimately have "bal_inv C (asset_refs s) s"
    using assms by (auto simp: bal_inv_def bal_wf_def ledger_check_def split: option.splits)
  moreover have "holdings s aid \<le> asset_issuance s aid \<and> asset_issuance s aid \<le> u128_max" for aid
  proof (cases "fmlookup (asset_map s) aid")
    case None
    then have "holdings s aid = 0"
      using dom by (fastforce simp: holdings_def contains_key_def intro!: fmsum_zero)
    with None show ?thesis by (simp add: asset_issuance_def)
  next
    case (Some d)
    then show ?thesis using assms fmdom'I [OF Some] by (auto simp: ledger_check_def)
  qed
  then have "assets_wf s"
    using assms dom by (fastforce simp: assets_wf_def ledger_check_def contains_key_def)
  ultimately show ?thesis by (simp add: ledger_inv_def)
qed

lemma demo_ledger_inv: "ledger_inv demo_balances demo_ledger"
proof (rule ledger_check_sound)
  show "ledger_check demo_balances demo_ledger" by code_simp
qed

lemma demo_balances_ok: "bal_config_ok demo_balances"
  by code_simp

end
