(* ===== verification/Accounts.thy ===== *)
theory Accounts
  imports Prelude
begin

text \<open>
  Accounts derived from a pallet identifier: \<open>into_sub_account_truncating\<close> of \<open>sp_runtime\<close>. The
  account is decoded from the bytes of the type identifier, the pallet identifier and the encoded
  seed, followed by zeros. The seeds in use are the unit value (the account of a pallet) and a
  32-bit number (the account of a campaign).
\<close>

primrec le_bytes :: "nat \<Rightarrow> nat \<Rightarrow> nat list" where
  "le_bytes 0 v = []"
| "le_bytes (Suc n) v = v mod 256 # le_bytes n (v div 256)"

primrec le_value :: "nat list \<Rightarrow> nat" where
  "le_value [] = 0"
| "le_value (b # bs) = b + 256 * le_value bs"

text \<open>Four and eight bytes: \<open>PalletId::TYPE_ID\<close> and the identifier itself.\<close>

definition type_id :: "nat list" where
  "type_id = [109, 111, 100, 108]"

definition decode_account :: "nat list \<Rightarrow> account_id" where
  "decode_account bs = le_value (take 32 (bs @ replicate (32 - length bs) 0))"

definition into_sub_account_truncating :: "nat list \<Rightarrow> nat list \<Rightarrow> account_id" where
  "into_sub_account_truncating pid sub = decode_account (type_id @ pid @ sub)"

definition encode_u32 :: "nat \<Rightarrow> nat list" where
  "encode_u32 v = le_bytes 4 v"

definition into_account_truncating :: "nat list \<Rightarrow> account_id" where
  "into_account_truncating pid = into_sub_account_truncating pid []"

definition pallet_id_ok :: "nat list \<Rightarrow> bool" where
  "pallet_id_ok pid = (length pid = 8 \<and> (\<forall>b\<in>set pid. b < 256))"

lemma length_le_bytes [simp]: "length (le_bytes n v) = n"
  by (induction n arbitrary: v) simp_all

lemma le_bytes_byte: "b \<in> set (le_bytes n v) \<Longrightarrow> b < 256"
  by (induction n arbitrary: v) auto

lemma le_value_bytes: "v < 256 ^ n \<Longrightarrow> le_value (le_bytes n v) = v"
proof (induction n arbitrary: v)
  case (Suc n)
  then have "v div 256 < 256 ^ n" by (simp add: less_mult_imp_div_less mult.commute)
  with Suc show ?case by simp
qed simp

lemma le_value_inj:
  assumes "length xs = length ys" "\<forall>b\<in>set xs. b < 256" "\<forall>b\<in>set ys. b < 256" "le_value xs = le_value ys"
  shows "xs = ys"
  using assms
proof (induction xs ys rule: list_induct2)
  case (Cons x xs y ys)
  then have e: "x + 256 * le_value xs = y + 256 * le_value ys" "x < 256" "y < 256" by simp_all
  then have "x mod 256 = y mod 256" by (metis mod_mult_self2)
  then have "x = y" using e(2,3) by simp
  with e Cons show ?case by simp
qed simp

lemma decode_encode_u32: "i \<le> u32_max \<Longrightarrow> le_value (encode_u32 i) = i"
  unfolding encode_u32_def by (rule le_value_bytes) (simp add: u32_max_def)

lemma encode_u32_inj: "\<lbrakk>i \<le> u32_max; j \<le> u32_max; encode_u32 i = encode_u32 j\<rbrakk> \<Longrightarrow> i = j"
  by (metis decode_encode_u32)

lemma sub_account_inj:
  assumes "pallet_id_ok p" "pallet_id_ok q" "i \<le> u32_max" "j \<le> u32_max"
    and eq: "into_sub_account_truncating p (encode_u32 i) = into_sub_account_truncating q (encode_u32 j)"
  shows "p = q \<and> i = j"
proof -
  have b: "\<forall>b\<in>set (type_id @ r @ encode_u32 k). b < 256" if "pallet_id_ok r" for r k
    using that by (auto simp: pallet_id_ok_def type_id_def encode_u32_def dest: le_bytes_byte)
  have "type_id @ p @ encode_u32 i @ replicate 16 0 = type_id @ q @ encode_u32 j @ replicate 16 0"
    using eq b [OF assms(1), of i] b [OF assms(2), of j] assms(1,2)
    by (intro le_value_inj)
      (auto simp: into_sub_account_truncating_def decode_account_def pallet_id_ok_def type_id_def
        encode_u32_def)
  then have "p @ encode_u32 i = q @ encode_u32 j" by simp
  then have "p = q" "encode_u32 i = encode_u32 j" using assms(1,2) by (simp_all add: pallet_id_ok_def)
  with encode_u32_inj assms(3,4) show ?thesis by simp
qed

end
