(* ===== verification/Arith128.thy ===== *)
theory Arith128
  imports Prelude "HOL-Library.Word"
begin

unbundle bit_operations_syntax

text \<open>
  The 128-bit multiply-and-divide of \<open>sp_arithmetic::helpers_128bit\<close> and the \<open>Permill\<close>
  fixed-point type of \<open>sp_arithmetic::per_things\<close>.

  \<open>Double128\<close> is kept at its width: two 128-bit words, with the wrap-around additions,
  shifts and masks of the source. The division loop may in principle run forever, so it is a
  \<open>partial_function (option)\<close>; that it returns is part of what is proved. The reference is
  exact division on natural numbers (\<open>round_div\<close>).
\<close>

type_synonym u128 = "128 word"

section \<open>Double-width arithmetic\<close>

record double128 =
  high :: u128
  low :: u128

definition low_64 :: "u128 \<Rightarrow> u128" where
  "low_64 a = a AND (push_bit 64 1 - 1)"

definition high_64 :: "u128 \<Rightarrow> u128" where
  "high_64 a = drop_bit 64 a"

definition neg128 :: "u128 \<Rightarrow> u128" where
  "neg128 a = (NOT a) + 1"

definition div128 :: "u128 \<Rightarrow> u128" where
  "div128 a = (neg128 a div a) + 1"

definition mod128 :: "u128 \<Rightarrow> u128" where
  "mod128 a = neg128 a mod a"

definition d128_try_into_u128 :: "double128 \<Rightarrow> u128 option" where
  "d128_try_into_u128 d = (if high d = 0 then Some (low d) else None)"

definition d128_zero :: double128 where
  "d128_zero = \<lparr>high = 0, low = 0\<rparr>"

definition d128_left_shift_64 :: "u128 \<Rightarrow> double128" where
  "d128_left_shift_64 v = \<lparr>high = drop_bit 64 v, low = push_bit 64 v\<rparr>"

definition d128_from_low :: "u128 \<Rightarrow> double128" where
  "d128_from_low l = \<lparr>high = 0, low = l\<rparr>"

definition d128_low_part :: "double128 \<Rightarrow> double128" where
  "d128_low_part d = d\<lparr>high := 0\<rparr>"

definition d128_add :: "double128 \<Rightarrow> double128 \<Rightarrow> double128" where
  "d128_add a b =
    (let l = low a + low b;
         carry = (if l < low a then 1 else 0)
     in \<lparr>high = high a + high b + carry, low = l\<rparr>)"

definition d128_product_of :: "u128 \<Rightarrow> u128 \<Rightarrow> double128" where
  "d128_product_of a b =
    (let a_low = low_64 a; a_high = high_64 a;
         b_low = low_64 b; b_high = high_64 b;
         f = a_low * b_low; o' = a_low * b_high; i = a_high * b_low; l = a_high * b_high;
         fl = \<lparr>high = l, low = f\<rparr>
     in d128_add (d128_add fl (d128_left_shift_64 i)) (d128_left_shift_64 o'))"

text \<open>The \<open>while self.high != 0\<close> loop of \<open>Double128::div\<close>, with the accumulator \<open>x\<close>.\<close>

partial_function (option) d128_div_loop ::
  "u128 \<Rightarrow> u128 \<Rightarrow> double128 \<Rightarrow> double128 \<Rightarrow> (double128 \<times> double128) option" where
  "d128_div_loop q r x a =
    (if high a \<noteq> 0
     then d128_div_loop q r (d128_add x (d128_product_of (high a) q))
                        (d128_add (d128_product_of (high a) r) (d128_low_part a))
     else Some (x, a))"

definition d128_div :: "double128 \<Rightarrow> u128 \<Rightarrow> (double128 \<times> u128) option" where
  "d128_div a rhs =
    (if rhs = 1 then Some (a, 0)
     else case d128_div_loop (div128 rhs) (mod128 rhs) d128_zero a of
            None \<Rightarrow> None
          | Some (x, a') \<Rightarrow> Some (d128_add x (d128_from_low (low a' div rhs)), low a' mod rhs))"

datatype rounding = Up | Down | NearestPrefUp | NearestPrefDown

text \<open>
  The outer \<open>option\<close> is divergence of the loop, the inner one the \<open>Option\<close> of the source.
\<close>

definition multiply_by_rational_with_rounding ::
  "u128 \<Rightarrow> u128 \<Rightarrow> u128 \<Rightarrow> rounding \<Rightarrow> u128 option option" where
  "multiply_by_rational_with_rounding a b c r =
    (if c = 0 then Some None
     else case d128_div (d128_product_of a b) c of
       None \<Rightarrow> None
     | Some (res, remainder) \<Rightarrow>
        (case d128_try_into_u128 res of
           None \<Rightarrow> Some None
         | Some result \<Rightarrow>
            (let bump = (case r of Up \<Rightarrow> remainder > 0
                                 | NearestPrefUp \<Rightarrow> remainder \<ge> c div 2 + c mod 2
                                 | NearestPrefDown \<Rightarrow> remainder > c div 2
                                 | Down \<Rightarrow> False)
             in if bump
                then (if result = - 1 then Some None else Some (Some (result + 1)))
                else Some (Some result))))"

section \<open>Permill\<close>

text \<open>A \<open>Permill\<close> is its number of parts per million, at most a million.\<close>

type_synonym permill = nat

definition permill_accuracy :: nat where
  "permill_accuracy = 1000000"

definition permill_from_parts :: "nat \<Rightarrow> permill" where
  "permill_from_parts parts = (if parts > permill_accuracy then permill_accuracy else parts)"

definition rational_mul_correction :: "nat \<Rightarrow> nat \<Rightarrow> nat \<Rightarrow> rounding \<Rightarrow> nat" where
  "rational_mul_correction x numer denom r =
    (let rem = x mod denom;
         rem_mul = rem * numer;
         q = rem_mul div denom
     in case r of
          Down \<Rightarrow> q
        | Up \<Rightarrow> (if rem_mul mod denom > 0 then q + 1 else q)
        | NearestPrefDown \<Rightarrow> (if rem_mul mod denom > denom div 2 then q + 1 else q)
        | NearestPrefUp \<Rightarrow> (if rem_mul mod denom \<ge> denom div 2 + denom mod 2 then q + 1 else q))"

definition overflow_prune_mul :: "nat \<Rightarrow> permill \<Rightarrow> rounding \<Rightarrow> nat" where
  "overflow_prune_mul x part r =
    (x div permill_accuracy) * part + rational_mul_correction x part permill_accuracy r"

definition permill_mul :: "permill \<Rightarrow> nat \<Rightarrow> nat" where
  "permill_mul p x = overflow_prune_mul x p NearestPrefDown"

definition permill_mul_floor :: "permill \<Rightarrow> nat \<Rightarrow> nat" where
  "permill_mul_floor p x = overflow_prune_mul x p Down"

definition permill_mul_ceil :: "permill \<Rightarrow> nat \<Rightarrow> nat" where
  "permill_mul_ceil p x = overflow_prune_mul x p Up"

text \<open>
  \<open>Permill::from_rational\<close> on \<open>u128\<close> arguments: \<open>multiply_rational\<close> of the accuracy, rounded
  down, and one whole when the fraction exceeds one or the denominator is zero.
\<close>

definition permill_from_rational_with_rounding :: "nat \<Rightarrow> nat \<Rightarrow> rounding \<Rightarrow> permill option option" where
  "permill_from_rational_with_rounding p q r =
    (if q = 0 then Some None
     else if p > q then Some None
     else case multiply_by_rational_with_rounding (of_nat permill_accuracy) (of_nat p) (of_nat q) r of
            None \<Rightarrow> None
          | Some None \<Rightarrow> Some None
          | Some (Some w) \<Rightarrow> Some (if unat w \<le> u32_max then Some (unat w) else None))"

definition permill_from_rational :: "nat \<Rightarrow> nat \<Rightarrow> permill option" where
  "permill_from_rational p q =
    (case permill_from_rational_with_rounding p q Down of
       None \<Rightarrow> None
     | Some None \<Rightarrow> Some permill_accuracy
     | Some (Some v) \<Rightarrow> Some v)"

section \<open>Reference definitions\<close>

text \<open>The value of a double word, and exact division with each rounding mode.\<close>

definition B64 :: nat where
  "B64 = 2 ^ 64"

definition d128_val :: "double128 \<Rightarrow> nat" where
  "d128_val d = unat (high d) * (B64 * B64) + unat (low d)"

definition round_div :: "nat \<Rightarrow> nat \<Rightarrow> rounding \<Rightarrow> nat" where
  "round_div n c r = (case r of
     Down \<Rightarrow> n div c
   | Up \<Rightarrow> (n + c - 1) div c
   | NearestPrefUp \<Rightarrow> (2 * n + c) div (2 * c)
   | NearestPrefDown \<Rightarrow> (2 * n + c - 1) div (2 * c))"

definition permill_ratio :: "nat \<Rightarrow> nat \<Rightarrow> permill" where
  "permill_ratio p q = the (permill_from_rational p q)"

definition rounds_up :: "nat \<Rightarrow> nat \<Rightarrow> rounding \<Rightarrow> bool" where
  "rounds_up m c r = (case r of
     Down \<Rightarrow> False
   | Up \<Rightarrow> 0 < m
   | NearestPrefUp \<Rightarrow> c div 2 + c mod 2 \<le> m
   | NearestPrefDown \<Rightarrow> c div 2 < m)"

section \<open>The words compute the reference\<close>

lemma B64_square: "B64 * B64 = 2 ^ 128"
  by (simp add: B64_def)

lemma B64_pos [simp]: "0 < B64"
  by (simp add: B64_def)

lemma unat_lt_B: "unat (x :: u128) < B64 * B64"
  unfolding B64_square using unsigned_less [of x] by simp

lemma unat_add_mod: "unat (x + y :: u128) = (unat x + unat y) mod (B64 * B64)"
  by (simp add: unat_word_ariths B64_square)

lemma unat_mult_mod: "unat (x * y :: u128) = (unat x * unat y) mod (B64 * B64)"
  by (simp add: unat_word_ariths B64_square)

lemma unat_low_64: "unat (low_64 a) = unat a mod B64"
proof -
  have "low_64 a = take_bit 64 a"
    unfolding low_64_def by (simp only: take_bit_eq_mask mask_eq_exp_minus_1 push_bit_eq_mult mult_1)
  then have "unat (low_64 a) = take_bit 64 (unat a)" by (simp only: unsigned_take_bit_eq)
  then show ?thesis by (simp only: take_bit_eq_mod B64_def)
qed

lemma unat_high_64: "unat (high_64 a) = unat a div B64"
  unfolding high_64_def unat_drop_bit_eq by (simp only: drop_bit_eq_div B64_def)

lemma unat_push_64: "unat (push_bit 64 a :: u128) = (unat a mod B64) * B64"
proof -
  have "unat (push_bit 64 a :: u128) = (unat a * B64) mod (B64 * B64)"
    by (simp only: push_bit_eq_mult unat_mult_mod) (simp add: B64_def)
  then show ?thesis by (simp add: mod_mult_mult2)
qed

lemma unat_neg128:
  assumes "a \<noteq> 0" shows "unat (neg128 a) = B64 * B64 - unat a"
proof -
  have "a + neg128 a = 0" by (simp add: neg128_def flip: minus_eq_not_plus_1)
  then have "(unat a + unat (neg128 a)) mod (B64 * B64) = 0"
    by (simp flip: unat_add_mod)
  moreover have "unat a + unat (neg128 a) < 2 * (B64 * B64)" "0 < unat a"
    using unat_lt_B [of a] unat_lt_B [of "neg128 a"] assms by (simp_all add: unat_gt_0)
  ultimately obtain k where k: "unat a + unat (neg128 a) = B64 * B64 * k"
    by (auto simp: mod_eq_0_iff_dvd elim: dvdE)
  have "k = 1" using k \<open>0 < unat a\<close> \<open>_ < 2 * (B64 * B64)\<close>
    by (cases k rule: nat.exhaust) (auto simp: algebra_simps)
  with k show ?thesis by simp
qed

lemma div128_mod128:
  assumes "1 < unat a"
  shows unat_div128: "unat (div128 a) = B64 * B64 div unat a"
    and unat_mod128: "unat (mod128 a) = B64 * B64 mod unat a"
proof -
  have n: "unat a < B64 * B64" by (rule unat_lt_B)
  have neg: "unat (neg128 a) = B64 * B64 - unat a"
    using unat_neg128 [of a] assms by fastforce
  have dm: "B64 * B64 div unat a = Suc ((B64 * B64 - unat a) div unat a)"
      "B64 * B64 mod unat a = (B64 * B64 - unat a) mod unat a"
    using n assms by (simp_all add: le_div_geq le_mod_geq)
  have "B64 * B64 div unat a \<le> B64 * B64 div 2"
    using assms by (intro div_le_mono2) auto
  moreover have "B64 * B64 div 2 < B64 * B64" using n by (intro div_less_dividend) auto
  ultimately have lt: "Suc ((B64 * B64 - unat a) div unat a) < B64 * B64" using dm(1) by simp
  have "unat (neg128 a div a) = (B64 * B64 - unat a) div unat a"
    using neg by (simp add: unat_div)
  with lt show "unat (div128 a) = B64 * B64 div unat a"
    by (simp add: div128_def dm(1) unat_add_mod)
  show "unat (mod128 a) = B64 * B64 mod unat a"
    using neg by (simp add: mod128_def dm(2) unat_mod)
qed

lemma d128_val_add:
  assumes "d128_val a + d128_val b < B64 * B64 * (B64 * B64)"
  shows "d128_val (d128_add a b) = d128_val a + d128_val b"
proof -
  define M where "M = B64 * B64"
  have M: "unat (x :: u128) < M" for x unfolding M_def by (rule unat_lt_B)
  have "(low a + low b < low a) \<longleftrightarrow> M \<le> unat (low a) + unat (low b)"
    using M [of "low a"] M [of "low b"]
    by (auto simp: word_less_nat_alt unat_add_mod M_def [symmetric] mod_if)
  then have carry: "unat (if low a + low b < low a then 1 else 0 :: u128)
      = (if M \<le> unat (low a) + unat (low b) then 1 else 0)"
    by simp
  have lo: "unat (low a + low b) = unat (low a) + unat (low b) -
      M * (if M \<le> unat (low a) + unat (low b) then 1 else 0)"
    using M [of "low a"] M [of "low b"] by (auto simp: unat_add_mod M_def [symmetric] mod_if)
  let ?c = "if M \<le> unat (low a) + unat (low b) then 1 else (0 :: nat)"
  have "(unat (high a) + unat (high b) + ?c) * M \<le> d128_val a + d128_val b"
    by (simp add: d128_val_def M_def [symmetric] algebra_simps)
  with assms have "(unat (high a) + unat (high b) + ?c) * M < M * M"
    unfolding M_def by linarith
  then have "unat (high a) + unat (high b) + ?c < M" by simp
  then have hi: "unat (high a + high b + (if low a + low b < low a then 1 else 0))
      = unat (high a) + unat (high b) + ?c"
    unfolding unat_add_mod carry M_def [symmetric] by (simp add: mod_simps)
  show ?thesis
    unfolding d128_val_def d128_add_def Let_def
    using hi lo by (simp add: M_def [symmetric] algebra_simps)
qed


lemma unat_small_mult:
  assumes "unat x < B64" "unat y < B64"
  shows "unat (x * y :: u128) = unat x * unat y"
  using mult_strict_mono [of "unat x" B64 "unat y" B64] assms by (simp add: unat_mult_mod)

lemma d128_val_left_shift: "d128_val (d128_left_shift_64 v) = unat v * B64"
proof -
  have "unat (drop_bit 64 v) = unat v div B64"
    using unat_high_64 [of v] by (simp add: high_64_def)
  then have "d128_val (d128_left_shift_64 v) = unat v div B64 * (B64 * B64) + unat v mod B64 * B64"
    unfolding d128_val_def d128_left_shift_64_def by (simp add: unat_push_64)
  also have "\<dots> = (unat v div B64 * B64 + unat v mod B64) * B64"
    by (simp only: add_mult_distrib mult.assoc)
  finally show ?thesis by (simp only: div_mult_mod_eq)
qed

lemma d128_val_product: "d128_val (d128_product_of a b) = unat a * unat b"
proof -
  define al ah bl bh where "al = unat a mod B64" and "ah = unat a div B64"
    and "bl = unat b mod B64" and "bh = unat b div B64"
  have lt: "al < B64" "bl < B64" "ah < B64" "bh < B64"
    using unat_lt_B [of a] unat_lt_B [of b]
    by (simp_all add: al_def bl_def ah_def bh_def less_mult_imp_div_less)
  have a: "unat a = ah * B64 + al" and b: "unat b = bh * B64 + bl"
    by (simp_all add: al_def ah_def bl_def bh_def)
  have sum: "unat a * unat b = (ah * bh) * (B64 * B64) + al * bl + ah * bl * B64 + al * bh * B64"
    by (simp add: a b algebra_simps)
  have "unat a * unat b < B64 * B64 * (B64 * B64)"
    by (intro mult_strict_mono unat_lt_B) simp_all
  then have bound: "(ah * bh) * (B64 * B64) + al * bl + ah * bl * B64 + al * bh * B64
      < B64 * B64 * (B64 * B64)"
    using sum by simp
  let ?fl = "\<lparr>high = high_64 a * high_64 b, low = low_64 a * low_64 b\<rparr>"
  have fl: "d128_val ?fl = (ah * bh) * (B64 * B64) + al * bl"
    and i: "d128_val (d128_left_shift_64 (high_64 a * low_64 b)) = ah * bl * B64"
    and o: "d128_val (d128_left_shift_64 (low_64 a * high_64 b)) = al * bh * B64"
    using lt unfolding al_def ah_def bl_def bh_def
    by (simp_all only: d128_val_left_shift)
       (simp_all add: d128_val_def unat_small_mult unat_low_64 unat_high_64)
  show ?thesis
    unfolding d128_product_of_def Let_def
    using bound fl i o sum by (simp add: d128_val_add)
qed

lemma d128_val_simps [simp]:
  "d128_val d128_zero = 0"
  "d128_val (d128_from_low l) = unat l"
  "d128_val (d128_low_part a) = unat (low a)"
  by (simp_all add: d128_val_def d128_zero_def d128_from_low_def d128_low_part_def)

lemma d128_val_lt: "d128_val d < B64 * B64 * (B64 * B64)"
proof -
  have "(unat (high d) + 1) * (B64 * B64) \<le> B64 * B64 * (B64 * B64)"
    using unat_lt_B [of "high d"] by (intro mult_right_mono) auto
  then show ?thesis using unat_lt_B [of "low d"] by (simp add: d128_val_def)
qed

text \<open>
  The loop invariant is \<open>x + a / b\<close> constant and \<open>a mod b\<close> constant; \<open>a\<close> decreases because the
  high word is replaced by its product with a number below the divisor.
\<close>

lemma d128_div_loop_returns:
  assumes b: "1 < unat b"
    and inv: "d128_val x + d128_val a div unat b < B64 * B64 * (B64 * B64)"
  shows "\<exists>x' a'. d128_div_loop (div128 b) (mod128 b) x a = Some (x', a') \<and> high a' = 0 \<and>
    d128_val x' + d128_val a' div unat b = d128_val x + d128_val a div unat b \<and>
    d128_val a' mod unat b = d128_val a mod unat b"
  using inv
proof (induction "d128_val a" arbitrary: x a rule: less_induct)
  case less
  show ?case
  proof (cases "high a = 0")
    case True
    then show ?thesis by (subst d128_div_loop.simps) simp
  next
    case False
    define M h l q r where "M = B64 * B64" and "h = unat (high a)" and "l = unat (low a)"
      and "q = M div unat b" and "r = M mod unat b"
    have h: "0 < h" using False by (simp add: h_def unat_gt_0)
    have M: "M = q * unat b + r" by (simp add: q_def r_def)
    have va: "d128_val a = (h * q) * unat b + (h * r + l)"
      unfolding d128_val_def M_def [symmetric] by (simp add: h_def l_def M algebra_simps)
    have r: "r < unat b" using b by (simp add: r_def)
    also have "unat b < M" unfolding M_def by (rule unat_lt_B)
    finally have "h * r < h * M" using h by simp
    then have dec: "h * r + l < d128_val a"
      unfolding d128_val_def M_def [symmetric] h_def l_def by simp
    let ?x = "d128_add x (d128_product_of (high a) (div128 b))"
    let ?a = "d128_add (d128_product_of (high a) (mod128 b)) (d128_low_part a)"
    have va': "d128_val ?a = h * r + l"
      using dec d128_val_lt [of a] unat_mod128 [OF b]
      by (subst d128_val_add) (simp_all add: d128_val_product h_def l_def r_def M_def)
    have sum: "d128_val a div unat b = h * q + (h * r + l) div unat b"
      unfolding va using b by simp
    have vx: "d128_val ?x = d128_val x + h * q"
      using less.prems sum unat_div128 [OF b]
      by (subst d128_val_add) (simp_all add: d128_val_product h_def q_def M_def)
    have "d128_val ?a mod unat b = d128_val a mod unat b"
      unfolding va va' by simp
    moreover have "d128_val ?x + d128_val ?a div unat b = d128_val x + d128_val a div unat b"
      unfolding vx va' sum by simp
    moreover have "d128_div_loop (div128 b) (mod128 b) x a = d128_div_loop (div128 b) (mod128 b) ?x ?a"
      using False by (subst d128_div_loop.simps) simp
    ultimately show ?thesis using less.hyps [of ?a ?x] less.prems dec va' by simp
  qed
qed

lemma d128_div_correct:
  assumes "b \<noteq> 0"
  shows "\<exists>q r. d128_div a b = Some (q, r) \<and> d128_val q = d128_val a div unat b \<and>
    unat r = d128_val a mod unat b"
proof (cases "b = 1")
  case True
  then show ?thesis by (simp add: d128_div_def)
next
  case False
  then have b: "1 < unat b" using assms
    by (simp add: word_unat_eq_iff)
  have le: "d128_val a div unat b < B64 * B64 * (B64 * B64)"
    using d128_val_lt [of a] by (meson div_le_dividend le_less_trans)
  then obtain x' a' where loop: "d128_div_loop (div128 b) (mod128 b) d128_zero a = Some (x', a')"
    and a': "high a' = 0" and x': "d128_val x' + d128_val a' div unat b = d128_val a div unat b"
    and m: "d128_val a' mod unat b = d128_val a mod unat b"
    using d128_div_loop_returns [OF b, of d128_zero a] by auto
  have va': "d128_val a' = unat (low a')" using a' by (simp add: d128_val_def)
  have "d128_val (d128_add x' (d128_from_low (low a' div b))) = d128_val a div unat b"
    using x' le va' by (subst d128_val_add) (simp_all add: unat_div)
  with loop m va' False show ?thesis by (simp add: d128_div_def unat_mod)
qed

lemma div_unique_nat: "(q :: nat) * d \<le> n \<Longrightarrow> n < q * d + d \<Longrightarrow> n div d = q"
  by (metis add.commute div_nat_eqI mult_Suc mult.commute)

lemma round_div_bump:
  assumes "0 < c"
  shows "round_div n c r = n div c + (if rounds_up (n mod c) c r then 1 else 0)"
proof -
  define q m where "q = n div c" and "m = n mod c"
  have n: "n = q * c + m" and m: "m < c" using assms by (simp_all add: q_def m_def)
  have c2: "c = 2 * (c div 2) + c mod 2" "c mod 2 < 2" by simp_all
  show ?thesis
    unfolding q_def [symmetric] m_def [symmetric] round_div_def rounds_up_def
    using m c2 assms unfolding n
    by (cases r) (auto intro!: div_unique_nat simp: algebra_simps, presburger+)
qed
 

lemma unat_numeral_simps: "unat (of_nat permill_accuracy :: u128) = permill_accuracy"
  by (simp add: permill_accuracy_def)

lemma unat_of_nat_u128: "v \<le> u128_max \<Longrightarrow> unat (of_nat v :: u128) = v"
proof -
  assume "v \<le> u128_max"
  then have "v < 2 ^ LENGTH(128)" by (simp add: u128_max_def)
  then show ?thesis by (simp only: unat_of_nat mod_less)
qed

lemma muldiv_correct:
  "multiply_by_rational_with_rounding a b c r =
     Some (if c = 0 then None
           else if round_div (unat a * unat b) (unat c) r \<le> u128_max
             then Some (of_nat (round_div (unat a * unat b) (unat c) r)) else None)"
proof (cases "c = 0")
  case True
  then show ?thesis by (simp add: multiply_by_rational_with_rounding_def)
next
  case False
  define n where "n = unat a * unat b"
  obtain q m where div: "d128_div (d128_product_of a b) c = Some (q, m)"
    and q: "d128_val q = n div unat c" and m: "unat m = n mod unat c"
    using d128_div_correct [OF False, of "d128_product_of a b"] by (auto simp: d128_val_product n_def)
  have c: "0 < unat c" using False by (simp add: unat_gt_0)
  have half: "unat (c div 2) = unat c div 2" "unat (c mod 2) = unat c mod 2"
    "unat (c div 2 + c mod 2) = unat c div 2 + unat c mod 2"
  proof -
    show "unat (c div 2) = unat c div 2" "unat (c mod 2) = unat c mod 2"
      by (simp_all add: unat_div unat_mod)
    moreover have "unat c div 2 + unat c mod 2 < B64 * B64"
      using unat_lt_B [of c] by presburger
    ultimately show "unat (c div 2 + c mod 2) = unat c div 2 + unat c mod 2"
      by (simp add: unat_add_mod)
  qed
  have bump: "(case r of Up \<Rightarrow> m > 0 | NearestPrefUp \<Rightarrow> m \<ge> c div 2 + c mod 2
      | NearestPrefDown \<Rightarrow> m > c div 2 | Down \<Rightarrow> False) = rounds_up (n mod unat c) (unat c) r"
    by (cases r) (simp_all add: rounds_up_def m [symmetric] word_less_nat_alt word_le_nat_alt half)
  have fits: "d128_try_into_u128 q =
      (if n div unat c < B64 * B64 then Some (of_nat (n div unat c)) else None)"
  proof (cases "high q = 0")
    case True
    then show ?thesis using unat_lt_B [of "low q"]
      by (simp add: d128_try_into_u128_def q [symmetric] d128_val_def)
  next
    case False
    then have "B64 * B64 \<le> d128_val q"
      using mult_le_mono1 [of 1 "unat (high q)" "B64 * B64"]
      by (simp add: d128_val_def word_neq_0_conv [symmetric] Suc_le_eq unat_gt_0 trans_le_add1)
    with False show ?thesis by (simp add: d128_try_into_u128_def q)
  qed
  have BM: "B64 * B64 = Suc u128_max" by (simp add: B64_square u128_max_def)
  have mx: "(x \<le> u128_max) = (x < B64 * B64)" for x
    unfolding u128_max_def B64_square by auto
  have last: "(of_nat x :: u128) = - 1 \<longleftrightarrow> x = u128_max" if "x < B64 * B64" for x
    using that unat_of_nat_u128 [of x]
    by (simp add: word_unat_eq_iff mx [symmetric] unsigned_minus_1_eq_mask mask_eq_exp_minus_1 u128_max_def)
  show ?thesis
    unfolding n_def [symmetric] round_div_bump [OF c] mx
    using False last [of "n div unat c"]
    by (auto simp: multiply_by_rational_with_rounding_def div bump fits Let_def less_Suc_eq_le BM)
qed

lemma permill_from_rational_correct:
  assumes "p \<le> u128_max" "q \<le> u128_max"
  shows "permill_from_rational p q =
    Some (if q = 0 \<or> q < p then permill_accuracy else permill_accuracy * p div q)"
proof -
  have u: "unat (of_nat p :: u128) = p" "unat (of_nat q :: u128) = q"
    by (rule unat_of_nat_u128 [OF assms(1)], rule unat_of_nat_u128 [OF assms(2)])
  have q0: "(of_nat q :: u128) = 0 \<longleftrightarrow> q = 0" by (simp only: word_unat_eq_iff u(2) unsigned_0)
  have le: "permill_accuracy * p div q \<le> permill_accuracy" if "p \<le> q" "0 < q"
    using that div_le_mono [of "permill_accuracy * p" "permill_accuracy * q" q] by simp
  have le32: "permill_accuracy * p div q \<le> u32_max" if "p \<le> q" "0 < q"
    using le [OF that] by (simp add: permill_accuracy_def u32_max_def)
  have le128: "permill_accuracy * p div q \<le> u128_max" if "p \<le> q" "0 < q"
    using le [OF that] by (simp add: permill_accuracy_def u128_max_def)
  show ?thesis
  proof (cases "q = 0 \<or> q < p")
    case True
    then show ?thesis
      by (auto simp: permill_from_rational_def permill_from_rational_with_rounding_def)
  next
    case False
    then show ?thesis using le32 le128 unat_of_nat_u128 [OF le128]
      by (simp del: unsigned_of_nat add: permill_from_rational_def permill_from_rational_with_rounding_def muldiv_correct
          u q0 unat_numeral_simps round_div_def)
  qed
qed

lemma permill_mul_nearest:
  assumes "p \<le> permill_accuracy"
  shows "overflow_prune_mul x p r = round_div (x * p) permill_accuracy r"
proof -
  define A q m where "A = permill_accuracy" and "q = x div A" and "m = x mod A"
  have A: "0 < A" by (simp add: A_def permill_accuracy_def)
  have x: "x * p = (q * p) * A + m * p" 
  proof -
    have "x = q * A + m" by (simp add: q_def m_def)
    then show ?thesis by (simp add: algebra_simps)
  qed
  have "x * p div A = q * p + m * p div A" "x * p mod A = m * p mod A"
    unfolding x using A by simp_all
  then show ?thesis
    unfolding A_def [symmetric] round_div_bump [OF A]
    by (cases r) (simp_all add: overflow_prune_mul_def rational_mul_correction_def Let_def
      rounds_up_def A_def [symmetric] q_def m_def)
qed

lemma round_div_le:
  assumes "n \<le> x * c" "0 < c" shows "round_div n c r \<le> x"
proof -
  have "n div c \<le> x" using assms by (metis div_le_mono div_mult_self_is_m)
  moreover have "\<not> rounds_up (n mod c) c r" if "n div c = x"
  proof -
    have "n mod c = 0" using assms that by (metis add_le_same_cancel1 div_mult_mod_eq le_zero_eq)
    moreover have "0 < c div 2 + c mod 2" using assms(2) by presburger
    ultimately show ?thesis by (cases r) (simp_all only: rounds_up_def rounding.case, simp_all)
  qed
  ultimately show ?thesis
    unfolding round_div_bump [OF assms(2)] by (cases "n div c = x") auto
qed

lemma round_div_ge: "0 < c \<Longrightarrow> n div c \<le> round_div n c r"
  by (simp add: round_div_bump)
end
