(* ===== verification/Ledger_Theorems.thy ===== *)
theory Ledger_Theorems
  imports Ledger_Example Accounts Arith128
begin

text \<open>
  The properties of the currency layer: exact 256-bit arithmetic behind \<open>Permill\<close>, derived
  accounts, the native ledger and the fungible assets, and the contract that the pallets above
  are verified against. Each conditional theorem is followed by an instance on the example ledger.
\<close>

text \<open>
  C30: \<open>multiply_by_rational_with_rounding\<close>, which works on pairs of 128-bit words with schoolbook
  multiplication and a long-division loop, always returns and computes the exactly rounded quotient
  \<open>a * b / c\<close>: it reports failure only for a zero divisor and for a result that does not fit.
\<close>

theorem multiply_by_rational_exact:
  "multiply_by_rational_with_rounding a b c r =
     Some (if c = 0 then None
           else if round_div (unat a * unat b) (unat c) r \<le> u128_max
             then Some (of_nat (round_div (unat a * unat b) (unat c) r)) else None)"
  by (rule muldiv_correct)

text \<open>
  C31: The long-division loop of \<open>Double128::div\<close> ends for every dividend and every non-zero divisor,
  and what it returns is the quotient and the remainder of the division.
\<close>

theorem double128_div_terminates:
  assumes "b \<noteq> 0"
  shows "\<exists>q r. d128_div a b = Some (q, r) \<and>
    d128_val a = d128_val q * unat b + unat r \<and> unat r < unat b"
proof -
  obtain q r where "d128_div a b = Some (q, r)" "d128_val q = d128_val a div unat b"
    "unat r = d128_val a mod unat b"
    using d128_div_correct [OF assms] by blast
  moreover have "0 < unat b" using assms by (simp add: unat_gt_0)
  ultimately show ?thesis by simp
qed

theorem double128_div_terminates_witness:
  "\<exists>q r. d128_div \<lparr>high = 5, low = 9\<rparr> 7 = Some (q, r) \<and>
    d128_val \<lparr>high = 5, low = 9\<rparr> = d128_val q * unat (7 :: u128) + unat r \<and> unat r < unat (7 :: u128)"
  by (rule double128_div_terminates) simp

text \<open>
  C32: A \<open>Permill\<close> built by \<open>from_rational\<close> never exceeds one, and multiplying a balance by it (with
  any rounding) gives the exactly rounded product and never more than the balance.
\<close>

theorem permill_product_bounds:
  assumes "p \<le> u128_max" "q \<le> u128_max"
  shows "\<exists>m. permill_from_rational p q = Some m \<and> m \<le> permill_accuracy \<and>
    overflow_prune_mul x m r = round_div (x * m) permill_accuracy r \<and> overflow_prune_mul x m r \<le> x"
proof -
  obtain m where m: "permill_from_rational p q = Some m" "m \<le> permill_accuracy"
    using permill_from_rational_correct [OF assms] div_le_mono [of "permill_accuracy * p" "permill_accuracy * q" q]
    by (auto split: if_splits)
  moreover have "round_div (x * m) permill_accuracy r \<le> x"
    using m(2) by (intro round_div_le) (simp_all add: permill_accuracy_def)
  ultimately show ?thesis using permill_mul_nearest [OF m(2), of x r] by auto
qed

theorem permill_product_bounds_witness:
  "\<exists>m. permill_from_rational 1 3 = Some m \<and> m \<le> permill_accuracy \<and>
    overflow_prune_mul 1000 m NearestPrefDown = round_div (1000 * m) permill_accuracy NearestPrefDown \<and>
    overflow_prune_mul 1000 m NearestPrefDown \<le> 1000"
  by (rule permill_product_bounds) (simp_all add: u128_max_def)

text \<open>
  C33: Accounts derived from a pallet identifier and a 32-bit index are distinct for distinct indices
  and for distinct pallets, so no two campaigns share a sub-account.
\<close>

theorem derived_accounts_distinct:
  assumes "pallet_id_ok p" "pallet_id_ok q" "i \<le> u32_max" "j \<le> u32_max"
    and "(p, i) \<noteq> (q, j)"
  shows "into_sub_account_truncating p (encode_u32 i) \<noteq> into_sub_account_truncating q (encode_u32 j)"
  using sub_account_inj [OF assms(1-4)] assms(5) by auto

theorem derived_accounts_distinct_witness:
  "into_sub_account_truncating (replicate 8 99) (encode_u32 0) \<noteq>
   into_sub_account_truncating (replicate 8 99) (encode_u32 1)"
  by (rule derived_accounts_distinct) (simp_all add: pallet_id_ok_def u32_max_def)

text \<open>
  C34: A native transfer between different accounts keeps the ledger invariant (in particular the
  total issuance stays the sum of all balances), delivers exactly the amount, takes exactly the
  amount from the sender up to dust below the existential deposit, leaves reserves and all other
  accounts alone, and with \<open>KeepAlive\<close> leaves the sender at least the existential deposit.
\<close>

theorem native_transfer_exact:
  assumes "ledger_inv C l" "bal_config_ok C" "a \<noteq> b" "v \<noteq> 0" "transfer C a b v er l = Inr l'"
  shows "ledger_inv C l' \<and> v \<le> free_balance l a \<and>
    free_balance l' b = free_balance l b + v \<and>
    free_balance l' a = after_debit C (account_of l a) v \<and>
    (er = KeepAlive \<longrightarrow>
       free_balance l' a = free_balance l a - v \<and> existential_deposit C \<le> free_balance l' a) \<and>
    (\<forall>c. reserved_balance l' c = reserved_balance l c) \<and>
    (\<forall>c. c \<noteq> a \<longrightarrow> c \<noteq> b \<longrightarrow> free_balance l' c = free_balance l c)"
proof -
  have inv: "bal_inv C (asset_refs l) l" using assms(1) by (simp add: ledger_inv_def)
  note T = transfer_ok [OF inv assms(2-5)]
  note L = ledger_transfer [OF assms(1,2,5)]
  have "free_balance l' a = after_debit C (account_of l a) v" using T by (simp add: free_balance_def)
  then show ?thesis using L T assms(3,4) by (auto simp: free_balance_def after_debit_def)
qed

theorem native_transfer_exact_witness:
  "\<exists>l'. transfer demo_balances 1 9 100 KeepAlive demo_ledger = Inr l' \<and>
     free_balance l' 9 = 100 \<and> free_balance l' 1 = 4900 \<and> ledger_inv demo_balances l'"
proof -
  have "is_ok (transfer demo_balances 1 9 100 KeepAlive demo_ledger)"
    "free_balance demo_ledger 9 = 0" "free_balance demo_ledger 1 = 5000" by code_simp+
  then obtain l' where run: "transfer demo_balances 1 9 100 KeepAlive demo_ledger = Inr l'"
    by (auto simp: is_ok_def split: sum.splits)
  from native_transfer_exact [OF demo_ledger_inv demo_balances_ok _ _ run] show ?thesis
    using run \<open>free_balance demo_ledger 9 = 0\<close> \<open>free_balance demo_ledger 1 = 5000\<close> by simp
qed

text \<open>
  C35: Reserving a deposit and releasing it is a round trip on the owner's balances, as long as the
  owner keeps the existential deposit while the deposit is held.
\<close>

theorem reserve_unreserve_roundtrip:
  assumes "ledger_inv C l" "bal_config_ok C" "reserve C who v l = Inr l1" "unreserve C who v l1 = (r, l2)"
    and "existential_deposit C \<le> free_balance l who - v"
  shows "r = 0 \<and> ledger_inv C l2 \<and> free_balance l2 = free_balance l \<and> reserved_balance l2 = reserved_balance l"
proof -
  note R = ledger_reserve [OF assms(1-3)]
  then have inv1: "ledger_inv C l1" by simp
  note U = ledger_unreserve [OF inv1 assms(2,4)]
  have "bal_inv C (asset_refs l1) l1" using inv1 by (simp add: ledger_inv_def)
  from unreserve_ok [OF this assms(2,4)] have free: "free_balance l2 who = free_balance l1 who + v"
    using R assms(5) by (auto simp: free_balance_def reserved_balance_def)
  show ?thesis
  proof (intro conjI ext)
    fix c
    show "free_balance l2 c = free_balance l c" using R U free by (cases "c = who") auto
    show "reserved_balance l2 c = reserved_balance l c" using R U by (cases "c = who") auto
  qed (use R U in auto)
qed

theorem reserve_unreserve_roundtrip_witness:
  "\<exists>l1 r l2. reserve demo_balances 3 200 demo_ledger = Inr l1 \<and> unreserve demo_balances 3 200 l1 = (r, l2) \<and>
     r = 0 \<and> free_balance l2 3 = 500 \<and> reserved_balance l2 3 = 0"
proof -
  have "is_ok (reserve demo_balances 3 200 demo_ledger)" and f: "free_balance demo_ledger 3 = 500"
    and z: "reserved_balance demo_ledger 3 = 0"
    by code_simp+
  then obtain l1 where run: "reserve demo_balances 3 200 demo_ledger = Inr l1"
    by (auto simp: is_ok_def split: sum.splits)
  obtain r l2 where run2: "unreserve demo_balances 3 200 l1 = (r, l2)" by (metis surj_pair)
  from reserve_unreserve_roundtrip [OF demo_ledger_inv demo_balances_ok run run2] show ?thesis
    using run run2 f z by (simp add: demo_balances_def)
qed

text \<open>
  C36: The ledger of the runtime implements the payment contract that the crowdfunding and the asset
  pallets are verified against: every law of \<open>payments\<close> (balances after transfers, withdrawals,
  reserves and burns, in the native currency and in every asset, and their independence) holds of
  the detailed definitions.
\<close>

theorem ledger_refines_payments:
  assumes "bal_config_ok C"
  shows "payments (ledger_currencies C) (ledger_inv C) asset_room minimum_balance"
  by (rule payments_contract [OF assms])

theorem ledger_refines_payments_witness:
  "payments (ledger_currencies thx_balances) (ledger_inv thx_balances) asset_room minimum_balance"
  by (rule ledger_refines_payments) (rule thx_balances_ok)

text \<open>
  C37: A transfer of an asset between different accounts keeps the invariant, never touches native
  balances, and moves exactly the amount (up to dust below the minimum balance where the sender may
  die); the credit can only be lost where the counters of the asset are about to overflow, since
  the pallet ignores the result of the credit.
\<close>

theorem asset_transfer_exact:
  assumes "ledger_inv C l" "bal_config_ok C" "a \<noteq> b" "v \<noteq> 0" "assets_transfer C i a b v p l = Inr l'"
  shows "ledger_inv C l' \<and> v \<le> assets_balance l i a \<and>
    (asset_room l i \<longrightarrow> assets_balance l' i b = assets_balance l i b + v) \<and>
    (p \<noteq> Expendable \<longrightarrow> assets_balance l' i a = assets_balance l i a - v) \<and>
    (minimum_balance l i \<le> assets_balance l i a - v \<longrightarrow> assets_balance l' i a = assets_balance l i a - v) \<and>
    (\<forall>c. free_balance l' c = free_balance l c)"
  using assets_transfer_laws [OF assms(1,2,4,5)] assms(3) by (auto simp: free_balance_def)

theorem asset_transfer_exact_witness:
  "\<exists>l'. assets_transfer demo_balances 7 1 2 50 Preserve demo_ledger = Inr l' \<and>
     assets_balance l' 7 2 = 150 \<and> assets_balance l' 7 1 = 250"
proof -
  have "is_ok (assets_transfer demo_balances 7 1 2 50 Preserve demo_ledger)"
    "assets_balance demo_ledger 7 2 = 100" "assets_balance demo_ledger 7 1 = 300"
    and room: "asset_room demo_ledger 7" by code_simp+
  then obtain l' where run: "assets_transfer demo_balances 7 1 2 50 Preserve demo_ledger = Inr l'"
    by (auto simp: is_ok_def split: sum.splits)
  from asset_transfer_exact [OF demo_ledger_inv demo_balances_ok _ _ run] room show ?thesis
    using run \<open>assets_balance demo_ledger 7 2 = 100\<close> \<open>assets_balance demo_ledger 7 1 = 300\<close> by simp
qed

end
