(* ===== verification/Crowdfunding.thy ===== *)
theory Crowdfunding
  imports Accounts Arith128 Currency
begin

text \<open>
  The crowdfunding pallet (\<open>thxnet/leafchain/pallets/crowdfunding\<close>): its types, its storage, every
  dispatchable, the helpers and the read-only functions behind its runtime interface. The storage is
  the record \<open>cf_state\<close>, with the ledger as a field of an arbitrary type; the \<open>Config\<close> trait is the
  record \<open>cf_config\<close>, whose currency parameters are the record of the token interface. The hooks into
  other pallets (owner of an item, license verifier) are read at each call, so they are arguments of
  the dispatchables. A dispatchable returns the new state or the error that rolls the call back.
\<close>

section \<open>Types\<close>

record milestone =
  release_bps :: nat
  description_hash :: nat

datatype funding_model =
    AllOrNothing balance
  | KeepWhatYouRaise "balance option"
  | MilestoneBased balance "milestone list"

record campaign_config =
  funding_model :: funding_model
  funding_currency :: payment_currency
  deadline :: block_number
  hard_cap :: "balance option"
  min_investment :: "balance option"
  max_investment_per_investor :: "balance option"
  metadata_hash :: nat
  early_withdrawal_penalty_bps :: "nat option"

datatype eligibility_rule =
    NativeBalance balance
  | AssetBalance nat balance
  | NftOwnership "(nat \<times> nat) list list"
  | AccountWhitelist

datatype campaign_status =
    Funding | Succeeded | Failed | MilestonePhase | Completed | Cancelled | Paused

datatype milestone_status = Pending | Submitted | Approved | Rejected | Claimed

record campaign =
  creator :: account_id
  status :: campaign_status
  config :: campaign_config
  eligibility_rules :: "eligibility_rule list"
  total_raised :: balance
  total_disbursed :: balance
  investor_count :: nat
  creation_deposit :: balance
  created_at :: block_number
  paused_at :: "block_number option"
  rwa_asset_id :: "nat option"
  participation_id :: "nat option"
  protocol_fee_bps :: nat

record investment =
  total_invested :: balance
  total_withdrawn :: balance

record withdrawal_preview =
  gross_amount :: balance
  wp_penalty :: balance
  net_amount :: balance
  wp_penalty_bps :: nat

record campaign_summary_data =
  cs_status :: campaign_status
  cs_total_raised :: balance
  cs_goal :: "balance option"
  cs_hard_cap :: "balance option"
  cs_investor_count :: nat
  remaining_blocks :: "block_number option"
  funding_percentage_ppm :: nat
  milestones_completed :: "nat option"
  milestones_total :: "nat option"
  cs_rwa_asset_id :: "nat option"
  cs_participation_id :: "nat option"

datatype eligibility_error =
    EligibilityCampaignNotFound | InsufficientNativeBalance | InsufficientAssetBalance
  | NftOwnershipNotMet | NotWhitelisted

section \<open>Configuration, hooks and storage\<close>

record 'l cf_config =
  currency :: "'l currencies"
  admin_origin :: "origin \<Rightarrow> bool"
  force_origin :: "origin \<Rightarrow> bool"
  milestone_approver :: "origin \<Rightarrow> bool"
  cf_pallet_id :: "nat list"
  campaign_creation_deposit :: balance
  max_campaigns_per_creator :: nat
  min_campaign_duration :: block_number
  max_campaign_duration :: block_number
  default_penalty_bps :: nat
  max_milestones :: nat
  max_eligibility_rules :: nat
  max_nft_sets :: nat
  max_nfts_per_set :: nat
  max_investments_per_investor :: nat
  default_fee_bps :: nat
  default_fee_recipient :: account_id
  max_whitelist_size :: nat

record cf_hooks =
  nft_owner :: "nat \<Rightarrow> nat \<Rightarrow> account_id option"
  ensure_active_license :: "nat \<Rightarrow> nat \<Rightarrow> account_id \<Rightarrow> unit dispatch_result"
  is_license_active :: "nat \<Rightarrow> nat \<Rightarrow> bool"
  license_expiry :: "nat \<Rightarrow> nat \<Rightarrow> block_number option"

text \<open>The verifier for a runtime without licenses: the implementation for the unit type.\<close>

definition no_license :: "(nat \<Rightarrow> nat \<Rightarrow> account_id option) \<Rightarrow> cf_hooks" where
  "no_license owner =
    \<lparr>nft_owner = owner,
     ensure_active_license = (\<lambda>_ _ _. Inr ()),
     is_license_active = (\<lambda>_ _. True),
     license_expiry = (\<lambda>_ _. None)\<rparr>"

datatype cf_event =
    CampaignCreated nat account_id block_number
  | CampaignFinalized nat campaign_status
  | CampaignCancelled nat
  | CreationDepositClaimed nat account_id balance
  | Invested nat account_id balance
  | InvestmentWithdrawn nat account_id balance balance
  | RefundClaimed nat account_id balance
  | FundsClaimed nat account_id balance
  | MilestoneSubmitted nat nat
  | MilestoneApproved nat nat
  | MilestoneRejected nat nat
  | MilestoneFundsClaimed nat nat balance
  | DefaultEligibilitySet
  | ProtocolFeeCollected nat balance
  | CampaignPaused nat
  | CampaignResumed nat
  | HardCapReached nat
  | ProtocolConfigUpdated nat account_id
  | CampaignLicenseReported nat
  | CampaignForceFinalized nat campaign_status

record 'l cf_state =
  campaigns :: "(nat, campaign) fmap"
  next_campaign_id :: nat
  investments :: "(nat \<times> account_id, investment) fmap"
  milestone_statuses :: "(nat \<times> nat, milestone_status) fmap"
  default_eligibility_rules :: "eligibility_rule list"
  creator_campaigns :: "(account_id, nat list) fmap"
  investor_campaigns :: "(account_id, nat list) fmap"
  campaign_whitelist :: "(nat \<times> account_id, bool) fmap"
  campaign_whitelist_count :: "(nat, nat) fmap"
  protocol_fee_bps_override :: "nat option"
  protocol_fee_recipient_override :: "account_id option"
  cf_now :: block_number
  cf_ledger :: 'l
  cf_events :: "cf_event list"

definition default_investment :: investment where
  "default_investment = \<lparr>total_invested = 0, total_withdrawn = 0\<rparr>"

definition cf_event :: "cf_event \<Rightarrow> 'l cf_state \<Rightarrow> 'l cf_state" where
  "cf_event e s = s\<lparr>cf_events := cf_events s @ [e]\<rparr>"

definition put_campaign :: "nat \<Rightarrow> campaign \<Rightarrow> 'l cf_state \<Rightarrow> 'l cf_state" where
  "put_campaign cid c s = s\<lparr>campaigns := fmupd cid c (campaigns s)\<rparr>"

section \<open>Helpers\<close>

text \<open>
  \<open>do_finalize\<close>: the outcome of a campaign; a milestone campaign that met its goal gets a pending
  status for each milestone (the index is cast to 8 bits).
\<close>

definition do_finalize :: "nat \<Rightarrow> campaign \<Rightarrow> 'l cf_state \<Rightarrow> campaign_status \<times> 'l cf_state" where
  "do_finalize cid c s = (case funding_model (config c) of
     AllOrNothing goal \<Rightarrow> (if goal \<le> total_raised c then Succeeded else Failed, s)
   | KeepWhatYouRaise soft_cap \<Rightarrow>
       (case soft_cap of
          Some cap \<Rightarrow> if total_raised c < cap then Failed else Succeeded
        | None \<Rightarrow> Succeeded, s)
   | MilestoneBased goal milestones \<Rightarrow>
       (if goal \<le> total_raised c
        then (MilestonePhase,
              s\<lparr>milestone_statuses :=
                  fold (\<lambda>i. fmupd (cid, i mod 256) Pending) [0..<length milestones]
                    (milestone_statuses s)\<rparr>)
        else (Failed, s)))"

definition campaign_account :: "'l cf_config \<Rightarrow> nat \<Rightarrow> account_id" where
  "campaign_account T cid = into_sub_account_truncating (cf_pallet_id T) (encode_u32 cid)"

definition effective_protocol_fee_bps :: "'l cf_config \<Rightarrow> 'l cf_state \<Rightarrow> nat" where
  "effective_protocol_fee_bps T s =
    (case protocol_fee_bps_override s of Some b \<Rightarrow> b | None \<Rightarrow> default_fee_bps T)"

definition effective_protocol_fee_recipient :: "'l cf_config \<Rightarrow> 'l cf_state \<Rightarrow> account_id" where
  "effective_protocol_fee_recipient T s =
    (case protocol_fee_recipient_override s of Some r \<Rightarrow> r | None \<Rightarrow> default_fee_recipient T)"

definition do_transfer ::
  "'l cf_config \<Rightarrow> payment_currency \<Rightarrow> account_id \<Rightarrow> account_id \<Rightarrow> balance \<Rightarrow> existence_requirement \<Rightarrow>
     'l cf_state \<Rightarrow> ('l cf_state) dispatch_result" where
  "do_transfer T cur from to amount existence_req s =
    (if amount = 0 then Inr s
     else try_bind
       (case cur of
          Native \<Rightarrow> native_transfer (currency T) from to amount existence_req (cf_ledger s)
        | Asset aid \<Rightarrow>
            (let preservation = (if existence_req = KeepAlive then Preserve else Expendable) in
             fungibles_transfer (currency T) aid from to amount preservation (cf_ledger s)))
       (\<lambda>l. Inr (s\<lparr>cf_ledger := l\<rparr>)))"

definition do_burn ::
  "'l cf_config \<Rightarrow> payment_currency \<Rightarrow> account_id \<Rightarrow> balance \<Rightarrow> existence_requirement \<Rightarrow>
     'l cf_state \<Rightarrow> ('l cf_state) dispatch_result" where
  "do_burn T cur who amount existence_req s =
    (if amount = 0 then Inr s
     else try_bind
       (case cur of
          Native \<Rightarrow>
            try_bind (native_withdraw (currency T) who amount existence_req (cf_ledger s))
              (\<lambda>(imbalance, l). Inr (native_drop_imbalance (currency T) imbalance l))
        | Asset aid \<Rightarrow> fungibles_burn (currency T) aid who amount Expendable Exact (cf_ledger s))
       (\<lambda>l. Inr (s\<lparr>cf_ledger := l\<rparr>)))"

definition rule_passes ::
  "'l cf_config \<Rightarrow> cf_hooks \<Rightarrow> account_id \<Rightarrow> nat \<Rightarrow> 'l cf_state \<Rightarrow> eligibility_rule \<Rightarrow> bool" where
  "rule_passes T H who cid s rule = (case rule of
     NativeBalance min_balance \<Rightarrow> min_balance \<le> native_free (currency T) (cf_ledger s) who
   | AssetBalance aid min_balance \<Rightarrow> min_balance \<le> fungibles_balance (currency T) (cf_ledger s) aid who
   | NftOwnership required_sets \<Rightarrow>
       list_ex (list_all (\<lambda>(collection, item). nft_owner H collection item = Some who)) required_sets
   | AccountWhitelist \<Rightarrow> get_or False (campaign_whitelist s) (cid, who))"

fun check_rules ::
  "'l cf_config \<Rightarrow> cf_hooks \<Rightarrow> account_id \<Rightarrow> nat \<Rightarrow> 'l cf_state \<Rightarrow> eligibility_rule list \<Rightarrow> unit dispatch_result" where
  "check_rules T H who cid s [] = Inr ()"
| "check_rules T H who cid s (rule # rules) =
     ensure (rule_passes T H who cid s rule) (cf_err EligibilityCheckFailed)
       (check_rules T H who cid s rules)"

definition check_eligibility_inner ::
  "'l cf_config \<Rightarrow> cf_hooks \<Rightarrow> account_id \<Rightarrow> campaign \<Rightarrow> nat \<Rightarrow> 'l cf_state \<Rightarrow> unit dispatch_result" where
  "check_eligibility_inner T H who c cid s = check_rules T H who cid s (eligibility_rules c)"

definition bps_of :: "balance \<Rightarrow> nat \<Rightarrow> balance" where
  "bps_of amount bps =
    (let clamped = min bps 10000 in
     if clamped = 0 then 0
     else sat_add u128_max (sat_mul u128_max amount clamped) (10000 - 1) div 10000)"

definition remove_milestones :: "nat \<Rightarrow> campaign \<Rightarrow> 'l cf_state \<Rightarrow> 'l cf_state" where
  "remove_milestones cid c s = (case funding_model (config c) of
     MilestoneBased goal milestones \<Rightarrow>
       s\<lparr>milestone_statuses :=
           fold (\<lambda>i. fmdrop (cid, i)) [0..<length milestones mod 256] (milestone_statuses s)\<rparr>
   | _ \<Rightarrow> s)"

definition clear_whitelist :: "nat \<Rightarrow> 'l cf_state \<Rightarrow> 'l cf_state" where
  "clear_whitelist cid s =
    s\<lparr>campaign_whitelist := clear_prefix cid (campaign_whitelist s),
      campaign_whitelist_count := fmdrop cid (campaign_whitelist_count s)\<rparr>"

definition drop_investor_campaign :: "account_id \<Rightarrow> nat \<Rightarrow> 'l cf_state \<Rightarrow> 'l cf_state" where
  "drop_investor_campaign who cid s =
    s\<lparr>investor_campaigns := fmupd who (remove1 cid (get_or [] (investor_campaigns s) who)) (investor_campaigns s)\<rparr>"

section \<open>Dispatchables\<close>

text \<open>\<open>create_campaign\<close>, in four parts: the license, the schedule, the funding model, the rest.\<close>

definition check_license ::
  "cf_hooks \<Rightarrow> campaign_config \<Rightarrow> (nat \<times> nat) option \<Rightarrow> account_id \<Rightarrow> (nat option \<times> nat option) dispatch_result" where
  "check_license H cfg license who = (case license of
     Some (asset_id, part_id) \<Rightarrow>
       try_bind (map_err (\<lambda>_. cf_err LicenseNotActive) (ensure_active_license H asset_id part_id who)) (\<lambda>_.
       (case license_expiry H asset_id part_id of
          Some expiry \<Rightarrow>
            ensure (deadline cfg < expiry) (cf_err CampaignExceedsLicenseExpiry)
              (Inr (Some asset_id, Some part_id))
        | None \<Rightarrow> Inr (Some asset_id, Some part_id)))
   | None \<Rightarrow> Inr (None, None))"

definition check_schedule :: "'l cf_config \<Rightarrow> campaign_config \<Rightarrow> block_number \<Rightarrow> unit dispatch_result" where
  "check_schedule T cfg now =
    ensure (now < deadline cfg) (cf_err DeadlineInPast) (
    let duration = deadline cfg - now in
    ensure (min_campaign_duration T \<le> duration) (cf_err DurationTooShort) (
    ensure (duration \<le> max_campaign_duration T) (cf_err DurationTooLong) (
    case early_withdrawal_penalty_bps cfg of
      Some penalty_bps \<Rightarrow> ensure (penalty_bps \<le> 10000) (cf_err InvalidPenaltyBps) (Inr ())
    | None \<Rightarrow> Inr ())))"

definition check_funding_model :: "campaign_config \<Rightarrow> unit dispatch_result" where
  "check_funding_model cfg =
    try_bind
      (case funding_model cfg of
         AllOrNothing goal \<Rightarrow> ensure (goal \<noteq> 0) (cf_err InvalidFundingModel) (Inr ())
       | MilestoneBased goal milestones \<Rightarrow>
           ensure (goal \<noteq> 0) (cf_err InvalidFundingModel) (
           ensure (sum_list (map release_bps milestones) = 10000) (cf_err MilestoneBpsSumInvalid) (Inr ()))
       | KeepWhatYouRaise _ \<Rightarrow> Inr ()) (\<lambda>_.
    try_bind
      (case hard_cap cfg of
         Some cap \<Rightarrow>
           (case funding_model cfg of
              AllOrNothing goal \<Rightarrow> ensure (goal \<le> cap) (cf_err InvalidFundingModel) (Inr ())
            | MilestoneBased goal _ \<Rightarrow> ensure (goal \<le> cap) (cf_err InvalidFundingModel) (Inr ())
            | _ \<Rightarrow> Inr ())
       | None \<Rightarrow> Inr ()) (\<lambda>_.
    case (min_investment cfg, max_investment_per_investor cfg) of
      (Some mn, Some mx) \<Rightarrow> ensure (mn \<le> mx) (cf_err InvalidFundingModel) (Inr ())
    | _ \<Rightarrow> Inr ()))"

definition create_campaign ::
  "'l cf_config \<Rightarrow> cf_hooks \<Rightarrow> origin \<Rightarrow> campaign_config \<Rightarrow> eligibility_rule list option \<Rightarrow>
     (nat \<times> nat) option \<Rightarrow> 'l cf_state \<Rightarrow> ('l cf_state) dispatch_result" where
  "create_campaign T H org cfg custom_rules license s =
    ensure_signed org (\<lambda>who.
    try_bind (check_license H cfg license who) (\<lambda>(rwa_asset, part).
    let now = cf_now s in
    try_bind (check_schedule T cfg now) (\<lambda>_.
    try_bind (check_funding_model cfg) (\<lambda>_.
    ensure (length (get_or [] (creator_campaigns s) who) < max_campaigns_per_creator T)
      (cf_err MaxCampaignsPerCreatorReached) (
    let deposit = campaign_creation_deposit T in
    ensure (native_minimum (currency T) \<le> deposit) (cf_err InsufficientBalance) (
    let cid = next_campaign_id s in
    ok_or (checked_add u32_max cid 1) (cf_err CampaignIdOverflow) (\<lambda>next_id.
    let s1 = s\<lparr>next_campaign_id := next_id\<rparr>;
        sub_account = campaign_account T cid in
    try_bind (native_transfer (currency T) who sub_account deposit KeepAlive (cf_ledger s1)) (\<lambda>l.
    let s2 = s1\<lparr>cf_ledger := l\<rparr>;
        rules = (case custom_rules of Some rs \<Rightarrow> rs | None \<Rightarrow> default_eligibility_rules s2);
        c = \<lparr>creator = who, status = Funding, config = cfg, eligibility_rules = rules,
             total_raised = 0, total_disbursed = 0, investor_count = 0,
             creation_deposit = deposit, created_at = now, paused_at = None,
             rwa_asset_id = rwa_asset, participation_id = part,
             protocol_fee_bps = effective_protocol_fee_bps T s2\<rparr>;
        s3 = put_campaign cid c s2 in
    ok_or (try_push (max_campaigns_per_creator T) cid (get_or [] (creator_campaigns s3) who))
      (cf_err MaxCampaignsPerCreatorReached) (\<lambda>ids.
    Inr (cf_event (CampaignCreated cid who (deadline cfg))
      (s3\<lparr>creator_campaigns := fmupd who ids (creator_campaigns s3)\<rparr>)))))))))))"

definition cancel_campaign ::
  "'l cf_config \<Rightarrow> origin \<Rightarrow> nat \<Rightarrow> 'l cf_state \<Rightarrow> ('l cf_state) dispatch_result" where
  "cancel_campaign T org cid s =
    ensure_origin (force_origin T) org (
    ok_or (fmlookup (campaigns s) cid) (cf_err CampaignNotFound) (\<lambda>c.
    ensure (status c \<notin> {Cancelled, Completed, Succeeded}) (cf_err InvalidCampaignStatus) (
    let s1 = put_campaign cid (c\<lparr>status := Cancelled\<rparr>) (remove_milestones cid c s) in
    Inr (cf_event (CampaignCancelled cid) (clear_whitelist cid s1)))))"

definition set_default_eligibility ::
  "'l cf_config \<Rightarrow> origin \<Rightarrow> eligibility_rule list \<Rightarrow> 'l cf_state \<Rightarrow> ('l cf_state) dispatch_result" where
  "set_default_eligibility T org rules s =
    ensure_origin (admin_origin T) org
      (Inr (cf_event DefaultEligibilitySet (s\<lparr>default_eligibility_rules := rules\<rparr>)))"

definition invest ::
  "'l cf_config \<Rightarrow> cf_hooks \<Rightarrow> origin \<Rightarrow> nat \<Rightarrow> balance \<Rightarrow> 'l cf_state \<Rightarrow> ('l cf_state) dispatch_result" where
  "invest T H org cid amount s =
    ensure_signed org (\<lambda>who.
    ok_or (fmlookup (campaigns s) cid) (cf_err CampaignNotFound) (\<lambda>c.
    ensure (status c = Funding) (cf_err InvalidCampaignStatus) (
    ensure (cf_now s \<le> deadline (config c)) (cf_err DeadlinePassed) (
    ensure (amount \<noteq> 0) (cf_err InvestmentBelowMinimum) (
    try_bind (check_eligibility_inner T H who c cid s) (\<lambda>_.
    ensure (case min_investment (config c) of Some mn \<Rightarrow> mn \<le> amount | None \<Rightarrow> True)
      (cf_err InvestmentBelowMinimum) (
    ensure (case hard_cap (config c) of Some cap \<Rightarrow> add128 (total_raised c) amount \<le> cap | None \<Rightarrow> True)
      (cf_err HardCapExceeded) (
    let inv = get_or default_investment (investments s) (cid, who);
        current = total_invested inv - total_withdrawn inv in
    ensure (case max_investment_per_investor (config c) of Some mx \<Rightarrow> add128 current amount \<le> mx | None \<Rightarrow> True)
      (cf_err InvestmentExceedsMaxPerInvestor) (
    let is_new = (cid \<notin> set (get_or [] (investor_campaigns s) who)) in
    ensure (is_new \<longrightarrow> length (get_or [] (investor_campaigns s) who) < max_investments_per_investor T)
      (cf_err MaxInvestmentsPerInvestorReached) (
    try_bind (do_transfer T (funding_currency (config c)) who (campaign_account T cid) amount KeepAlive s) (\<lambda>s1.
    let inv' = inv\<lparr>total_invested := add128 (total_invested inv) amount\<rparr>;
        s2 = s1\<lparr>investments := fmupd (cid, who) inv' (investments s1)\<rparr>;
        upd = (\<lambda>c. c\<lparr>total_raised := add128 (total_raised c) amount,
                     investor_count := (if is_new then add32 (investor_count c) 1 else investor_count c)\<rparr>);
        hard_cap_reached = (case fmlookup (campaigns s2) cid of
            Some c \<Rightarrow> hard_cap (config c) = Some (total_raised (upd c)) | None \<Rightarrow> False);
        s3 = s2\<lparr>campaigns := fm_mutate cid upd (campaigns s2)\<rparr> in
    try_bind
      (if is_new
       then ok_or (try_push (max_investments_per_investor T) cid (get_or [] (investor_campaigns s3) who))
              (cf_err MaxInvestmentsPerInvestorReached)
              (\<lambda>ids. Inr (s3\<lparr>investor_campaigns := fmupd who ids (investor_campaigns s3)\<rparr>))
       else Inr s3) (\<lambda>s4.
    let s5 = (if hard_cap_reached then cf_event (HardCapReached cid) s4 else s4) in
    Inr (cf_event (Invested cid who amount) s5)))))))))))))"

definition withdraw_investment ::
  "'l cf_config \<Rightarrow> origin \<Rightarrow> nat \<Rightarrow> balance \<Rightarrow> 'l cf_state \<Rightarrow> ('l cf_state) dispatch_result" where
  "withdraw_investment T org cid amount s =
    ensure_signed org (\<lambda>who.
    ok_or (fmlookup (campaigns s) cid) (cf_err CampaignNotFound) (\<lambda>c.
    ensure (status c \<in> {Funding, Paused}) (cf_err InvalidCampaignStatus) (
    ensure (amount \<noteq> 0) (cf_err InsufficientInvestment) (
    ok_or (fmlookup (investments s) (cid, who)) (cf_err NoInvestmentFound) (\<lambda>inv.
    let current = total_invested inv - total_withdrawn inv in
    ensure (amount \<le> current) (cf_err InsufficientInvestment) (
    let penalty_bps = (case early_withdrawal_penalty_bps (config c) of
            Some b \<Rightarrow> b | None \<Rightarrow> default_penalty_bps T);
        penalty = bps_of amount penalty_bps;
        net = amount - penalty;
        sub_account = campaign_account T cid in
    try_bind (do_transfer T (funding_currency (config c)) sub_account who net AllowDeath s) (\<lambda>s1.
    try_bind (if penalty \<noteq> 0 then do_burn T (funding_currency (config c)) sub_account penalty AllowDeath s1
              else Inr s1) (\<lambda>s2.
    let inv' = inv\<lparr>total_withdrawn := add128 (total_withdrawn inv) amount\<rparr>;
        fully_withdrawn = (total_invested inv' = total_withdrawn inv');
        s3 = s2\<lparr>investments := fmupd (cid, who) inv' (investments s2)\<rparr>;
        s4 = (if fully_withdrawn then drop_investor_campaign who cid s3 else s3);
        s5 = s4\<lparr>campaigns := fm_mutate cid (\<lambda>c. c\<lparr>total_raised := total_raised c - amount,
                 investor_count := (if fully_withdrawn then investor_count c - 1 else investor_count c)\<rparr>)
                 (campaigns s4)\<rparr> in
    Inr (cf_event (InvestmentWithdrawn cid who net penalty) s5)))))))))"

text \<open>
  The refund of a record: the whole stake, or the part of it that is left after milestones were
  paid out.
\<close>

definition refund_of :: "campaign \<Rightarrow> investment \<Rightarrow> balance" where
  "refund_of c i =
    (let raw_refund = total_invested i - total_withdrawn i in
     if total_disbursed c \<noteq> 0 \<and> total_raised c \<noteq> 0
     then permill_mul (permill_ratio (total_raised c - total_disbursed c) (total_raised c)) raw_refund
     else raw_refund)"

definition claim_refund ::
  "'l cf_config \<Rightarrow> origin \<Rightarrow> nat \<Rightarrow> 'l cf_state \<Rightarrow> ('l cf_state) dispatch_result" where
  "claim_refund T org cid s =
    ensure_signed org (\<lambda>who.
    ok_or (fmlookup (campaigns s) cid) (cf_err CampaignNotFound) (\<lambda>c.
    ensure (status c \<in> {Failed, Cancelled}) (cf_err InvalidCampaignStatus) (
    ok_or (fmlookup (investments s) (cid, who)) (cf_err NoInvestmentFound) (\<lambda>inv.
    let raw_refund = total_invested inv - total_withdrawn inv in
    ensure (raw_refund \<noteq> 0) (cf_err NothingToRefund) (
    let refund = refund_of c inv in
    ensure (refund \<noteq> 0) (cf_err NothingToRefund) (
    try_bind (do_transfer T (funding_currency (config c)) (campaign_account T cid) who refund AllowDeath s) (\<lambda>s1.
    let s2 = drop_investor_campaign who cid (s1\<lparr>investments := fmdrop (cid, who) (investments s1)\<rparr>);
        s3 = s2\<lparr>campaigns := fm_mutate cid (\<lambda>c. c\<lparr>investor_count := investor_count c - 1\<rparr>) (campaigns s2)\<rparr> in
    Inr (cf_event (RefundClaimed cid who refund) s3))))))))"

definition finalize_campaign ::
  "'l cf_config \<Rightarrow> origin \<Rightarrow> nat \<Rightarrow> 'l cf_state \<Rightarrow> ('l cf_state) dispatch_result" where
  "finalize_campaign T org cid s =
    ensure_signed org (\<lambda>_.
    ok_or (fmlookup (campaigns s) cid) (cf_err CampaignNotFound) (\<lambda>c.
    ensure (status c = Funding) (cf_err InvalidCampaignStatus) (
    ensure (deadline (config c) < cf_now s) (cf_err CampaignStillFunding) (
    let (new_status, s1) = do_finalize cid c s in
    Inr (put_campaign cid (c\<lparr>status := new_status\<rparr>)
      (cf_event (CampaignFinalized cid new_status) s1))))))"

definition pay_out ::
  "'l cf_config \<Rightarrow> nat \<Rightarrow> campaign \<Rightarrow> account_id \<Rightarrow> balance \<Rightarrow> balance \<Rightarrow> 'l cf_state \<Rightarrow> ('l cf_state) dispatch_result" where
  "pay_out T cid c who fee creator_amount s =
    try_bind
      (if fee \<noteq> 0
       then try_bind (do_transfer T (funding_currency (config c)) (campaign_account T cid)
                        (effective_protocol_fee_recipient T s) fee AllowDeath s)
              (\<lambda>s1. Inr (cf_event (ProtocolFeeCollected cid fee) s1))
       else Inr s)
      (\<lambda>s1. do_transfer T (funding_currency (config c)) (campaign_account T cid) who creator_amount AllowDeath s1)"

definition claim_funds ::
  "'l cf_config \<Rightarrow> origin \<Rightarrow> nat \<Rightarrow> 'l cf_state \<Rightarrow> ('l cf_state) dispatch_result" where
  "claim_funds T org cid s =
    ensure_signed org (\<lambda>who.
    ok_or (fmlookup (campaigns s) cid) (cf_err CampaignNotFound) (\<lambda>c.
    ensure (creator c = who) (cf_err NotCampaignCreator) (
    ensure (status c = Succeeded) (cf_err InvalidCampaignStatus) (
    let claimable = total_raised c - total_disbursed c in
    ensure (claimable \<noteq> 0) (cf_err NothingToClaim) (
    let fee = bps_of claimable (protocol_fee_bps c);
        creator_amount = claimable - fee in
    try_bind (pay_out T cid c who fee creator_amount s) (\<lambda>s1.
    Inr (cf_event (FundsClaimed cid who creator_amount)
      (put_campaign cid (c\<lparr>total_disbursed := total_raised c, status := Completed\<rparr>) s1))))))))"

definition claim_creation_deposit ::
  "'l cf_config \<Rightarrow> origin \<Rightarrow> nat \<Rightarrow> 'l cf_state \<Rightarrow> ('l cf_state) dispatch_result" where
  "claim_creation_deposit T org cid s =
    ensure_signed org (\<lambda>who.
    ok_or (fmlookup (campaigns s) cid) (cf_err CampaignNotFound) (\<lambda>c.
    ensure (creator c = who) (cf_err NotCampaignCreator) (
    ensure (status c \<in> {Completed, Failed, Cancelled}) (cf_err InvalidCampaignStatus) (
    ensure (creation_deposit c \<noteq> 0) (cf_err AlreadyClaimed) (
    let deposit = creation_deposit c;
        existence_req = (case funding_currency (config c) of
            Asset _ \<Rightarrow> if 0 < investor_count c then KeepAlive else AllowDeath
          | _ \<Rightarrow> AllowDeath) in
    try_bind (native_transfer (currency T) (campaign_account T cid) who deposit existence_req (cf_ledger s)) (\<lambda>l.
    let s1 = put_campaign cid (c\<lparr>creation_deposit := 0\<rparr>) (s\<lparr>cf_ledger := l\<rparr>);
        s2 = s1\<lparr>creator_campaigns := fmupd who (remove1 cid (get_or [] (creator_campaigns s1) who)) (creator_campaigns s1)\<rparr> in
    Inr (cf_event (CreationDepositClaimed cid who deposit) (clear_whitelist cid s2))))))))"

definition submit_milestone ::
  "'l cf_config \<Rightarrow> origin \<Rightarrow> nat \<Rightarrow> nat \<Rightarrow> 'l cf_state \<Rightarrow> ('l cf_state) dispatch_result" where
  "submit_milestone T org cid index s =
    ensure_signed org (\<lambda>who.
    ok_or (fmlookup (campaigns s) cid) (cf_err CampaignNotFound) (\<lambda>c.
    ensure (creator c = who) (cf_err NotCampaignCreator) (
    ensure (status c = MilestonePhase) (cf_err InvalidCampaignStatus) (
    ok_or (fmlookup (milestone_statuses s) (cid, index)) (cf_err InvalidMilestoneIndex) (\<lambda>ms.
    ensure (ms \<in> {Pending, Rejected}) (cf_err InvalidMilestoneStatus) (
    Inr (cf_event (MilestoneSubmitted cid index)
      (s\<lparr>milestone_statuses := fmupd (cid, index) Submitted (milestone_statuses s)\<rparr>))))))))"

definition approve_milestone ::
  "'l cf_config \<Rightarrow> origin \<Rightarrow> nat \<Rightarrow> nat \<Rightarrow> 'l cf_state \<Rightarrow> ('l cf_state) dispatch_result" where
  "approve_milestone T org cid index s =
    ensure_origin (milestone_approver T) org (
    ok_or (fmlookup (campaigns s) cid) (cf_err CampaignNotFound) (\<lambda>c.
    ensure (status c = MilestonePhase) (cf_err InvalidCampaignStatus) (
    ok_or (fmlookup (milestone_statuses s) (cid, index)) (cf_err InvalidMilestoneIndex) (\<lambda>ms.
    ensure (ms = Submitted) (cf_err InvalidMilestoneStatus) (
    Inr (cf_event (MilestoneApproved cid index)
      (s\<lparr>milestone_statuses := fmupd (cid, index) Approved (milestone_statuses s)\<rparr>)))))))"

definition reject_milestone ::
  "'l cf_config \<Rightarrow> origin \<Rightarrow> nat \<Rightarrow> nat \<Rightarrow> 'l cf_state \<Rightarrow> ('l cf_state) dispatch_result" where
  "reject_milestone T org cid index s =
    ensure_origin (milestone_approver T) org (
    ok_or (fmlookup (campaigns s) cid) (cf_err CampaignNotFound) (\<lambda>c.
    ensure (status c = MilestonePhase) (cf_err InvalidCampaignStatus) (
    ok_or (fmlookup (milestone_statuses s) (cid, index)) (cf_err InvalidMilestoneIndex) (\<lambda>ms.
    ensure (ms = Submitted) (cf_err InvalidMilestoneStatus) (
    Inr (cf_event (MilestoneRejected cid index)
      (s\<lparr>milestone_statuses := fmupd (cid, index) Rejected (milestone_statuses s)\<rparr>)))))))"

definition claim_milestone_funds ::
  "'l cf_config \<Rightarrow> origin \<Rightarrow> nat \<Rightarrow> nat \<Rightarrow> 'l cf_state \<Rightarrow> ('l cf_state) dispatch_result" where
  "claim_milestone_funds T org cid index s =
    ensure_signed org (\<lambda>who.
    ok_or (fmlookup (campaigns s) cid) (cf_err CampaignNotFound) (\<lambda>c.
    ensure (creator c = who) (cf_err NotCampaignCreator) (
    ensure (status c = MilestonePhase) (cf_err InvalidCampaignStatus) (
    ok_or (fmlookup (milestone_statuses s) (cid, index)) (cf_err InvalidMilestoneIndex) (\<lambda>ms_status.
    ensure (ms_status = Approved) (cf_err InvalidMilestoneStatus) (
    try_bind
      (case funding_model (config c) of
         MilestoneBased _ milestones \<Rightarrow> Inr milestones
       | _ \<Rightarrow> Inl (cf_err InvalidFundingModel)) (\<lambda>milestones.
    ensure (index < length milestones) (cf_err InvalidMilestoneIndex) (
    let raw_release = bps_of (total_raised c) (release_bps (milestones ! index));
        remaining = total_raised c - total_disbursed c;
        release_amount = min raw_release remaining;
        fee = bps_of release_amount (protocol_fee_bps c);
        creator_amount = release_amount - fee in
    try_bind (pay_out T cid c who fee creator_amount s) (\<lambda>s1.
    let statuses = fmupd (cid, index) Claimed (milestone_statuses s1);
        all_claimed = list_all (\<lambda>i. fmlookup statuses (cid, i) = Some Claimed) [0..<length milestones mod 256];
        c' = c\<lparr>total_disbursed := add128 (total_disbursed c) release_amount,
               status := (if all_claimed then Completed else status c)\<rparr> in
    Inr (cf_event (MilestoneFundsClaimed cid index creator_amount)
      (put_campaign cid c' (s1\<lparr>milestone_statuses := statuses\<rparr>))))))))))))"

definition pause_campaign ::
  "'l cf_config \<Rightarrow> origin \<Rightarrow> nat \<Rightarrow> 'l cf_state \<Rightarrow> ('l cf_state) dispatch_result" where
  "pause_campaign T org cid s =
    ensure_origin (admin_origin T) org (
    ok_or (fmlookup (campaigns s) cid) (cf_err CampaignNotFound) (\<lambda>c.
    ensure (status c = Funding) (cf_err CampaignNotFunding) (
    Inr (cf_event (CampaignPaused cid)
      (put_campaign cid (c\<lparr>paused_at := Some (cf_now s), status := Paused\<rparr>) s)))))"

definition resume_campaign ::
  "'l cf_config \<Rightarrow> cf_hooks \<Rightarrow> origin \<Rightarrow> nat \<Rightarrow> 'l cf_state \<Rightarrow> ('l cf_state) dispatch_result" where
  "resume_campaign T H org cid s =
    ensure_origin (admin_origin T) org (
    ok_or (fmlookup (campaigns s) cid) (cf_err CampaignNotFound) (\<lambda>c.
    ensure (status c = Paused) (cf_err CampaignNotPaused) (
    let new_deadline = (case paused_at c of
            Some at \<Rightarrow> add32 (deadline (config c)) (cf_now s - at)
          | None \<Rightarrow> deadline (config c)) in
    ensure
      (case (rwa_asset_id c, participation_id c) of
         (Some asset_id, Some part_id) \<Rightarrow>
           (case license_expiry H asset_id part_id of
              Some expiry \<Rightarrow> new_deadline < expiry
            | None \<Rightarrow> True)
       | _ \<Rightarrow> True) (cf_err CampaignExceedsLicenseExpiry) (
    Inr (cf_event (CampaignResumed cid)
      (put_campaign cid (c\<lparr>config := (config c)\<lparr>deadline := new_deadline\<rparr>,
                           paused_at := None, status := Funding\<rparr>) s))))))"

definition add_to_whitelist ::
  "'l cf_config \<Rightarrow> origin \<Rightarrow> nat \<Rightarrow> account_id \<Rightarrow> 'l cf_state \<Rightarrow> ('l cf_state) dispatch_result" where
  "add_to_whitelist T org cid account s =
    ensure_signed org (\<lambda>who.
    ok_or (fmlookup (campaigns s) cid) (cf_err CampaignNotFound) (\<lambda>c.
    ensure (creator c = who) (cf_err NotCampaignCreator) (
    ensure (status c \<in> {Funding, Paused}) (cf_err InvalidCampaignStatus) (
    let count = get_or 0 (campaign_whitelist_count s) cid in
    try_bind
      (if \<not> get_or False (campaign_whitelist s) (cid, account)
       then ensure (count < max_whitelist_size T) (cf_err WhitelistFull)
              (Inr (s\<lparr>campaign_whitelist_count := fmupd cid (count + 1) (campaign_whitelist_count s)\<rparr>))
       else Inr s) (\<lambda>s1.
    Inr (s1\<lparr>campaign_whitelist := fmupd (cid, account) True (campaign_whitelist s1)\<rparr>))))))"

definition remove_from_whitelist ::
  "'l cf_config \<Rightarrow> origin \<Rightarrow> nat \<Rightarrow> account_id \<Rightarrow> 'l cf_state \<Rightarrow> ('l cf_state) dispatch_result" where
  "remove_from_whitelist T org cid account s =
    ensure_signed org (\<lambda>who.
    ok_or (fmlookup (campaigns s) cid) (cf_err CampaignNotFound) (\<lambda>c.
    ensure (creator c = who) (cf_err NotCampaignCreator) (
    ensure (status c \<in> {Funding, Paused}) (cf_err InvalidCampaignStatus) (
    let s1 = (if get_or False (campaign_whitelist s) (cid, account)
              then s\<lparr>campaign_whitelist_count :=
                       fmupd cid (get_or 0 (campaign_whitelist_count s) cid - 1) (campaign_whitelist_count s)\<rparr>
              else s) in
    Inr (s1\<lparr>campaign_whitelist := fmdrop (cid, account) (campaign_whitelist s1)\<rparr>)))))"

definition set_protocol_config ::
  "'l cf_config \<Rightarrow> origin \<Rightarrow> nat \<Rightarrow> account_id \<Rightarrow> 'l cf_state \<Rightarrow> ('l cf_state) dispatch_result" where
  "set_protocol_config T org new_fee_bps new_recipient s =
    ensure_origin (admin_origin T) org (
    ensure (new_fee_bps \<le> 10000) (cf_err InvalidFeeBps) (
    Inr (cf_event (ProtocolConfigUpdated new_fee_bps new_recipient)
      (s\<lparr>protocol_fee_bps_override := Some new_fee_bps,
         protocol_fee_recipient_override := Some new_recipient\<rparr>))))"

definition report_license_revoked ::
  "'l cf_config \<Rightarrow> cf_hooks \<Rightarrow> origin \<Rightarrow> nat \<Rightarrow> 'l cf_state \<Rightarrow> ('l cf_state) dispatch_result" where
  "report_license_revoked T H org cid s =
    ensure_signed org (\<lambda>_.
    ok_or (fmlookup (campaigns s) cid) (cf_err CampaignNotFound) (\<lambda>c.
    try_bind
      (case (rwa_asset_id c, participation_id c) of
         (Some a, Some p) \<Rightarrow> Inr (a, p)
       | _ \<Rightarrow> Inl (cf_err NoLinkedLicense)) (\<lambda>(asset_id, part_id).
    ensure (status c \<in> {Funding, Paused, MilestonePhase}) (cf_err InvalidCampaignStatus) (
    ensure (\<not> is_license_active H asset_id part_id) (cf_err LicenseNotActive) (
    let s1 = put_campaign cid (c\<lparr>status := Cancelled\<rparr>) (remove_milestones cid c s) in
    Inr (cf_event (CampaignCancelled cid) (cf_event (CampaignLicenseReported cid) (clear_whitelist cid s1))))))))"

definition force_finalize_campaign ::
  "'l cf_config \<Rightarrow> origin \<Rightarrow> nat \<Rightarrow> 'l cf_state \<Rightarrow> ('l cf_state) dispatch_result" where
  "force_finalize_campaign T org cid s =
    ensure_origin (force_origin T) org (
    ok_or (fmlookup (campaigns s) cid) (cf_err CampaignNotFound) (\<lambda>c.
    ensure (status c = Funding) (cf_err InvalidCampaignStatus) (
    let (new_status, s1) = do_finalize cid c s in
    Inr (put_campaign cid (c\<lparr>status := new_status\<rparr>)
      (cf_event (CampaignForceFinalized cid new_status) s1)))))"

section \<open>Calls\<close>

text \<open>The call enumeration that the \<open>pallet::call\<close> macro generates, and its dispatch.\<close>

datatype cf_call =
    CreateCampaign campaign_config "eligibility_rule list option" "(nat \<times> nat) option"
  | CancelCampaign nat
  | SetDefaultEligibility "eligibility_rule list"
  | Invest nat balance
  | WithdrawInvestment nat balance
  | ClaimRefund nat
  | FinalizeCampaign nat
  | ClaimFunds nat
  | ClaimCreationDeposit nat
  | SubmitMilestone nat nat
  | ApproveMilestone nat nat
  | RejectMilestone nat nat
  | ClaimMilestoneFunds nat nat
  | PauseCampaign nat
  | ResumeCampaign nat
  | AddToWhitelist nat account_id
  | RemoveFromWhitelist nat account_id
  | SetProtocolConfig nat account_id
  | ReportLicenseRevoked nat
  | ForceFinalizeCampaign nat

fun cf_dispatch ::
  "'l cf_config \<Rightarrow> cf_hooks \<Rightarrow> origin \<Rightarrow> cf_call \<Rightarrow> 'l cf_state \<Rightarrow> ('l cf_state) dispatch_result" where
  "cf_dispatch T H org (CreateCampaign cfg rules license) s = create_campaign T H org cfg rules license s"
| "cf_dispatch T H org (CancelCampaign cid) s = cancel_campaign T org cid s"
| "cf_dispatch T H org (SetDefaultEligibility rules) s = set_default_eligibility T org rules s"
| "cf_dispatch T H org (Invest cid amount) s = invest T H org cid amount s"
| "cf_dispatch T H org (WithdrawInvestment cid amount) s = withdraw_investment T org cid amount s"
| "cf_dispatch T H org (ClaimRefund cid) s = claim_refund T org cid s"
| "cf_dispatch T H org (FinalizeCampaign cid) s = finalize_campaign T org cid s"
| "cf_dispatch T H org (ClaimFunds cid) s = claim_funds T org cid s"
| "cf_dispatch T H org (ClaimCreationDeposit cid) s = claim_creation_deposit T org cid s"
| "cf_dispatch T H org (SubmitMilestone cid i) s = submit_milestone T org cid i s"
| "cf_dispatch T H org (ApproveMilestone cid i) s = approve_milestone T org cid i s"
| "cf_dispatch T H org (RejectMilestone cid i) s = reject_milestone T org cid i s"
| "cf_dispatch T H org (ClaimMilestoneFunds cid i) s = claim_milestone_funds T org cid i s"
| "cf_dispatch T H org (PauseCampaign cid) s = pause_campaign T org cid s"
| "cf_dispatch T H org (ResumeCampaign cid) s = resume_campaign T H org cid s"
| "cf_dispatch T H org (AddToWhitelist cid a) s = add_to_whitelist T org cid a s"
| "cf_dispatch T H org (RemoveFromWhitelist cid a) s = remove_from_whitelist T org cid a s"
| "cf_dispatch T H org (SetProtocolConfig bps r) s = set_protocol_config T org bps r s"
| "cf_dispatch T H org (ReportLicenseRevoked cid) s = report_license_revoked T H org cid s"
| "cf_dispatch T H org (ForceFinalizeCampaign cid) s = force_finalize_campaign T org cid s"

section \<open>Read-only functions\<close>

text \<open>
  \<open>do_try_state\<close>: the consistency checks of the pallet, in their order, with the messages of the
  source. The number of campaigns and of investors is cast to 32 bits.
\<close>

definition active_in :: "nat \<Rightarrow> nat \<times> account_id \<Rightarrow> investment \<Rightarrow> bool" where
  "active_in cid k i = (fst k = cid \<and> total_withdrawn i < total_invested i)"

definition do_try_state :: "'l cf_state \<Rightarrow> string + unit" where
  "do_try_state s =
    ensure (fcard (fmdom (campaigns s)) mod (u32_max + 1) \<le> next_campaign_id s)
      ''NextCampaignId is less than the number of campaigns'' (
    ensure (fmpred (\<lambda>_ c. total_disbursed c \<le> total_raised c) (campaigns s))
      ''Campaign total_disbursed exceeds total_raised'' (
    ensure (fmpred (\<lambda>_ i. total_withdrawn i \<le> total_invested i) (investments s))
      ''Investment total_withdrawn exceeds total_invested'' (
    ensure (fmpred (\<lambda>_ ids. list_all (contains_key (campaigns s)) ids) (creator_campaigns s))
      ''CreatorCampaigns references non-existent campaign'' (
    ensure (fmpred (\<lambda>_ ids. list_all (contains_key (campaigns s)) ids) (investor_campaigns s))
      ''InvestorCampaigns references non-existent campaign'' (
    ensure (fmpred (\<lambda>cid c. status c \<in> {Failed, Cancelled, Completed} \<or>
              investor_count c = fmcount (active_in cid) (investments s) mod (u32_max + 1)) (campaigns s))
      ''Campaign investor_count inconsistent with Investments'' (
    ensure (fmpred (\<lambda>(cid, _) _. contains_key (campaigns s) cid) (campaign_whitelist s))
      ''CampaignWhitelist references non-existent campaign'' (
    ensure (fmpred (\<lambda>(cid, _) _. contains_key (campaigns s) cid) (milestone_statuses s))
      ''MilestoneStatuses references non-existent campaign'' (
    ensure (fmpred (\<lambda>(cid, _) _. case fmlookup (campaigns s) cid of
              Some c \<Rightarrow> status c \<in> {MilestonePhase, Completed} | None \<Rightarrow> False) (milestone_statuses s))
      ''MilestoneStatuses exists for campaign not in MilestonePhase/Completed''
      (Inr ())))))))))"

text \<open>
  \<open>check_eligibility\<close> maps a failed check back to the first rule that fails, with tests of its own.
\<close>

definition rule_passes_again ::
  "'l cf_config \<Rightarrow> cf_hooks \<Rightarrow> account_id \<Rightarrow> nat \<Rightarrow> 'l cf_state \<Rightarrow> eligibility_rule \<Rightarrow> bool" where
  "rule_passes_again T H who cid s rule = (case rule of
     NativeBalance min_balance \<Rightarrow> min_balance \<le> native_free (currency T) (cf_ledger s) who
   | AssetBalance aid min_balance \<Rightarrow> min_balance \<le> fungibles_balance (currency T) (cf_ledger s) aid who
   | NftOwnership required_sets \<Rightarrow>
       list_all (list_ex (\<lambda>(collection, item). nft_owner H collection item = Some who)) required_sets
   | AccountWhitelist \<Rightarrow> contains_key (campaign_whitelist s) (cid, who))"

fun rule_error :: "eligibility_rule \<Rightarrow> eligibility_error" where
  "rule_error (NativeBalance _) = InsufficientNativeBalance"
| "rule_error (AssetBalance _ _) = InsufficientAssetBalance"
| "rule_error (NftOwnership _) = NftOwnershipNotMet"
| "rule_error AccountWhitelist = NotWhitelisted"

fun first_failing ::
  "'l cf_config \<Rightarrow> cf_hooks \<Rightarrow> account_id \<Rightarrow> nat \<Rightarrow> 'l cf_state \<Rightarrow> eligibility_rule list \<Rightarrow> eligibility_error" where
  "first_failing T H who cid s [] = EligibilityCampaignNotFound"
| "first_failing T H who cid s (rule # rules) =
     (if rule_passes_again T H who cid s rule then first_failing T H who cid s rules else rule_error rule)"

definition check_eligibility ::
  "'l cf_config \<Rightarrow> cf_hooks \<Rightarrow> nat \<Rightarrow> account_id \<Rightarrow> 'l cf_state \<Rightarrow> eligibility_error + unit" where
  "check_eligibility T H cid who s =
    ok_or (fmlookup (campaigns s) cid) EligibilityCampaignNotFound (\<lambda>c.
    map_err (\<lambda>_. first_failing T H who cid s (eligibility_rules c))
      (check_eligibility_inner T H who c cid s))"

definition preview_withdrawal ::
  "'l cf_config \<Rightarrow> nat \<Rightarrow> account_id \<Rightarrow> balance \<Rightarrow> 'l cf_state \<Rightarrow> withdrawal_preview option" where
  "preview_withdrawal T cid who amount s =
    (case fmlookup (campaigns s) cid of None \<Rightarrow> None | Some c \<Rightarrow>
    (case fmlookup (investments s) (cid, who) of None \<Rightarrow> None | Some i \<Rightarrow>
     if total_invested i - total_withdrawn i < amount \<or> amount = 0 then None
     else
       let penalty_bps = (if status c = Funding
             then (case early_withdrawal_penalty_bps (config c) of Some b \<Rightarrow> b | None \<Rightarrow> default_penalty_bps T)
             else 0);
           penalty = (if 0 < penalty_bps
             then sat_add u128_max (sat_mul u128_max amount penalty_bps) 9999 div 10000 else 0) in
       Some \<lparr>gross_amount = amount, wp_penalty = penalty, net_amount = amount - penalty,
             wp_penalty_bps = penalty_bps\<rparr>))"

definition campaign_summary :: "nat \<Rightarrow> 'l cf_state \<Rightarrow> campaign_summary_data option" where
  "campaign_summary cid s =
    (case fmlookup (campaigns s) cid of None \<Rightarrow> None | Some c \<Rightarrow>
     let now = cf_now s;
         goal = (case funding_model (config c) of
             AllOrNothing g \<Rightarrow> Some g | MilestoneBased g _ \<Rightarrow> Some g | KeepWhatYouRaise _ \<Rightarrow> None);
         remaining = (if now < deadline (config c) then Some (deadline (config c) - now) else None);
         ppm = (case goal of
             Some g \<Rightarrow> if g \<noteq> 0 then permill_ratio (total_raised c) g else 0
           | None \<Rightarrow> 0);
         counts = (case funding_model (config c) of
             MilestoneBased _ milestones \<Rightarrow>
               (let tot = length milestones mod 256;
                    completed = length (filter (\<lambda>i. fmlookup (milestone_statuses s) (cid, i) = Some Claimed) [0..<tot])
                in (Some completed, Some tot))
           | _ \<Rightarrow> (None, None)) in
     Some \<lparr>cs_status = status c, cs_total_raised = total_raised c, cs_goal = goal,
           cs_hard_cap = hard_cap (config c), cs_investor_count = investor_count c,
           remaining_blocks = remaining, funding_percentage_ppm = ppm,
           milestones_completed = fst counts, milestones_total = snd counts,
           cs_rwa_asset_id = rwa_asset_id c, cs_participation_id = participation_id c\<rparr>)"

definition campaigns_by_creator :: "account_id \<Rightarrow> 'l cf_state \<Rightarrow> nat list" where
  "campaigns_by_creator who s = get_or [] (creator_campaigns s) who"

definition campaigns_by_investor :: "account_id \<Rightarrow> 'l cf_state \<Rightarrow> nat list" where
  "campaigns_by_investor who s = get_or [] (investor_campaigns s) who"

definition get_investment :: "nat \<Rightarrow> account_id \<Rightarrow> 'l cf_state \<Rightarrow> investment option" where
  "get_investment cid who s = fmlookup (investments s) (cid, who)"

definition get_protocol_config :: "'l cf_config \<Rightarrow> 'l cf_state \<Rightarrow> nat \<times> account_id" where
  "get_protocol_config T s = (effective_protocol_fee_bps T s, effective_protocol_fee_recipient T s)"

end
