(* ===== verification/Crowdfunding_Inv.thy ===== *)
theory Crowdfunding_Inv
  imports Crowdfunding
begin

text \<open>
  The state invariant of the crowdfunding pallet and its preservation by every dispatchable. The
  invariant contains the consistency checks of \<open>do_try_state\<close> and strengthens them: the recorded
  totals are the sums over the investor records, the investor lists mirror the records, and the
  whitelist counters are exact.
\<close>

section \<open>The invariant\<close>

definition staked :: "(nat \<times> account_id, investment) fmap \<Rightarrow> nat \<Rightarrow> nat" where
  "staked ivs cid = fmsum (\<lambda>k i. if fst k = cid then total_invested i - total_withdrawn i else 0) ivs"

definition active :: "(nat \<times> account_id, investment) fmap \<Rightarrow> nat \<Rightarrow> nat" where
  "active ivs cid = fmcount (active_in cid) ivs"

definition milestones_of :: "campaign \<Rightarrow> milestone list" where
  "milestones_of c = (case funding_model (config c) of MilestoneBased _ ms \<Rightarrow> ms | _ \<Rightarrow> [])"

definition is_milestone_based :: "campaign \<Rightarrow> bool" where
  "is_milestone_based c = (case funding_model (config c) of MilestoneBased _ _ \<Rightarrow> True | _ \<Rightarrow> False)"

definition released :: "(nat \<times> nat, milestone_status) fmap \<Rightarrow> nat \<Rightarrow> campaign \<Rightarrow> nat" where
  "released mss cid c =
    (\<Sum>i<length (milestones_of c). if fmlookup mss (cid, i) = Some Claimed
       then bps_of (total_raised c) (release_bps (milestones_of c ! i)) else 0)"

definition config_typed :: "'l cf_config \<Rightarrow> campaign_config \<Rightarrow> bool" where
  "config_typed T cfg = (case funding_model cfg of
     MilestoneBased _ ms \<Rightarrow> length ms \<le> max_milestones T | _ \<Rightarrow> True)"

definition cf_config_ok :: "'l cf_config \<Rightarrow> bool" where
  "cf_config_ok T = (max_milestones T \<le> 255 \<and> pallet_id_ok (cf_pallet_id T))"

definition camp_inv ::
  "'l cf_config \<Rightarrow> (nat \<times> account_id, investment) fmap \<Rightarrow> (nat \<times> nat, milestone_status) fmap \<Rightarrow>
     nat \<Rightarrow> campaign \<Rightarrow> bool" where
  "camp_inv T ivs mss cid c =
    (total_disbursed c \<le> total_raised c \<and> total_raised c \<le> u128_max \<and>
     length (milestones_of c) \<le> 255 \<and>
     (is_milestone_based c \<longrightarrow> sum_list (map release_bps (milestones_of c)) = 10000) \<and>
     (\<forall>cap. hard_cap (config c) = Some cap \<longrightarrow> total_raised c \<le> cap) \<and>
     investor_count c = active ivs cid \<and> investor_count c \<le> u32_max \<and>
     staked ivs cid \<le> total_raised c \<and>
     (status c \<notin> {Failed, Cancelled} \<longrightarrow> staked ivs cid = total_raised c) \<and>
     (status c \<in> {Funding, Paused, Succeeded, Failed} \<longrightarrow> total_disbursed c = 0) \<and>
     (status c \<notin> {Completed, Failed, Cancelled} \<or> creation_deposit c \<noteq> 0 \<longrightarrow>
        native_minimum (currency T) \<le> creation_deposit c) \<and>
     (status c = Paused \<longrightarrow> paused_at c \<noteq> None) \<and>
     (status c = Succeeded \<longrightarrow> \<not> is_milestone_based c) \<and>
     (status c = MilestonePhase \<longrightarrow> is_milestone_based c \<and>
        (\<forall>i<length (milestones_of c). fmlookup mss (cid, i) \<noteq> None)) \<and>
     (status c \<in> {MilestonePhase, Completed} \<and> is_milestone_based c \<longrightarrow>
        total_disbursed c = min (total_raised c) (released mss cid c)) \<and>
     (status c = Completed \<and> is_milestone_based c \<longrightarrow>
        (\<forall>i<length (milestones_of c). fmlookup mss (cid, i) = Some Claimed)) \<and>
     (status c = Completed \<and> \<not> is_milestone_based c \<longrightarrow> total_disbursed c = total_raised c))"

definition ids_inv :: "(nat, campaign) fmap \<Rightarrow> nat \<Rightarrow> bool" where
  "ids_inv cs next_id = ((\<forall>cid. contains_key cs cid \<longrightarrow> cid < next_id) \<and> next_id \<le> u32_max)"

definition investments_inv :: "(nat, campaign) fmap \<Rightarrow> (nat \<times> account_id, investment) fmap \<Rightarrow> bool" where
  "investments_inv cs ivs =
    (\<forall>cid who i. fmlookup ivs (cid, who) = Some i \<longrightarrow>
       contains_key cs cid \<and> total_withdrawn i \<le> total_invested i \<and> total_invested i \<le> u128_max)"

definition creators_inv :: "'l cf_config \<Rightarrow> (nat, campaign) fmap \<Rightarrow> (account_id, nat list) fmap \<Rightarrow> bool" where
  "creators_inv T cs crs =
    (\<forall>who. distinct (get_or [] crs who) \<and> length (get_or [] crs who) \<le> max_campaigns_per_creator T \<and>
       (\<forall>cid\<in>set (get_or [] crs who). \<exists>c. fmlookup cs cid = Some c \<and> creator c = who))"

definition investors_inv ::
  "'l cf_config \<Rightarrow> (nat \<times> account_id, investment) fmap \<Rightarrow> (account_id, nat list) fmap \<Rightarrow> bool" where
  "investors_inv T ivs ics =
    (\<forall>who. distinct (get_or [] ics who) \<and> length (get_or [] ics who) \<le> max_investments_per_investor T \<and>
       (\<forall>cid. cid \<in> set (get_or [] ics who) \<longleftrightarrow>
          (\<exists>i. fmlookup ivs (cid, who) = Some i \<and> total_withdrawn i < total_invested i)))"

definition whitelist_inv ::
  "'l cf_config \<Rightarrow> (nat, campaign) fmap \<Rightarrow> (nat \<times> account_id, bool) fmap \<Rightarrow> (nat, nat) fmap \<Rightarrow> bool" where
  "whitelist_inv T cs wl wlc =
    ((\<forall>cid a v. fmlookup wl (cid, a) = Some v \<longrightarrow> v \<and> contains_key cs cid) \<and>
     (\<forall>cid. get_or 0 wlc cid = fmcount (\<lambda>k _. fst k = cid) wl \<and>
       fmcount (\<lambda>k _. fst k = cid) wl \<le> max_whitelist_size T))"

definition milestones_inv :: "(nat, campaign) fmap \<Rightarrow> (nat \<times> nat, milestone_status) fmap \<Rightarrow> bool" where
  "milestones_inv cs mss =
    (\<forall>cid i m. fmlookup mss (cid, i) = Some m \<longrightarrow>
       (\<exists>c. fmlookup cs cid = Some c \<and> status c \<in> {MilestonePhase, Completed} \<and>
            is_milestone_based c \<and> i < length (milestones_of c)))"

definition cf_inv :: "'l cf_config \<Rightarrow> 'l cf_state \<Rightarrow> bool" where
  "cf_inv T s =
    ((\<forall>cid c. fmlookup (campaigns s) cid = Some c \<longrightarrow> camp_inv T (investments s) (milestone_statuses s) cid c) \<and>
     ids_inv (campaigns s) (next_campaign_id s) \<and>
     investments_inv (campaigns s) (investments s) \<and>
     creators_inv T (campaigns s) (creator_campaigns s) \<and>
     investors_inv T (investments s) (investor_campaigns s) \<and>
     whitelist_inv T (campaigns s) (campaign_whitelist s) (campaign_whitelist_count s) \<and>
     milestones_inv (campaigns s) (milestone_statuses s))"

text \<open>
  The bounds under which the saturating counters of an investment are exact: the amounts that an
  investor has put in over the life of a campaign fit the balance type, and a campaign has fewer
  than \<open>2\<^sup>32 - 1\<close> investors at a time.
\<close>

definition invest_fits :: "nat \<Rightarrow> account_id \<Rightarrow> balance \<Rightarrow> 'l cf_state \<Rightarrow> bool" where
  "invest_fits cid who amount s = (case fmlookup (campaigns s) cid of
     None \<Rightarrow> True
   | Some c \<Rightarrow> total_raised c + amount \<le> u128_max \<and> investor_count c < u32_max \<and>
       opt_nat total_invested (fmlookup (investments s) (cid, who)) + amount \<le> u128_max)"

definition call_fits :: "'l cf_config \<Rightarrow> origin \<Rightarrow> cf_call \<Rightarrow> 'l cf_state \<Rightarrow> bool" where
  "call_fits T org call s = (case call of
     CreateCampaign cfg _ _ \<Rightarrow> config_typed T cfg
   | Invest cid amount \<Rightarrow> (case org of Signed who \<Rightarrow> invest_fits cid who amount s | _ \<Rightarrow> True)
   | _ \<Rightarrow> True)"

definition cf_init :: "block_number \<Rightarrow> 'l \<Rightarrow> 'l cf_state" where
  "cf_init now l =
    \<lparr>campaigns = fmempty, next_campaign_id = 0, investments = fmempty, milestone_statuses = fmempty,
     default_eligibility_rules = [], creator_campaigns = fmempty, investor_campaigns = fmempty,
     campaign_whitelist = fmempty, campaign_whitelist_count = fmempty,
     protocol_fee_bps_override = None, protocol_fee_recipient_override = None,
     cf_now = now, cf_ledger = l, cf_events = []\<rparr>"

lemma cf_init_inv: "cf_inv T (cf_init now l)"
  by (simp add: cf_inv_def cf_init_def ids_inv_def investments_inv_def creators_inv_def
      investors_inv_def whitelist_inv_def milestones_inv_def)

section \<open>Basis points\<close>

lemma bps_of_le [simp]: "bps_of amount bps \<le> amount"
proof -
  define b where "b = min bps 10000"
  have "sat_add u128_max (sat_mul u128_max amount b) 9999 \<le> amount * b + 9999"
    by (simp add: sat_add_def sat_mul_def)
  also have "\<dots> \<le> amount * 10000 + 9999" by (simp add: b_def)
  finally have "sat_add u128_max (sat_mul u128_max amount b) 9999 div 10000 \<le> (9999 + amount * 10000) div 10000"
    by (intro div_le_mono) simp
  also have "\<dots> = amount" by (subst div_mult_self1) simp_all
  finally show ?thesis by (simp add: bps_of_def b_def Let_def)
qed

lemma bps_of_exact:
  assumes "amount * 10000 + 9999 \<le> u128_max" "bps \<le> 10000"
  shows "bps_of amount bps = (amount * bps + 9999) div 10000"
proof (cases "bps = 0")
  case False
  have "amount * bps \<le> amount * 10000" using assms(2) by simp
  with assms(1) have "amount * bps + 9999 \<le> u128_max" by linarith
  with assms(2) False show ?thesis by (simp add: bps_of_def Let_def min_def)
qed (simp add: bps_of_def)

lemma bps_of_ge: "\<lbrakk>amount * 10000 + 9999 \<le> u128_max; bps \<le> 10000\<rbrakk> \<Longrightarrow> amount * bps \<le> 10000 * bps_of amount bps"
  by (simp add: bps_of_exact)

lemma bps_of_pos: "\<lbrakk>0 < amount; 0 < bps\<rbrakk> \<Longrightarrow> 0 < bps_of amount bps"
proof -
  assume a: "0 < amount" "0 < bps"
  then have "1 \<le> sat_mul u128_max amount (min bps 10000)" by (simp add: sat_mul_def u128_max_def Suc_le_eq)
  then have "10000 \<le> sat_add u128_max (sat_mul u128_max amount (min bps 10000)) 9999"
    by (simp add: sat_add_def u128_max_def)
  with a show ?thesis by (simp add: bps_of_def Let_def div_greater_zero_iff)
qed

section \<open>Sums over the investor records\<close>

lemma staked_cong: "(\<And>who. fmlookup ivs' (cid, who) = fmlookup ivs (cid, who)) \<Longrightarrow> staked ivs' cid = staked ivs cid"
  unfolding staked_def by (rule fmsum_eqI) (auto simp: opt_nat_def split: option.splits)

lemma active_cong: "(\<And>who. fmlookup ivs' (cid, who) = fmlookup ivs (cid, who)) \<Longrightarrow> active ivs' cid = active ivs cid"
  unfolding active_def fmcount_def active_in_def by (rule fmsum_eqI) (auto simp: opt_nat_def split: option.splits)

lemma staked_upd:
  "staked (fmupd (cid, who) i ivs) cid
     + opt_nat (\<lambda>i. total_invested i - total_withdrawn i) (fmlookup ivs (cid, who))
   = staked ivs cid + (total_invested i - total_withdrawn i)"
  unfolding staked_def
  using fmsum_upd [of "\<lambda>k i. if fst k = cid then total_invested i - total_withdrawn i else 0" "(cid, who)" i ivs]
  by simp

lemma staked_drop:
  "staked (fmdrop (cid, who) ivs) cid
     + opt_nat (\<lambda>i. total_invested i - total_withdrawn i) (fmlookup ivs (cid, who)) = staked ivs cid"
  unfolding staked_def
  using fmsum_drop [of "\<lambda>k i. if fst k = cid then total_invested i - total_withdrawn i else 0" "(cid, who)" ivs]
  by simp

lemma staked_ge: "fmlookup ivs (cid, who) = Some i \<Longrightarrow> total_invested i - total_withdrawn i \<le> staked ivs cid"
  unfolding staked_def
  using fmsum_ge [of ivs "(cid, who)" i "\<lambda>k i. if fst k = cid then total_invested i - total_withdrawn i else 0"]
  by simp

lemma active_upd:
  "active (fmupd (cid, who) i ivs) cid
     + (if \<exists>j. fmlookup ivs (cid, who) = Some j \<and> total_withdrawn j < total_invested j then 1 else 0)
   = active ivs cid + (if total_withdrawn i < total_invested i then 1 else 0)"
  using fmcount_upd [of "active_in cid" "(cid, who)" i ivs] by (simp add: active_def active_in_def)

lemma active_drop:
  "active (fmdrop (cid, who) ivs) cid
     + (if \<exists>j. fmlookup ivs (cid, who) = Some j \<and> total_withdrawn j < total_invested j then 1 else 0)
   = active ivs cid"
  using fmcount_drop [of "active_in cid" "(cid, who)" ivs] by (simp add: active_def active_in_def)

lemma sums_empty:
  assumes "\<And>who. fmlookup ivs (cid, who) = None"
  shows "staked ivs cid = 0" "active ivs cid = 0"
  using assms
  by (auto simp: staked_def active_def fmcount_def fmsum_zero_iff active_in_def)

section \<open>Frames\<close>

lemma camp_inv_frame:
  assumes "camp_inv T ivs mss cid c" "staked ivs' cid = staked ivs cid" "active ivs' cid = active ivs cid"
    and "\<And>i. fmlookup mss' (cid, i) = fmlookup mss (cid, i)"
  shows "camp_inv T ivs' mss' cid c"
proof -
  have "released mss' cid c = released mss cid c" using assms(4) by (simp add: released_def)
  with assms show ?thesis by (simp add: camp_inv_def)
qed

lemma cf_event_simps [simp]:
  "campaigns (cf_event e s) = campaigns s"
  "next_campaign_id (cf_event e s) = next_campaign_id s"
  "investments (cf_event e s) = investments s"
  "milestone_statuses (cf_event e s) = milestone_statuses s"
  "default_eligibility_rules (cf_event e s) = default_eligibility_rules s"
  "creator_campaigns (cf_event e s) = creator_campaigns s"
  "investor_campaigns (cf_event e s) = investor_campaigns s"
  "campaign_whitelist (cf_event e s) = campaign_whitelist s"
  "campaign_whitelist_count (cf_event e s) = campaign_whitelist_count s"
  "cf_ledger (cf_event e s) = cf_ledger s"
  "cf_now (cf_event e s) = cf_now s"
  by (simp_all add: cf_event_def)

lemma put_campaign_simps [simp]:
  "campaigns (put_campaign cid c s) = fmupd cid c (campaigns s)"
  "next_campaign_id (put_campaign cid c s) = next_campaign_id s"
  "investments (put_campaign cid c s) = investments s"
  "milestone_statuses (put_campaign cid c s) = milestone_statuses s"
  "creator_campaigns (put_campaign cid c s) = creator_campaigns s"
  "investor_campaigns (put_campaign cid c s) = investor_campaigns s"
  "campaign_whitelist (put_campaign cid c s) = campaign_whitelist s"
  "campaign_whitelist_count (put_campaign cid c s) = campaign_whitelist_count s"
  "cf_ledger (put_campaign cid c s) = cf_ledger s"
  "cf_now (put_campaign cid c s) = cf_now s"
  by (simp_all add: put_campaign_def)

lemma clear_whitelist_simps [simp]:
  "campaigns (clear_whitelist cid s) = campaigns s"
  "next_campaign_id (clear_whitelist cid s) = next_campaign_id s"
  "investments (clear_whitelist cid s) = investments s"
  "milestone_statuses (clear_whitelist cid s) = milestone_statuses s"
  "creator_campaigns (clear_whitelist cid s) = creator_campaigns s"
  "investor_campaigns (clear_whitelist cid s) = investor_campaigns s"
  "campaign_whitelist (clear_whitelist cid s) = clear_prefix cid (campaign_whitelist s)"
  "campaign_whitelist_count (clear_whitelist cid s) = fmdrop cid (campaign_whitelist_count s)"
  "cf_ledger (clear_whitelist cid s) = cf_ledger s"
  by (simp_all add: clear_whitelist_def)

lemma drop_investor_campaign_simps [simp]:
  "campaigns (drop_investor_campaign who cid s) = campaigns s"
  "next_campaign_id (drop_investor_campaign who cid s) = next_campaign_id s"
  "investments (drop_investor_campaign who cid s) = investments s"
  "milestone_statuses (drop_investor_campaign who cid s) = milestone_statuses s"
  "creator_campaigns (drop_investor_campaign who cid s) = creator_campaigns s"
  "campaign_whitelist (drop_investor_campaign who cid s) = campaign_whitelist s"
  "campaign_whitelist_count (drop_investor_campaign who cid s) = campaign_whitelist_count s"
  "cf_ledger (drop_investor_campaign who cid s) = cf_ledger s"
  "investor_campaigns (drop_investor_campaign who cid s) =
     fmupd who (remove1 cid (get_or [] (investor_campaigns s) who)) (investor_campaigns s)"
  by (simp_all add: drop_investor_campaign_def)

lemma remove_milestones_simps [simp]:
  "campaigns (remove_milestones cid c s) = campaigns s"
  "next_campaign_id (remove_milestones cid c s) = next_campaign_id s"
  "investments (remove_milestones cid c s) = investments s"
  "creator_campaigns (remove_milestones cid c s) = creator_campaigns s"
  "investor_campaigns (remove_milestones cid c s) = investor_campaigns s"
  "campaign_whitelist (remove_milestones cid c s) = campaign_whitelist s"
  "campaign_whitelist_count (remove_milestones cid c s) = campaign_whitelist_count s"
  "cf_ledger (remove_milestones cid c s) = cf_ledger s"
  by (simp_all add: remove_milestones_def split: funding_model.splits)

lemma fold_drop_lookup:
  "fmlookup (fold (\<lambda>i. fmdrop (cid, i)) is m) k = (if fst k = cid \<and> snd k \<in> set is then None else fmlookup m k)"
  by (induction "is" arbitrary: m) (auto split: if_splits)

lemma fold_upd_lookup:
  "fmlookup (fold (\<lambda>i. fmupd (cid, f i) v) is m) k =
     (if fst k = cid \<and> snd k \<in> f ` set is then Some v else fmlookup m k)"
  by (induction "is" arbitrary: m) (auto simp: prod_eq_iff)

lemma remove_milestones_lookup:
  assumes "length (milestones_of c) \<le> 255"
  shows "fmlookup (milestone_statuses (remove_milestones cid c s)) k =
    (if fst k = cid \<and> snd k < length (milestones_of c) then None else fmlookup (milestone_statuses s) k)"
  using assms
  by (auto simp: remove_milestones_def milestones_of_def fold_drop_lookup split: funding_model.splits)

lemma do_finalize_frame:
  assumes "do_finalize cid c s = (st, s1)"
  shows "campaigns s1 = campaigns s" "next_campaign_id s1 = next_campaign_id s" "investments s1 = investments s"
    "creator_campaigns s1 = creator_campaigns s" "investor_campaigns s1 = investor_campaigns s"
    "campaign_whitelist s1 = campaign_whitelist s" "campaign_whitelist_count s1 = campaign_whitelist_count s"
    "cf_ledger s1 = cf_ledger s" "cf_events s1 = cf_events s"
  using assms by (auto simp: do_finalize_def split: funding_model.splits if_splits)

lemma do_transfer_Inr:
  "do_transfer T cur a b v er s = Inr s1 \<Longrightarrow> \<exists>l. s1 = s\<lparr>cf_ledger := l\<rparr>"
proof -
  assume "do_transfer T cur a b v er s = Inr s1"
  then have "s1 = s\<lparr>cf_ledger := cf_ledger s\<rparr> \<or> (\<exists>l. s1 = s\<lparr>cf_ledger := l\<rparr>)"
    by (auto simp: do_transfer_def dispatch_simps split: if_splits)
  then show ?thesis by blast
qed

lemma do_burn_Inr: "do_burn T cur a v er s = Inr s1 \<Longrightarrow> \<exists>l. s1 = s\<lparr>cf_ledger := l\<rparr>"
proof -
  assume "do_burn T cur a v er s = Inr s1"
  then have "s1 = s\<lparr>cf_ledger := cf_ledger s\<rparr> \<or> (\<exists>l. s1 = s\<lparr>cf_ledger := l\<rparr>)"
    by (auto simp: do_burn_def dispatch_simps split: if_splits)
  then show ?thesis by blast
qed

lemma pay_out_Inr:
  assumes "pay_out T cid c who fee amount s = Inr s1"
  shows "\<exists>l ev. s1 = s\<lparr>cf_events := ev, cf_ledger := l\<rparr>"
proof -
  from assms obtain s2 l where "s1 = s2\<lparr>cf_ledger := l\<rparr>"
    and "s2 = s \<or> (\<exists>l ev. s2 = s\<lparr>cf_ledger := l, cf_events := ev\<rparr>)"
    by (auto simp: pay_out_def dispatch_simps cf_event_def split: if_splits dest!: do_transfer_Inr)
  then have "s1 = s\<lparr>cf_events := cf_events s2, cf_ledger := l\<rparr>" by auto
  then show ?thesis by blast
qed

section \<open>Preservation\<close>

lemma cf_inv_camp: "\<lbrakk>cf_inv T s; fmlookup (campaigns s) cid = Some c\<rbrakk> \<Longrightarrow>
    camp_inv T (investments s) (milestone_statuses s) cid c"
  by (simp add: cf_inv_def)

lemma clear_whitelist_inv:
  assumes "whitelist_inv T cs wl wlc"
  shows "whitelist_inv T cs (clear_prefix cid wl) (fmdrop cid wlc)"
  using assms by (auto simp: whitelist_inv_def fmcount_clear_prefix)

lemma whitelist_mono:
  "\<lbrakk>whitelist_inv T cs wl wlc; \<And>k. contains_key cs k \<Longrightarrow> contains_key cs' k\<rbrakk> \<Longrightarrow> whitelist_inv T cs' wl wlc"
  unfolding whitelist_inv_def by blast

lemma creators_remove:
  assumes "creators_inv T cs crs"
  shows "creators_inv T cs (fmupd who (remove1 cid (get_or [] crs who)) crs)"
  using assms
  by (fastforce simp: creators_inv_def length_remove1 dest: notin_set_remove1)

lemma cf_inv_update:
  assumes inv: "cf_inv T s" and c: "fmlookup (campaigns s) cid = Some c"
    and upd: "campaigns s' = fmupd cid c' (campaigns s)" "creator c' = creator c"
    and same: "next_campaign_id s' = next_campaign_id s" "investments s' = investments s"
      "investor_campaigns s' = investor_campaigns s"
    and crs: "creator_campaigns s' = creator_campaigns s \<or>
      creator_campaigns s' = fmupd who (remove1 cid (get_or [] (creator_campaigns s) who)) (creator_campaigns s)"
    and wl: "campaign_whitelist s' = campaign_whitelist s \<and> campaign_whitelist_count s' = campaign_whitelist_count s \<or>
      campaign_whitelist s' = clear_prefix cid (campaign_whitelist s) \<and>
      campaign_whitelist_count s' = fmdrop cid (campaign_whitelist_count s)"
    and mss: "\<And>k. fst k \<noteq> cid \<Longrightarrow> fmlookup (milestone_statuses s') k = fmlookup (milestone_statuses s) k"
    and own: "\<And>i m. fmlookup (milestone_statuses s') (cid, i) = Some m \<Longrightarrow>
      status c' \<in> {MilestonePhase, Completed} \<and> is_milestone_based c' \<and> i < length (milestones_of c')"
    and camp: "camp_inv T (investments s) (milestone_statuses s') cid c'"
  shows "cf_inv T s'"
proof -
  have key: "contains_key (campaigns s') k \<longleftrightarrow> contains_key (campaigns s) k" for k
    using c upd by (auto simp: contains_key_def)
  have "creators_inv T (campaigns s') (creator_campaigns s)"
    using inv c upd by (fastforce simp: cf_inv_def creators_inv_def)
  then have crs': "creators_inv T (campaigns s') (creator_campaigns s')"
    using crs creators_remove by metis
  have "whitelist_inv T (campaigns s') (campaign_whitelist s) (campaign_whitelist_count s)"
    using inv key by (auto simp: cf_inv_def intro: whitelist_mono)
  then have wl': "whitelist_inv T (campaigns s') (campaign_whitelist s') (campaign_whitelist_count s')"
    using wl clear_whitelist_inv by metis
  have ms': "milestones_inv (campaigns s') (milestone_statuses s')"
    using inv own mss upd unfolding milestones_inv_def cf_inv_def by fastforce
  have camps: "camp_inv T (investments s') (milestone_statuses s') d e"
    if "fmlookup (campaigns s') d = Some e" for d e
  proof (cases "d = cid")
    case True
    with that upd same camp show ?thesis by simp
  next
    case False
    with that upd have "camp_inv T (investments s) (milestone_statuses s) d e"
      using cf_inv_camp [OF inv] by simp
    then show ?thesis by (rule camp_inv_frame) (use same mss False in simp_all)
  qed
  have "ids_inv (campaigns s') (next_campaign_id s')" "investments_inv (campaigns s') (investments s')"
    "investors_inv T (investments s') (investor_campaigns s')"
    using inv key same by (simp_all add: cf_inv_def ids_inv_def investments_inv_def)
  with camps crs' wl' ms' show ?thesis unfolding cf_inv_def by blast
qed

lemma milestones_update_simps [simp]:
  "milestones_of (c\<lparr>status := st\<rparr>) = milestones_of c"
  "is_milestone_based (c\<lparr>status := st\<rparr>) = is_milestone_based c"
  "milestones_of (c\<lparr>total_disbursed := d\<rparr>) = milestones_of c"
  "is_milestone_based (c\<lparr>total_disbursed := d\<rparr>) = is_milestone_based c"
  "milestones_of (c\<lparr>total_raised := d\<rparr>) = milestones_of c"
  "is_milestone_based (c\<lparr>total_raised := d\<rparr>) = is_milestone_based c"
  "milestones_of (c\<lparr>investor_count := n\<rparr>) = milestones_of c"
  "is_milestone_based (c\<lparr>investor_count := n\<rparr>) = is_milestone_based c"
  "milestones_of (c\<lparr>creation_deposit := d\<rparr>) = milestones_of c"
  "is_milestone_based (c\<lparr>creation_deposit := d\<rparr>) = is_milestone_based c"
  "milestones_of (c\<lparr>paused_at := p\<rparr>) = milestones_of c"
  "is_milestone_based (c\<lparr>paused_at := p\<rparr>) = is_milestone_based c"
  "milestones_of (c\<lparr>config := (config c)\<lparr>deadline := b\<rparr>\<rparr>) = milestones_of c"
  "is_milestone_based (c\<lparr>config := (config c)\<lparr>deadline := b\<rparr>\<rparr>) = is_milestone_based c"
  by (simp_all add: milestones_of_def is_milestone_based_def)

lemma released_update_simps [simp]:
  "released mss cid (c\<lparr>status := st\<rparr>) = released mss cid c"
  "released mss cid (c\<lparr>total_disbursed := d\<rparr>) = released mss cid c"
  "released mss cid (c\<lparr>investor_count := n\<rparr>) = released mss cid c"
  "released mss cid (c\<lparr>creation_deposit := d\<rparr>) = released mss cid c"
  by (simp_all add: released_def cong: if_cong)

lemma camp_inv_cancel:
  assumes "camp_inv T ivs mss cid c"
  shows "camp_inv T ivs mss' cid (c\<lparr>status := Cancelled\<rparr>)"
  using assms by (simp add: camp_inv_def)

lemma milestones_own:
  "\<lbrakk>cf_inv T s; fmlookup (campaigns s) cid = Some c; fmlookup (milestone_statuses s) (cid, i) = Some m\<rbrakk> \<Longrightarrow>
     status c \<in> {MilestonePhase, Completed} \<and> is_milestone_based c \<and> i < length (milestones_of c)"
  unfolding cf_inv_def milestones_inv_def by fastforce

lemma cancelled_inv:
  assumes inv: "cf_inv T s" and c: "fmlookup (campaigns s) cid = Some c"
    and s': "campaigns s' = fmupd cid (c\<lparr>status := Cancelled\<rparr>) (campaigns s)"
      "next_campaign_id s' = next_campaign_id s" "investments s' = investments s"
      "investor_campaigns s' = investor_campaigns s" "creator_campaigns s' = creator_campaigns s"
      "campaign_whitelist s' = clear_prefix cid (campaign_whitelist s)"
      "campaign_whitelist_count s' = fmdrop cid (campaign_whitelist_count s)"
      "milestone_statuses s' = milestone_statuses (remove_milestones cid c s)"
  shows "cf_inv T s'"
proof -
  have ci: "camp_inv T (investments s) (milestone_statuses s) cid c" using inv c by (rule cf_inv_camp)
  then have len: "length (milestones_of c) \<le> 255" by (simp add: camp_inv_def)
  show ?thesis
  proof (rule cf_inv_update [OF inv c s'(1) _ s'(2,3,4)])
    show "fmlookup (milestone_statuses s') k = fmlookup (milestone_statuses s) k" if "fst k \<noteq> cid" for k
      using that s'(8) by (simp add: remove_milestones_lookup [OF len])
    show "status (c\<lparr>status := Cancelled\<rparr>) \<in> {MilestonePhase, Completed} \<and>
        is_milestone_based (c\<lparr>status := Cancelled\<rparr>) \<and> i < length (milestones_of (c\<lparr>status := Cancelled\<rparr>))"
      if "fmlookup (milestone_statuses s') (cid, i) = Some m" for i m
      using that milestones_own [OF inv c, of i m] by (simp add: s'(8) remove_milestones_lookup [OF len] split: if_splits)
    show "camp_inv T (investments s) (milestone_statuses s') cid (c\<lparr>status := Cancelled\<rparr>)"
      using ci by (rule camp_inv_cancel)
  qed (use s' in simp_all)
qed

lemma cancel_campaign_inv:
  assumes inv: "cf_inv T s" and ok: "cancel_campaign T org cid s = Inr s'"
  shows "cf_inv T s'"
proof -
  from ok obtain c where c: "fmlookup (campaigns s) cid = Some c"
    and s': "s' = cf_event (CampaignCancelled cid) (clear_whitelist cid
      (put_campaign cid (c\<lparr>status := Cancelled\<rparr>) (remove_milestones cid c s)))"
    by (auto simp: cancel_campaign_def Let_def dispatch_simps)
  show ?thesis by (rule cancelled_inv [OF inv c]) (simp_all add: s')
qed

lemma report_license_revoked_inv:
  assumes inv: "cf_inv T s" and ok: "report_license_revoked T H org cid s = Inr s'"
  shows "cf_inv T s'"
proof -
  from ok obtain c where c: "fmlookup (campaigns s) cid = Some c"
    and s': "s' = cf_event (CampaignCancelled cid) (cf_event (CampaignLicenseReported cid) (clear_whitelist cid
      (put_campaign cid (c\<lparr>status := Cancelled\<rparr>) (remove_milestones cid c s))))"
    by (auto simp: report_license_revoked_def Let_def dispatch_simps case_prod_Inr)
  show ?thesis by (rule cancelled_inv [OF inv c]) (simp_all add: s')
qed

lemma do_finalize_cases:
  assumes "length (milestones_of c) \<le> 255" "do_finalize cid c s = (st, s1)"
  shows "(st = MilestonePhase \<and> is_milestone_based c \<and>
      (\<forall>k. fmlookup (milestone_statuses s1) k =
         (if fst k = cid \<and> snd k < length (milestones_of c) then Some Pending else fmlookup (milestone_statuses s) k))) \<or>
    (st = Succeeded \<and> \<not> is_milestone_based c \<or> st = Failed) \<and> s1 = s"
proof (cases "funding_model (config c)")
  case (MilestoneBased goal ms)
  with assms(1) have "(\<lambda>i. i mod 256) ` set [0..<length ms] = {..<length ms}"
    by (force simp: milestones_of_def image_iff)
  with MilestoneBased assms(2) show ?thesis
    by (auto simp: do_finalize_def is_milestone_based_def milestones_of_def fold_upd_lookup split: if_splits)
qed (use assms in \<open>auto simp: do_finalize_def is_milestone_based_def split: if_splits option.splits\<close>)

lemma finalized_inv:
  assumes inv: "cf_inv T s" and c: "fmlookup (campaigns s) cid = Some c" and st: "status c = Funding"
    and fin: "do_finalize cid c s = (new_status, s1)"
    and s': "campaigns s' = fmupd cid (c\<lparr>status := new_status\<rparr>) (campaigns s)"
      "next_campaign_id s' = next_campaign_id s" "investments s' = investments s"
      "investor_campaigns s' = investor_campaigns s" "creator_campaigns s' = creator_campaigns s"
      "campaign_whitelist s' = campaign_whitelist s" "campaign_whitelist_count s' = campaign_whitelist_count s"
      "milestone_statuses s' = milestone_statuses s1"
  shows "cf_inv T s'"
proof -
  have ci: "camp_inv T (investments s) (milestone_statuses s) cid c" using inv c by (rule cf_inv_camp)
  then have len: "length (milestones_of c) \<le> 255" by (simp add: camp_inv_def)
  have none: "fmlookup (milestone_statuses s) (cid, i) = None" for i
    using milestones_own [OF inv c, of i] st by (cases "fmlookup (milestone_statuses s) (cid, i)") auto
  note fc = do_finalize_cases [OF len fin]
  show ?thesis
  proof (rule cf_inv_update [OF inv c s'(1) _ s'(2,3,4)])
    show "fmlookup (milestone_statuses s') k = fmlookup (milestone_statuses s) k" if "fst k \<noteq> cid" for k
      using that s'(8) fc by (cases k) auto
    show "status (c\<lparr>status := new_status\<rparr>) \<in> {MilestonePhase, Completed} \<and>
        is_milestone_based (c\<lparr>status := new_status\<rparr>) \<and> i < length (milestones_of (c\<lparr>status := new_status\<rparr>))"
      if "fmlookup (milestone_statuses s') (cid, i) = Some m" for i m
      using that fc none [of i] by (cases "i < length (milestones_of c)") (auto simp: s'(8))
    from fc show "camp_inv T (investments s) (milestone_statuses s') cid (c\<lparr>status := new_status\<rparr>)"
    proof
      assume "new_status = MilestonePhase \<and> is_milestone_based c \<and> (\<forall>k. fmlookup (milestone_statuses s1) k =
         (if fst k = cid \<and> snd k < length (milestones_of c) then Some Pending else fmlookup (milestone_statuses s) k))"
      moreover from this have "released (milestone_statuses s1) cid (c\<lparr>status := MilestonePhase\<rparr>) = 0"
        by (simp add: released_def)
      ultimately show ?thesis using ci st by (simp add: camp_inv_def s'(8))
    next
      assume "(new_status = Succeeded \<and> \<not> is_milestone_based c \<or> new_status = Failed) \<and> s1 = s"
      then show ?thesis using ci st by (auto simp: camp_inv_def)
    qed
  qed (use s' in simp_all)
qed

lemma finalize_campaign_inv:
  assumes inv: "cf_inv T s" and ok: "finalize_campaign T org cid s = Inr s'"
  shows "cf_inv T s'"
proof -
  from ok obtain c st s1 where c: "fmlookup (campaigns s) cid = Some c" "status c = Funding"
    and fin: "do_finalize cid c s = (st, s1)"
    and s': "s' = put_campaign cid (c\<lparr>status := st\<rparr>) (cf_event (CampaignFinalized cid st) s1)"
    by (auto simp: finalize_campaign_def Let_def dispatch_simps case_prod_Inr)
  show ?thesis
    by (rule finalized_inv [OF inv c fin]) (simp_all add: s' do_finalize_frame [OF fin])
qed

lemma force_finalize_campaign_inv:
  assumes inv: "cf_inv T s" and ok: "force_finalize_campaign T org cid s = Inr s'"
  shows "cf_inv T s'"
proof -
  from ok obtain c st s1 where c: "fmlookup (campaigns s) cid = Some c" "status c = Funding"
    and fin: "do_finalize cid c s = (st, s1)"
    and s': "s' = put_campaign cid (c\<lparr>status := st\<rparr>) (cf_event (CampaignForceFinalized cid st) s1)"
    by (auto simp: force_finalize_campaign_def Let_def dispatch_simps case_prod_Inr)
  show ?thesis
    by (rule finalized_inv [OF inv c fin]) (simp_all add: s' do_finalize_frame [OF fin])
qed

text \<open>An update of the campaign record alone.\<close>

lemma put_inv:
  assumes inv: "cf_inv T s" and c: "fmlookup (campaigns s) cid = Some c"
    and s': "campaigns s' = fmupd cid c' (campaigns s)"
      "next_campaign_id s' = next_campaign_id s" "investments s' = investments s"
      "investor_campaigns s' = investor_campaigns s" "creator_campaigns s' = creator_campaigns s"
      "campaign_whitelist s' = campaign_whitelist s" "campaign_whitelist_count s' = campaign_whitelist_count s"
      "milestone_statuses s' = milestone_statuses s"
    and c': "creator c' = creator c" "milestones_of c' = milestones_of c" "is_milestone_based c' = is_milestone_based c"
      "status c \<in> {MilestonePhase, Completed} \<longrightarrow> status c' \<in> {MilestonePhase, Completed}"
    and camp: "camp_inv T (investments s) (milestone_statuses s) cid c'"
  shows "cf_inv T s'"
proof (rule cf_inv_update [OF inv c s'(1) c'(1) s'(2,3,4)])
  show "status c' \<in> {MilestonePhase, Completed} \<and> is_milestone_based c' \<and> i < length (milestones_of c')"
    if "fmlookup (milestone_statuses s') (cid, i) = Some m" for i m
    using that milestones_own [OF inv c, of i m] c'(2,3,4) by (simp add: s'(8))
  show "camp_inv T (investments s) (milestone_statuses s') cid c'" using camp by (simp add: s'(8))
qed (use s' in simp_all)

lemma pause_campaign_inv:
  assumes inv: "cf_inv T s" and ok: "pause_campaign T org cid s = Inr s'"
  shows "cf_inv T s'"
proof -
  from ok obtain c where c: "fmlookup (campaigns s) cid = Some c" and st: "status c = Funding"
    and s': "s' = cf_event (CampaignPaused cid) (put_campaign cid (c\<lparr>paused_at := Some (cf_now s), status := Paused\<rparr>) s)"
    by (auto simp: pause_campaign_def dispatch_simps)
  from cf_inv_camp [OF inv c] st
  have "camp_inv T (investments s) (milestone_statuses s) cid (c\<lparr>paused_at := Some (cf_now s), status := Paused\<rparr>)"
    by (simp add: camp_inv_def)
  with st show ?thesis by (intro put_inv [OF inv c]) (simp_all add: s')
qed

lemma resume_campaign_inv:
  assumes inv: "cf_inv T s" and ok: "resume_campaign T H org cid s = Inr s'"
  shows "cf_inv T s'"
proof -
  from ok obtain c d where c: "fmlookup (campaigns s) cid = Some c" and st: "status c = Paused"
    and s': "s' = cf_event (CampaignResumed cid) (put_campaign cid
      (c\<lparr>config := (config c)\<lparr>deadline := d\<rparr>, paused_at := None, status := Funding\<rparr>) s)"
    by (auto simp: resume_campaign_def Let_def dispatch_simps)
  from cf_inv_camp [OF inv c] st
  have "camp_inv T (investments s) (milestone_statuses s) cid
      (c\<lparr>config := (config c)\<lparr>deadline := d\<rparr>, paused_at := None, status := Funding\<rparr>)"
    by (simp add: camp_inv_def)
  with st show ?thesis by (intro put_inv [OF inv c]) (simp_all add: s')
qed

lemma claim_funds_inv:
  assumes inv: "cf_inv T s" and ok: "claim_funds T org cid s = Inr s'"
  shows "cf_inv T s'"
proof -
  from ok obtain c s1 who where c: "fmlookup (campaigns s) cid = Some c" and st: "status c = Succeeded"
    and pay: "pay_out T cid c who (bps_of (total_raised c - total_disbursed c) (protocol_fee_bps c))
      (total_raised c - total_disbursed c - bps_of (total_raised c - total_disbursed c) (protocol_fee_bps c)) s = Inr s1"
    and s': "s' = cf_event (FundsClaimed cid who
        (total_raised c - total_disbursed c - bps_of (total_raised c - total_disbursed c) (protocol_fee_bps c)))
      (put_campaign cid (c\<lparr>total_disbursed := total_raised c, status := Completed\<rparr>) s1)"
    by (auto simp: claim_funds_def Let_def dispatch_simps)
  from cf_inv_camp [OF inv c] st
  have "camp_inv T (investments s) (milestone_statuses s) cid (c\<lparr>total_disbursed := total_raised c, status := Completed\<rparr>)"
    by (simp add: camp_inv_def)
  with st pay_out_Inr [OF pay] show ?thesis by (intro put_inv [OF inv c]) (auto simp: s')
qed

lemma claim_creation_deposit_inv:
  assumes inv: "cf_inv T s" and ok: "claim_creation_deposit T org cid s = Inr s'"
  shows "cf_inv T s'"
proof -
  from ok obtain c l who where c: "fmlookup (campaigns s) cid = Some c" and st: "status c \<in> {Completed, Failed, Cancelled}"
    and s': "s' = cf_event (CreationDepositClaimed cid who (creation_deposit c)) (clear_whitelist cid
      ((put_campaign cid (c\<lparr>creation_deposit := 0\<rparr>) (s\<lparr>cf_ledger := l\<rparr>))\<lparr>creator_campaigns :=
         fmupd who (remove1 cid (get_or [] (creator_campaigns s) who)) (creator_campaigns s)\<rparr>))"
    by (auto simp: claim_creation_deposit_def Let_def dispatch_simps)
  from st cf_inv_camp [OF inv c]
  have ci: "camp_inv T (investments s) (milestone_statuses s) cid (c\<lparr>creation_deposit := 0\<rparr>)"
    by (elim insertE emptyE) (simp_all add: camp_inv_def)
  show ?thesis
  proof (rule cf_inv_update [where who = who, OF inv c])
    show "campaigns s' = fmupd cid (c\<lparr>creation_deposit := 0\<rparr>) (campaigns s)" by (simp add: s')
    show "camp_inv T (investments s) (milestone_statuses s') cid (c\<lparr>creation_deposit := 0\<rparr>)"
      using ci by (simp add: s')
    show "status (c\<lparr>creation_deposit := 0\<rparr>) \<in> {MilestonePhase, Completed} \<and>
        is_milestone_based (c\<lparr>creation_deposit := 0\<rparr>) \<and> i < length (milestones_of (c\<lparr>creation_deposit := 0\<rparr>))"
      if "fmlookup (milestone_statuses s') (cid, i) = Some m" for i m
      using that milestones_own [OF inv c, of i m] by (simp add: s')
  qed (simp_all add: s')
qed

lemma released_same:
  assumes "fmlookup mss (cid, index) = Some m" "m \<noteq> Claimed" "m' \<noteq> Claimed"
  shows "released (fmupd (cid, index) m' mss) cid c = released mss cid c"
  unfolding released_def using assms by (intro sum.cong) auto

lemma released_claim:
  assumes "fmlookup mss (cid, index) = Some m" "m \<noteq> Claimed" "index < length (milestones_of c)"
  shows "released (fmupd (cid, index) Claimed mss) cid c =
    released mss cid c + bps_of (total_raised c) (release_bps (milestones_of c ! index))"
proof -
  have "(\<Sum>i\<in>{..<length (milestones_of c)} - {index}. if fmlookup (fmupd (cid, index) Claimed mss) (cid, i) = Some Claimed
          then bps_of (total_raised c) (release_bps (milestones_of c ! i)) else 0) =
        (\<Sum>i\<in>{..<length (milestones_of c)} - {index}. if fmlookup mss (cid, i) = Some Claimed
          then bps_of (total_raised c) (release_bps (milestones_of c ! i)) else 0)"
    by (rule sum.cong) auto
  with assms show ?thesis
    unfolding released_def by (simp add: sum.remove [of "{..<length (milestones_of c)}" index])
qed

lemma milestone_status_inv:
  assumes inv: "cf_inv T s" and c: "fmlookup (campaigns s) cid = Some c" and st: "status c = MilestonePhase"
    and m: "fmlookup (milestone_statuses s) (cid, index) = Some m" "m \<noteq> Claimed" "m' \<noteq> Claimed"
    and s': "s' = cf_event e (s\<lparr>milestone_statuses := fmupd (cid, index) m' (milestone_statuses s)\<rparr>)"
  shows "cf_inv T s'"
proof (rule cf_inv_update [OF inv c])
  show "campaigns s' = fmupd cid c (campaigns s)"
    unfolding s' using c by (auto intro!: fmap_ext)
  show "camp_inv T (investments s) (milestone_statuses s') cid c"
    using cf_inv_camp [OF inv c] st m(1) released_same [OF m, of c] by (simp add: camp_inv_def s')
  show "status c \<in> {MilestonePhase, Completed} \<and> is_milestone_based c \<and> i < length (milestones_of c)"
    if "fmlookup (milestone_statuses s') (cid, i) = Some m" for i m
    using that milestones_own [OF inv c m(1)] milestones_own [OF inv c, of i m] by (simp add: s' split: if_splits)
qed (auto simp: s')

lemma submit_milestone_inv:
  assumes inv: "cf_inv T s" and ok: "submit_milestone T org cid index s = Inr s'"
  shows "cf_inv T s'"
proof -
  from ok obtain c m where c: "fmlookup (campaigns s) cid = Some c" "status c = MilestonePhase"
    and m: "fmlookup (milestone_statuses s) (cid, index) = Some m" "m \<noteq> Claimed"
    and s': "s' = cf_event (MilestoneSubmitted cid index) (s\<lparr>milestone_statuses := fmupd (cid, index) Submitted (milestone_statuses s)\<rparr>)"
    by (auto simp: submit_milestone_def dispatch_simps)
  show ?thesis by (rule milestone_status_inv [OF inv c m _ s']) simp
qed

lemma approve_milestone_inv:
  assumes inv: "cf_inv T s" and ok: "approve_milestone T org cid index s = Inr s'"
  shows "cf_inv T s'"
proof -
  from ok obtain c m where c: "fmlookup (campaigns s) cid = Some c" "status c = MilestonePhase"
    and m: "fmlookup (milestone_statuses s) (cid, index) = Some m" "m \<noteq> Claimed"
    and s': "s' = cf_event (MilestoneApproved cid index) (s\<lparr>milestone_statuses := fmupd (cid, index) Approved (milestone_statuses s)\<rparr>)"
    by (auto simp: approve_milestone_def dispatch_simps)
  show ?thesis by (rule milestone_status_inv [OF inv c m _ s']) simp
qed

lemma reject_milestone_inv:
  assumes inv: "cf_inv T s" and ok: "reject_milestone T org cid index s = Inr s'"
  shows "cf_inv T s'"
proof -
  from ok obtain c m where c: "fmlookup (campaigns s) cid = Some c" "status c = MilestonePhase"
    and m: "fmlookup (milestone_statuses s) (cid, index) = Some m" "m \<noteq> Claimed"
    and s': "s' = cf_event (MilestoneRejected cid index) (s\<lparr>milestone_statuses := fmupd (cid, index) Rejected (milestone_statuses s)\<rparr>)"
    by (auto simp: reject_milestone_def dispatch_simps)
  show ?thesis by (rule milestone_status_inv [OF inv c m _ s']) simp
qed

lemma milestones_Inr:
  "(case funding_model (config c) of MilestoneBased _ ms \<Rightarrow> Inr ms | _ \<Rightarrow> Inl e) = Inr r \<longleftrightarrow>
     is_milestone_based c \<and> r = milestones_of c"
  by (auto simp: is_milestone_based_def milestones_of_def split: funding_model.splits)

text \<open>The facts of a successful \<open>claim_milestone_funds\<close>.\<close>

lemma claim_milestone_Inr:
  assumes "claim_milestone_funds T org cid index s = Inr s'"
  obtains c who s1 release statuses where "fmlookup (campaigns s) cid = Some c" "org = Signed who" "creator c = who"
    "status c = MilestonePhase" "fmlookup (milestone_statuses s) (cid, index) = Some Approved"
    "is_milestone_based c" "index < length (milestones_of c)"
    "release = min (bps_of (total_raised c) (release_bps (milestones_of c ! index))) (total_raised c - total_disbursed c)"
    "pay_out T cid c who (bps_of release (protocol_fee_bps c)) (release - bps_of release (protocol_fee_bps c)) s = Inr s1"
    "statuses = fmupd (cid, index) Claimed (milestone_statuses s1)"
    "s' = cf_event (MilestoneFundsClaimed cid index (release - bps_of release (protocol_fee_bps c)))
      (put_campaign cid (c\<lparr>total_disbursed := add128 (total_disbursed c) release,
         status := (if list_all (\<lambda>i. fmlookup statuses (cid, i) = Some Claimed) [0..<length (milestones_of c) mod 256]
                    then Completed else status c)\<rparr>) (s1\<lparr>milestone_statuses := statuses\<rparr>))"
  using assms
  by (auto simp: claim_milestone_funds_def Let_def dispatch_simps milestones_Inr simp del: fmupd_lookup)

lemma claim_milestone_funds_inv:
  assumes inv: "cf_inv T s" and ok: "claim_milestone_funds T org cid index s = Inr s'"
  shows "cf_inv T s'"
  using ok
proof (rule claim_milestone_Inr)
  fix c who s1 release statuses
  assume c: "fmlookup (campaigns s) cid = Some c" and st: "status c = MilestonePhase"
    and m: "fmlookup (milestone_statuses s) (cid, index) = Some Approved"
    and mb: "is_milestone_based c" "index < length (milestones_of c)"
    and rel: "release = min (bps_of (total_raised c) (release_bps (milestones_of c ! index))) (total_raised c - total_disbursed c)"
    and pay: "pay_out T cid c who (bps_of release (protocol_fee_bps c)) (release - bps_of release (protocol_fee_bps c)) s = Inr s1"
    and sts: "statuses = fmupd (cid, index) Claimed (milestone_statuses s1)"
    and s': "s' = cf_event (MilestoneFundsClaimed cid index (release - bps_of release (protocol_fee_bps c)))
      (put_campaign cid (c\<lparr>total_disbursed := add128 (total_disbursed c) release,
         status := (if list_all (\<lambda>i. fmlookup statuses (cid, i) = Some Claimed) [0..<length (milestones_of c) mod 256]
                    then Completed else status c)\<rparr>) (s1\<lparr>milestone_statuses := statuses\<rparr>))"
    (is "_ = cf_event _ (put_campaign cid ?c' _)")
  have ci: "camp_inv T (investments s) (milestone_statuses s) cid c" using inv c by (rule cf_inv_camp)
  obtain l ev where s1: "s1 = s\<lparr>cf_events := ev, cf_ledger := l\<rparr>" using pay_out_Inr [OF pay] by blast
  have sum: "total_disbursed c + release \<le> total_raised c" "total_raised c \<le> u128_max"
    "total_disbursed c = min (total_raised c) (released (milestone_statuses s) cid c)"
    "length (milestones_of c) \<le> 255"
    using ci st mb(1) rel by (simp_all add: camp_inv_def)
  have rel': "released statuses cid c =
      released (milestone_statuses s) cid c + bps_of (total_raised c) (release_bps (milestones_of c ! index))"
    unfolding sts s1 using released_claim [OF m _ mb(2)] by simp
  have dis: "add128 (total_disbursed c) release = min (total_raised c) (released statuses cid c)"
    using sum(1,2) by (simp add: rel') (use sum(3) rel in linarith)
  show ?thesis
  proof (rule cf_inv_update [OF inv c])
    show "campaigns s' = fmupd cid ?c' (campaigns s)" by (simp add: s' s1)
    have "camp_inv T (investments s) statuses cid (c\<lparr>total_disbursed := add128 (total_disbursed c) release, status := st'\<rparr>)"
      if "st' = (if list_all (\<lambda>i. fmlookup statuses (cid, i) = Some Claimed) [0..<length (milestones_of c)]
                    then Completed else MilestonePhase)" for st'
      using ci st mb sum dis that by (simp add: camp_inv_def sts s1 list_all_iff)
    then show "camp_inv T (investments s) (milestone_statuses s') cid ?c'"
      using sum(4) st by (simp add: s' split: if_splits)
    show "status ?c' \<in> {MilestonePhase, Completed} \<and> is_milestone_based ?c' \<and> i < length (milestones_of ?c')"
      if "fmlookup (milestone_statuses s') (cid, i) = Some m" for i m
      using that st mb milestones_own [OF inv c, of i m] by (simp add: s' sts s1 split: if_splits)
  qed (auto simp: s' s1 sts)
qed

section \<open>Creation, whitelist and configuration\<close>

lemma create_campaign_Inr:
  assumes "create_campaign T H org cfg rules license s = Inr s'"
  obtains who a p l where "org = Signed who" "check_license H cfg license who = Inr (a, p)"
    "check_schedule T cfg (cf_now s) = Inr ()" "check_funding_model cfg = Inr ()"
    "length (get_or [] (creator_campaigns s) who) < max_campaigns_per_creator T"
    "native_minimum (currency T) \<le> campaign_creation_deposit T" "Suc (next_campaign_id s) \<le> u32_max"
    "native_transfer (currency T) who (campaign_account T (next_campaign_id s)) (campaign_creation_deposit T)
       KeepAlive (cf_ledger s) = Inr l"
    "s' = cf_event (CampaignCreated (next_campaign_id s) who (deadline cfg))
      (s\<lparr>next_campaign_id := Suc (next_campaign_id s), cf_ledger := l,
         campaigns := fmupd (next_campaign_id s)
           \<lparr>creator = who, status = Funding, config = cfg,
            eligibility_rules = (case rules of Some rs \<Rightarrow> rs | None \<Rightarrow> default_eligibility_rules s),
            total_raised = 0, total_disbursed = 0, investor_count = 0,
            creation_deposit = campaign_creation_deposit T, created_at = cf_now s, paused_at = None,
            rwa_asset_id = a, participation_id = p,
            protocol_fee_bps = effective_protocol_fee_bps T s\<rparr> (campaigns s),
         creator_campaigns := fmupd who (get_or [] (creator_campaigns s) who @ [next_campaign_id s]) (creator_campaigns s)\<rparr>)"
  using assms
  by (auto simp: create_campaign_def Let_def dispatch_simps case_prod_Inr put_campaign_def
      effective_protocol_fee_bps_def cong: option.case_cong)

lemma creators_new:
  assumes inv: "creators_inv T cs crs" and new: "fmlookup cs c = None" and "creator d = who"
    and "length (get_or [] crs who) < max_campaigns_per_creator T"
  shows "creators_inv T (fmupd c d cs) (fmupd who (get_or [] crs who @ [c]) crs)"
proof -
  have old: "\<exists>e. fmlookup cs k = Some e \<and> creator e = w" if "k \<in> set (get_or [] crs w)" for k w
    using inv that by (simp add: creators_inv_def)
  then have "c \<notin> set (get_or [] crs w)" for w using new by fastforce
  with old have "\<exists>e. fmlookup (fmupd c d cs) k = Some e \<and> creator e = w" if "k \<in> set (get_or [] crs w)" for k w
    using that by (metis fmupd_lookup)
  with inv assms(3,4) \<open>c \<notin> set (get_or [] crs who)\<close> show ?thesis
    by (simp add: creators_inv_def Suc_le_eq)
qed

lemma new_campaign_inv:
  assumes inv: "cf_inv T s" and fresh: "c = next_campaign_id s"
    and "Suc (next_campaign_id s) \<le> u32_max"
    and "length (get_or [] (creator_campaigns s) who) < max_campaigns_per_creator T"
    and d: "creator d = who" "camp_inv T fmempty fmempty c d" "status d = Funding"
    and s': "campaigns s' = fmupd c d (campaigns s)" "next_campaign_id s' = Suc (next_campaign_id s)"
      "investments s' = investments s" "investor_campaigns s' = investor_campaigns s"
      "milestone_statuses s' = milestone_statuses s"
      "campaign_whitelist s' = campaign_whitelist s" "campaign_whitelist_count s' = campaign_whitelist_count s"
      "creator_campaigns s' = fmupd who (get_or [] (creator_campaigns s) who @ [c]) (creator_campaigns s)"
  shows "cf_inv T s'"
proof -
  have new: "fmlookup (campaigns s) c = None"
    using inv fresh unfolding cf_inv_def ids_inv_def contains_key_def by auto
  have noinv: "fmlookup (investments s) (c, w) = None" for w
    using inv new unfolding cf_inv_def investments_inv_def contains_key_def
    by (cases "fmlookup (investments s) (c, w)") fastforce+
  have noms: "fmlookup (milestone_statuses s) (c, i) = None" for i
    using inv new unfolding cf_inv_def milestones_inv_def
    by (cases "fmlookup (milestone_statuses s) (c, i)") fastforce+
  have key: "contains_key (campaigns s) k \<Longrightarrow> contains_key (campaigns s') k" for k by (simp add: s')
  have camps: "camp_inv T (investments s') (milestone_statuses s') k e" if "fmlookup (campaigns s') k = Some e" for k e
  proof (cases "k = c")
    case True
    with that s'(1) have "e = d" by simp
    with True d(2) show ?thesis
      by (auto intro!: camp_inv_frame [OF d(2)] simp: s' sums_empty [OF noinv] sums_empty noms)
  next
    case False
    with that cf_inv_camp [OF inv] show ?thesis by (simp add: s')
  qed
  have crs: "creators_inv T (campaigns s') (creator_campaigns s')"
    using inv assms(4) d(1) new by (auto simp: cf_inv_def s' intro: creators_new)
  have wl: "whitelist_inv T (campaigns s') (campaign_whitelist s') (campaign_whitelist_count s')"
    using inv key unfolding cf_inv_def s'(6,7) by (auto intro: whitelist_mono)
  have ms: "milestones_inv (campaigns s') (milestone_statuses s')"
    using inv noms unfolding cf_inv_def milestones_inv_def s'(1,5) by fastforce
  have "ids_inv (campaigns s') (next_campaign_id s')"
    using inv assms(3) fresh unfolding cf_inv_def ids_inv_def by (auto simp: s' less_Suc_eq)
  moreover have "investments_inv (campaigns s') (investments s')"
    using inv unfolding cf_inv_def investments_inv_def by (simp add: s')
  moreover have "investors_inv T (investments s') (investor_campaigns s')" using inv by (simp add: cf_inv_def s')
  ultimately show ?thesis unfolding cf_inv_def using camps crs wl ms by blast
qed

lemma create_campaign_inv:
  assumes inv: "cf_inv T s" and T: "cf_config_ok T" "config_typed T cfg"
    and ok: "create_campaign T H org cfg rules license s = Inr s'"
  shows "cf_inv T s'"
  using ok
proof (rule create_campaign_Inr)
  fix who a p l
  assume fm: "check_funding_model cfg = Inr ()"
    and len: "length (get_or [] (creator_campaigns s) who) < max_campaigns_per_creator T"
    and dep: "native_minimum (currency T) \<le> campaign_creation_deposit T" "Suc (next_campaign_id s) \<le> u32_max"
    and s': "s' = cf_event (CampaignCreated (next_campaign_id s) who (deadline cfg))
      (s\<lparr>next_campaign_id := Suc (next_campaign_id s), cf_ledger := l,
         campaigns := fmupd (next_campaign_id s)
           \<lparr>creator = who, status = Funding, config = cfg,
            eligibility_rules = (case rules of Some rs \<Rightarrow> rs | None \<Rightarrow> default_eligibility_rules s),
            total_raised = 0, total_disbursed = 0, investor_count = 0,
            creation_deposit = campaign_creation_deposit T, created_at = cf_now s, paused_at = None,
            rwa_asset_id = a, participation_id = p,
            protocol_fee_bps = effective_protocol_fee_bps T s\<rparr> (campaigns s),
         creator_campaigns := fmupd who (get_or [] (creator_campaigns s) who @ [next_campaign_id s]) (creator_campaigns s)\<rparr>)"
    (is "_ = cf_event _ (s\<lparr>next_campaign_id := _, cf_ledger := _, campaigns := fmupd _ ?c _, creator_campaigns := _\<rparr>)")
  have "camp_inv T fmempty fmempty (next_campaign_id s) ?c"
    using fm T dep
    by (auto simp: camp_inv_def check_funding_model_def dispatch_simps milestones_of_def is_milestone_based_def
        config_typed_def cf_config_ok_def staked_def active_def split: funding_model.splits)
  then show ?thesis
    by (intro new_campaign_inv [OF inv refl dep(2) len]) (simp_all add: s')
qed

lemma whitelist_upd_inv:
  assumes inv: "cf_inv T s"
    and s': "campaigns s' = campaigns s" "next_campaign_id s' = next_campaign_id s" "investments s' = investments s"
      "milestone_statuses s' = milestone_statuses s" "creator_campaigns s' = creator_campaigns s"
      "investor_campaigns s' = investor_campaigns s"
    and "whitelist_inv T (campaigns s) (campaign_whitelist s') (campaign_whitelist_count s')"
  shows "cf_inv T s'"
  using assms by (simp add: cf_inv_def)

lemma add_to_whitelist_inv:
  assumes inv: "cf_inv T s" and ok: "add_to_whitelist T org cid a s = Inr s'"
  shows "cf_inv T s'"
proof -
  let ?wl = "campaign_whitelist s" and ?n = "get_or 0 (campaign_whitelist_count s) cid"
  from ok have c: "contains_key (campaigns s) cid"
    and s': "s' = (if \<not> get_or False ?wl (cid, a)
        then s\<lparr>campaign_whitelist_count := fmupd cid (?n + 1) (campaign_whitelist_count s),
               campaign_whitelist := fmupd (cid, a) True ?wl\<rparr>
        else s\<lparr>campaign_whitelist := fmupd (cid, a) True ?wl\<rparr>)"
      "\<not> get_or False ?wl (cid, a) \<longrightarrow> ?n < max_whitelist_size T"
    by (auto simp: add_to_whitelist_def Let_def dispatch_simps contains_key_def split: if_splits)
  have w: "whitelist_inv T (campaigns s) ?wl (campaign_whitelist_count s)" using inv by (simp add: cf_inv_def)
  have cnt: "fmcount (\<lambda>k _. fst k = d) (fmupd (cid, a) True ?wl) =
      fmcount (\<lambda>k _. fst k = d) ?wl + (if d = cid \<and> \<not> get_or False ?wl (cid, a) then 1 else 0)" for d
    using fmcount_upd [of "\<lambda>k _. fst k = d" "(cid, a)" True ?wl] w
    by (cases "fmlookup ?wl (cid, a)") (auto simp: whitelist_inv_def)
  have "whitelist_inv T (campaigns s) (campaign_whitelist s') (campaign_whitelist_count s')"
    using w c s' by (auto simp: whitelist_inv_def cnt)
  then show ?thesis using s' by (intro whitelist_upd_inv [OF inv]) simp_all
qed

lemma remove_from_whitelist_inv:
  assumes inv: "cf_inv T s" and ok: "remove_from_whitelist T org cid a s = Inr s'"
  shows "cf_inv T s'"
proof -
  let ?wl = "campaign_whitelist s" and ?n = "get_or 0 (campaign_whitelist_count s) cid"
  from ok have s': "s' = (if get_or False ?wl (cid, a)
        then s\<lparr>campaign_whitelist_count := fmupd cid (?n - 1) (campaign_whitelist_count s),
               campaign_whitelist := fmdrop (cid, a) ?wl\<rparr>
        else s\<lparr>campaign_whitelist := fmdrop (cid, a) ?wl\<rparr>)"
    by (auto simp: remove_from_whitelist_def Let_def dispatch_simps)
  have w: "whitelist_inv T (campaigns s) ?wl (campaign_whitelist_count s)" using inv by (simp add: cf_inv_def)
  have cnt: "fmcount (\<lambda>k _. fst k = d) (fmdrop (cid, a) ?wl) =
      fmcount (\<lambda>k _. fst k = d) ?wl - (if d = cid \<and> get_or False ?wl (cid, a) then 1 else 0)" for d
    using fmcount_drop [of "\<lambda>k _. fst k = d" "(cid, a)" ?wl] w
    by (cases "fmlookup ?wl (cid, a)") (auto simp: whitelist_inv_def)
  have "whitelist_inv T (campaigns s) (campaign_whitelist s') (campaign_whitelist_count s')"
    using w s' by (auto simp: whitelist_inv_def cnt intro: le_trans [OF diff_le_self])
  then show ?thesis using s' by (intro whitelist_upd_inv [OF inv]) simp_all
qed

lemma set_default_eligibility_inv: "\<lbrakk>cf_inv T s; set_default_eligibility T org rules s = Inr s'\<rbrakk> \<Longrightarrow> cf_inv T s'"
  by (auto simp: set_default_eligibility_def dispatch_simps cf_inv_def)

lemma set_protocol_config_inv: "\<lbrakk>cf_inv T s; set_protocol_config T org bps r s = Inr s'\<rbrakk> \<Longrightarrow> cf_inv T s'"
  by (auto simp: set_protocol_config_def dispatch_simps cf_inv_def)

section \<open>Investor records\<close>

text \<open>One investor record and its campaign change together with the list of the investor.\<close>

lemma record_inv:
  assumes inv: "cf_inv T s" and c: "fmlookup (campaigns s) cid = Some c"
    and s': "campaigns s' = fmupd cid c' (campaigns s)" "next_campaign_id s' = next_campaign_id s"
      "milestone_statuses s' = milestone_statuses s" "creator_campaigns s' = creator_campaigns s"
      "campaign_whitelist s' = campaign_whitelist s" "campaign_whitelist_count s' = campaign_whitelist_count s"
    and c': "creator c' = creator c" "status c' = status c" "config c' = config c"
    and ivs: "\<And>k. k \<noteq> (cid, who) \<Longrightarrow> fmlookup (investments s') k = fmlookup (investments s) k"
    and own: "\<And>i. fmlookup (investments s') (cid, who) = Some i \<Longrightarrow>
      total_withdrawn i \<le> total_invested i \<and> total_invested i \<le> u128_max"
    and ics: "\<And>w. w \<noteq> who \<Longrightarrow> get_or [] (investor_campaigns s') w = get_or [] (investor_campaigns s) w"
      "distinct (get_or [] (investor_campaigns s') who)"
      "length (get_or [] (investor_campaigns s') who) \<le> max_investments_per_investor T"
      "\<And>d. d \<noteq> cid \<Longrightarrow> d \<in> set (get_or [] (investor_campaigns s') who) \<longleftrightarrow> d \<in> set (get_or [] (investor_campaigns s) who)"
      "cid \<in> set (get_or [] (investor_campaigns s') who) \<longleftrightarrow>
        (\<exists>i. fmlookup (investments s') (cid, who) = Some i \<and> total_withdrawn i < total_invested i)"
    and camp: "camp_inv T (investments s') (milestone_statuses s) cid c'"
  shows "cf_inv T s'"
proof -
  have key: "contains_key (campaigns s') k \<longleftrightarrow> contains_key (campaigns s) k" for k
    using c s'(1) by (auto simp: contains_key_def)
  have ck: "contains_key (campaigns s) cid" using c by (simp add: contains_key_def)
  have same: "milestones_of c' = milestones_of c" "is_milestone_based c' = is_milestone_based c"
    using c'(3) by (simp_all add: milestones_of_def is_milestone_based_def)
  have camps: "camp_inv T (investments s') (milestone_statuses s') d e" if "fmlookup (campaigns s') d = Some e" for d e
  proof (cases "d = cid")
    case True
    with that s' camp show ?thesis by simp
  next
    case False
    with that s' have "camp_inv T (investments s) (milestone_statuses s) d e" using cf_inv_camp [OF inv] by simp
    then show ?thesis
      by (rule camp_inv_frame) (use False ivs s' in \<open>auto intro: staked_cong active_cong\<close>)
  qed
  have "investments_inv (campaigns s') (investments s')"
    unfolding investments_inv_def
  proof (intro allI impI)
    fix d w i assume l: "fmlookup (investments s') (d, w) = Some i"
    show "contains_key (campaigns s') d \<and> total_withdrawn i \<le> total_invested i \<and> total_invested i \<le> u128_max"
    proof (cases "(d, w) = (cid, who)")
      case True
      with l own ck show ?thesis by (simp add: key)
    next
      case False
      with l ivs inv show ?thesis by (simp add: key cf_inv_def investments_inv_def)
    qed
  qed
  moreover have "investors_inv T (investments s') (investor_campaigns s')"
    unfolding investors_inv_def
  proof (intro allI conjI)
    fix w d
    have old: "investors_inv T (investments s) (investor_campaigns s)" using inv by (simp add: cf_inv_def)
    show "distinct (get_or [] (investor_campaigns s') w)"
      using old ics(1,2) by (cases "w = who") (simp_all add: investors_inv_def)
    show "length (get_or [] (investor_campaigns s') w) \<le> max_investments_per_investor T"
      using old ics(1,3) by (cases "w = who") (simp_all add: investors_inv_def)
    show "d \<in> set (get_or [] (investor_campaigns s') w) \<longleftrightarrow>
        (\<exists>i. fmlookup (investments s') (d, w) = Some i \<and> total_withdrawn i < total_invested i)"
      using old ics(1,4,5) ivs [of "(d, w)"] by (cases "w = who"; cases "d = cid") (simp_all add: investors_inv_def)
  qed
  moreover have "creators_inv T (campaigns s') (creator_campaigns s')"
    using inv c c'(1) by (fastforce simp: cf_inv_def creators_inv_def s')
  moreover have "milestones_inv (campaigns s') (milestone_statuses s')"
    using inv c c'(2) same unfolding cf_inv_def milestones_inv_def s' by fastforce
  moreover have "whitelist_inv T (campaigns s') (campaign_whitelist s') (campaign_whitelist_count s')"
    using inv key unfolding cf_inv_def s'(5,6) by (auto intro: whitelist_mono)
  moreover have "ids_inv (campaigns s') (next_campaign_id s')" using inv key s'(2) by (simp add: cf_inv_def ids_inv_def)
  ultimately show ?thesis unfolding cf_inv_def using camps by blast
qed

abbreviation record_of :: "'l cf_state \<Rightarrow> nat \<Rightarrow> account_id \<Rightarrow> investment" where
  "record_of s cid who \<equiv> get_or default_investment (investments s) (cid, who)"

lemma invest_Inr:
  assumes "invest T H org cid amount s = Inr s'"
  obtains c who s1 where "org = Signed who" "fmlookup (campaigns s) cid = Some c" "status c = Funding"
    "cf_now s \<le> deadline (config c)" "amount \<noteq> 0"
    "check_eligibility_inner T H who c cid s = Inr ()"
    "\<And>mn. min_investment (config c) = Some mn \<Longrightarrow> mn \<le> amount"
    "\<And>cap. hard_cap (config c) = Some cap \<Longrightarrow> add128 (total_raised c) amount \<le> cap"
    "\<And>mx. max_investment_per_investor (config c) = Some mx \<Longrightarrow>
       add128 (total_invested (record_of s cid who) - total_withdrawn (record_of s cid who)) amount \<le> mx"
    "do_transfer T (funding_currency (config c)) who (campaign_account T cid) amount KeepAlive s = Inr s1"
    "campaigns s' = fmupd cid (c\<lparr>total_raised := add128 (total_raised c) amount,
       investor_count := (if cid \<notin> set (get_or [] (investor_campaigns s) who) then add32 (investor_count c) 1
                          else investor_count c)\<rparr>) (campaigns s)"
    "investments s' = fmupd (cid, who) ((record_of s cid who)\<lparr>total_invested :=
       add128 (total_invested (record_of s cid who)) amount\<rparr>) (investments s)"
    "investor_campaigns s' = (if cid \<notin> set (get_or [] (investor_campaigns s) who)
       then fmupd who (get_or [] (investor_campaigns s) who @ [cid]) (investor_campaigns s) else investor_campaigns s)"
    "cid \<notin> set (get_or [] (investor_campaigns s) who) \<Longrightarrow>
       length (get_or [] (investor_campaigns s) who) < max_investments_per_investor T"
    "next_campaign_id s' = next_campaign_id s" "milestone_statuses s' = milestone_statuses s"
    "creator_campaigns s' = creator_campaigns s" "campaign_whitelist s' = campaign_whitelist s"
    "campaign_whitelist_count s' = campaign_whitelist_count s" "cf_ledger s' = cf_ledger s1" "cf_now s' = cf_now s"
proof -
  from assms obtain who c where w: "org = Signed who" "fmlookup (campaigns s) cid = Some c"
    by (auto simp: invest_def dispatch_simps)
  define is_new where "is_new = (cid \<notin> set (get_or [] (investor_campaigns s) who))"
  from assms w obtain s1 where g: "status c = Funding" "cf_now s \<le> deadline (config c)" "amount \<noteq> 0"
    "check_eligibility_inner T H who c cid s = Inr ()"
    "case min_investment (config c) of None \<Rightarrow> True | Some mn \<Rightarrow> mn \<le> amount"
    "case hard_cap (config c) of None \<Rightarrow> True | Some cap \<Rightarrow> add128 (total_raised c) amount \<le> cap"
    "case max_investment_per_investor (config c) of None \<Rightarrow> True | Some mx \<Rightarrow>
       add128 (total_invested (record_of s cid who) - total_withdrawn (record_of s cid who)) amount \<le> mx"
    "is_new \<longrightarrow> length (get_or [] (investor_campaigns s) who) < max_investments_per_investor T"
    "do_transfer T (funding_currency (config c)) who (campaign_account T cid) amount KeepAlive s = Inr s1"
    unfolding invest_def by (auto simp: Let_def dispatch_simps is_new_def)
  obtain l where s1: "s1 = s\<lparr>cf_ledger := l\<rparr>" using do_transfer_Inr [OF g(9)] by blast
  from assms w g show thesis
    by (intro that [OF w g(1-4) _ _ _ g(9)])
      (auto simp: invest_def Let_def dispatch_simps s1 fm_mutate_Some simp flip: is_new_def split: if_splits)
qed

lemma investor_list:
  assumes "cf_inv T s"
  shows "cid \<in> set (get_or [] (investor_campaigns s) who) \<longleftrightarrow>
    (\<exists>i. fmlookup (investments s) (cid, who) = Some i \<and> total_withdrawn i < total_invested i)"
    "distinct (get_or [] (investor_campaigns s) who)"
    "length (get_or [] (investor_campaigns s) who) \<le> max_investments_per_investor T"
  using assms by (auto simp: cf_inv_def investors_inv_def)

lemma record_bounds:
  assumes "cf_inv T s"
  shows "total_withdrawn (record_of s cid who) \<le> total_invested (record_of s cid who)"
    "total_invested (record_of s cid who) \<le> u128_max"
  using assms by (auto simp: cf_inv_def investments_inv_def get_or_def default_investment_def split: option.splits)

lemma record_stake:
  "opt_nat (\<lambda>i. total_invested i - total_withdrawn i) (fmlookup (investments s) (cid, who)) =
     total_invested (record_of s cid who) - total_withdrawn (record_of s cid who)"
  by (simp add: get_or_def default_investment_def split: option.splits)

lemma record_active:
  "(\<exists>i. fmlookup (investments s) (cid, who) = Some i \<and> total_withdrawn i < total_invested i) \<longleftrightarrow>
     total_withdrawn (record_of s cid who) < total_invested (record_of s cid who)"
  by (simp add: get_or_def default_investment_def split: option.splits)

lemma invest_inv:
  assumes inv: "cf_inv T s" and fits: "\<And>who. org = Signed who \<Longrightarrow> invest_fits cid who amount s"
    and ok: "invest T H org cid amount s = Inr s'"
  shows "cf_inv T s'"
  using ok
proof (rule invest_Inr)
  fix c :: campaign and who s1
  let ?r = "record_of s cid who" and ?ids = "get_or [] (investor_campaigns s) who"
  let ?c = "c\<lparr>total_raised := add128 (total_raised c) amount,
       investor_count := (if cid \<notin> set ?ids then add32 (investor_count c) 1 else investor_count c)\<rparr>"
  assume g: "org = Signed who" "fmlookup (campaigns s) cid = Some c" "status c = Funding" "amount \<noteq> 0"
    and cap: "\<And>cap. hard_cap (config c) = Some cap \<Longrightarrow> add128 (total_raised c) amount \<le> cap"
    and cs: "campaigns s' = fmupd cid ?c (campaigns s)"
    and ivs: "investments s' = fmupd (cid, who) (?r\<lparr>total_invested := add128 (total_invested ?r) amount\<rparr>) (investments s)"
    and ics: "investor_campaigns s' = (if cid \<notin> set ?ids then fmupd who (?ids @ [cid]) (investor_campaigns s) else investor_campaigns s)"
      "cid \<notin> set ?ids \<Longrightarrow> length ?ids < max_investments_per_investor T"
    and rest: "next_campaign_id s' = next_campaign_id s" "milestone_statuses s' = milestone_statuses s"
    "creator_campaigns s' = creator_campaigns s" "campaign_whitelist s' = campaign_whitelist s"
    "campaign_whitelist_count s' = campaign_whitelist_count s"
  have ci: "camp_inv T (investments s) (milestone_statuses s) cid c" using inv g(2) by (rule cf_inv_camp)
  have f: "total_raised c + amount \<le> u128_max" "investor_count c < u32_max" "total_invested ?r + amount \<le> u128_max"
    using fits [OF g(1)] g(2)
    by (auto simp: invest_fits_def get_or_def default_investment_def split: option.splits)
  note rb = record_bounds [OF inv, of cid who]
  have staked: "staked (investments s') cid = staked (investments s) cid + amount"
    using staked_upd [of cid who "?r\<lparr>total_invested := total_invested ?r + amount\<rparr>" "investments s"] rb f
    by (simp add: ivs record_stake)
  have active: "active (investments s') cid = active (investments s) cid + (if cid \<notin> set ?ids then 1 else 0)"
    using active_upd [of cid who "?r\<lparr>total_invested := total_invested ?r + amount\<rparr>" "investments s"] rb f g(4)
      investor_list(1) [OF inv, of cid who]
    by (simp add: ivs record_active split: if_splits)
  have "camp_inv T (investments s') (milestone_statuses s) cid ?c"
    using ci g(3) cap f by (simp add: camp_inv_def staked active)
  then show ?thesis
    using rb f g(4) ics investor_list [OF inv]
    by (intro record_inv [where who = who, OF inv g(2) cs rest]) (auto simp: ivs Suc_le_eq)
qed

lemma withdraw_Inr:
  assumes "withdraw_investment T org cid amount s = Inr s'"
  obtains c who i penalty s1 s2 where "org = Signed who" "fmlookup (campaigns s) cid = Some c"
    "status c \<in> {Funding, Paused}" "amount \<noteq> 0" "fmlookup (investments s) (cid, who) = Some i"
    "amount \<le> total_invested i - total_withdrawn i"
    "penalty = bps_of amount (case early_withdrawal_penalty_bps (config c) of Some b \<Rightarrow> b | None \<Rightarrow> default_penalty_bps T)"
    "do_transfer T (funding_currency (config c)) (campaign_account T cid) who (amount - penalty) AllowDeath s = Inr s1"
    "do_burn T (funding_currency (config c)) (campaign_account T cid) penalty AllowDeath s1 = Inr s2"
    "campaigns s' = fmupd cid (c\<lparr>total_raised := total_raised c - amount,
       investor_count := (if total_invested i = add128 (total_withdrawn i) amount then investor_count c - 1
                          else investor_count c)\<rparr>) (campaigns s)"
    "investments s' = fmupd (cid, who) (i\<lparr>total_withdrawn := add128 (total_withdrawn i) amount\<rparr>) (investments s)"
    "investor_campaigns s' = (if total_invested i = add128 (total_withdrawn i) amount
       then fmupd who (remove1 cid (get_or [] (investor_campaigns s) who)) (investor_campaigns s)
       else investor_campaigns s)"
    "next_campaign_id s' = next_campaign_id s" "milestone_statuses s' = milestone_statuses s"
    "creator_campaigns s' = creator_campaigns s" "campaign_whitelist s' = campaign_whitelist s"
    "campaign_whitelist_count s' = campaign_whitelist_count s" "cf_ledger s' = cf_ledger s2"
    "cf_events s' = cf_events s2 @ [InvestmentWithdrawn cid who (amount - penalty) penalty]"
proof -
  from assms obtain who c i where w: "org = Signed who" "fmlookup (campaigns s) cid = Some c"
    "status c \<in> {Funding, Paused}" "amount \<noteq> 0" "fmlookup (investments s) (cid, who) = Some i"
    "amount \<le> total_invested i - total_withdrawn i"
    by (auto simp: withdraw_investment_def Let_def dispatch_simps)
  define penalty where "penalty =
    bps_of amount (case early_withdrawal_penalty_bps (config c) of Some b \<Rightarrow> b | None \<Rightarrow> default_penalty_bps T)"
  have burn: "do_burn T cur a 0 er st = Inr st" for cur a er and st :: "'a cf_state" by (simp add: do_burn_def)
  from assms w obtain s1 s2 where t: "do_transfer T (funding_currency (config c)) (campaign_account T cid) who (amount - penalty) AllowDeath s = Inr s1"
    and b: "do_burn T (funding_currency (config c)) (campaign_account T cid) penalty AllowDeath s1 = Inr s2"
    and s': "s' = cf_event (InvestmentWithdrawn cid who (amount - penalty) penalty)
      (let s3 = s2\<lparr>investments := fmupd (cid, who) (i\<lparr>total_withdrawn := add128 (total_withdrawn i) amount\<rparr>) (investments s2)\<rparr>;
           s4 = (if total_invested i = add128 (total_withdrawn i) amount then drop_investor_campaign who cid s3 else s3)
       in s4\<lparr>campaigns := fm_mutate cid (\<lambda>c. c\<lparr>total_raised := total_raised c - amount,
                 investor_count := (if total_invested i = add128 (total_withdrawn i) amount then investor_count c - 1 else investor_count c)\<rparr>)
                 (campaigns s4)\<rparr>)"
    by (auto simp: withdraw_investment_def Let_def dispatch_simps burn simp flip: penalty_def split: if_splits)
  obtain l l2 where s1: "s1 = s\<lparr>cf_ledger := l\<rparr>" "s2 = s1\<lparr>cf_ledger := l2\<rparr>"
    using do_transfer_Inr [OF t] do_burn_Inr [OF b] by blast
  show thesis
    by (rule that [OF w penalty_def t b])
      (simp_all add: s' s1 Let_def fm_mutate_Some w(2) drop_investor_campaign_def cf_event_def)
qed

lemma withdraw_investment_inv:
  assumes inv: "cf_inv T s" and ok: "withdraw_investment T org cid amount s = Inr s'"
  shows "cf_inv T s'"
  using ok
proof (rule withdraw_Inr)
  fix c :: campaign and who penalty s1 s2 and i :: investment
  let ?full = "total_invested i = add128 (total_withdrawn i) amount"
  let ?c = "c\<lparr>total_raised := total_raised c - amount, investor_count := (if ?full then investor_count c - 1 else investor_count c)\<rparr>"
  assume g: "fmlookup (campaigns s) cid = Some c" "status c \<in> {Funding, Paused}" "amount \<noteq> 0"
    and i: "fmlookup (investments s) (cid, who) = Some i" "amount \<le> total_invested i - total_withdrawn i"
    and cs: "campaigns s' = fmupd cid ?c (campaigns s)"
    and ivs: "investments s' = fmupd (cid, who) (i\<lparr>total_withdrawn := add128 (total_withdrawn i) amount\<rparr>) (investments s)"
    and ics: "investor_campaigns s' = (if ?full then fmupd who (remove1 cid (get_or [] (investor_campaigns s) who)) (investor_campaigns s)
       else investor_campaigns s)"
    and rest: "next_campaign_id s' = next_campaign_id s" "milestone_statuses s' = milestone_statuses s"
    "creator_campaigns s' = creator_campaigns s" "campaign_whitelist s' = campaign_whitelist s"
    "campaign_whitelist_count s' = campaign_whitelist_count s"
  have ci: "camp_inv T (investments s) (milestone_statuses s) cid c" using inv g(1) by (rule cf_inv_camp)
  have b: "total_withdrawn i \<le> total_invested i" "total_invested i \<le> u128_max"
    using record_bounds [OF inv, of cid who] i(1) by simp_all
  then have add: "add128 (total_withdrawn i) amount = total_withdrawn i + amount" using i(2) by simp
  have le: "total_invested i - total_withdrawn i \<le> staked (investments s) cid" using i(1) by (rule staked_ge)
  have staked: "staked (investments s') cid = staked (investments s) cid - amount"
    using staked_upd [of cid who "i\<lparr>total_withdrawn := total_withdrawn i + amount\<rparr>" "investments s"] b i
    by (simp add: ivs add)
  have active: "active (investments s') cid = active (investments s) cid - (if ?full then 1 else 0)"
    using active_upd [of cid who "i\<lparr>total_withdrawn := total_withdrawn i + amount\<rparr>" "investments s"] b i g(3)
    by (auto simp: ivs add split: if_splits)
  have "camp_inv T (investments s') (milestone_statuses s) cid ?c"
    using g(2) ci i(2) le by (elim insertE emptyE) (auto simp: camp_inv_def staked active)
  then show ?thesis
    using b g(3) i ics investor_list [OF inv]
    by (intro record_inv [where who = who, OF inv g(1) cs rest]) (auto simp: ivs add length_remove1 le_diff_conv intro: le_SucI)
qed

lemma claim_refund_Inr:
  assumes "claim_refund T org cid s = Inr s'"
  obtains c who i s1 where "org = Signed who" "fmlookup (campaigns s) cid = Some c"
    "status c \<in> {Failed, Cancelled}" "fmlookup (investments s) (cid, who) = Some i"
    "total_withdrawn i < total_invested i" "refund_of c i \<noteq> 0"
    "do_transfer T (funding_currency (config c)) (campaign_account T cid) who (refund_of c i) AllowDeath s = Inr s1"
    "campaigns s' = fmupd cid (c\<lparr>investor_count := investor_count c - 1\<rparr>) (campaigns s)"
    "investments s' = fmdrop (cid, who) (investments s)"
    "investor_campaigns s' = fmupd who (remove1 cid (get_or [] (investor_campaigns s) who)) (investor_campaigns s)"
    "next_campaign_id s' = next_campaign_id s" "milestone_statuses s' = milestone_statuses s"
    "creator_campaigns s' = creator_campaigns s" "campaign_whitelist s' = campaign_whitelist s"
    "campaign_whitelist_count s' = campaign_whitelist_count s" "cf_ledger s' = cf_ledger s1"
    "cf_events s' = cf_events s1 @ [RefundClaimed cid who (refund_of c i)]"
proof -
  from assms obtain who c i where w: "org = Signed who" "fmlookup (campaigns s) cid = Some c"
    "status c \<in> {Failed, Cancelled}" "fmlookup (investments s) (cid, who) = Some i"
    "total_withdrawn i < total_invested i"
    by (auto simp: claim_refund_def Let_def dispatch_simps)
  from assms w obtain s1 where r: "refund_of c i \<noteq> 0"
    and t: "do_transfer T (funding_currency (config c)) (campaign_account T cid) who (refund_of c i) AllowDeath s = Inr s1"
    and s': "s' = cf_event (RefundClaimed cid who (refund_of c i))
      (let s2 = drop_investor_campaign who cid (s1\<lparr>investments := fmdrop (cid, who) (investments s1)\<rparr>)
       in s2\<lparr>campaigns := fm_mutate cid (\<lambda>c. c\<lparr>investor_count := investor_count c - 1\<rparr>) (campaigns s2)\<rparr>)"
    by (auto simp: claim_refund_def Let_def dispatch_simps)
  obtain l where s1: "s1 = s\<lparr>cf_ledger := l\<rparr>" using do_transfer_Inr [OF t] by blast
  show thesis
    by (rule that [OF w r t])
      (simp_all add: s' s1 Let_def fm_mutate_Some w(2) drop_investor_campaign_def cf_event_def)
qed

lemma claim_refund_inv:
  assumes inv: "cf_inv T s" and ok: "claim_refund T org cid s = Inr s'"
  shows "cf_inv T s'"
  using ok
proof (rule claim_refund_Inr)
  fix c :: campaign and who s1 and i :: investment
  let ?c = "c\<lparr>investor_count := investor_count c - 1\<rparr>"
  assume g: "fmlookup (campaigns s) cid = Some c" "status c \<in> {Failed, Cancelled}"
    and i: "fmlookup (investments s) (cid, who) = Some i" "total_withdrawn i < total_invested i"
    and cs: "campaigns s' = fmupd cid ?c (campaigns s)"
    and ivs: "investments s' = fmdrop (cid, who) (investments s)"
    and ics: "investor_campaigns s' = fmupd who (remove1 cid (get_or [] (investor_campaigns s) who)) (investor_campaigns s)"
    and rest: "next_campaign_id s' = next_campaign_id s" "milestone_statuses s' = milestone_statuses s"
    "creator_campaigns s' = creator_campaigns s" "campaign_whitelist s' = campaign_whitelist s"
    "campaign_whitelist_count s' = campaign_whitelist_count s"
  have ci: "camp_inv T (investments s) (milestone_statuses s) cid c" using inv g(1) by (rule cf_inv_camp)
  have staked: "staked (investments s') cid \<le> staked (investments s) cid"
    using staked_drop [of cid who "investments s"] by (simp add: ivs)
  have active: "active (investments s') cid = active (investments s) cid - 1"
    using active_drop [of cid who "investments s"] i by (simp add: ivs)
  have "camp_inv T (investments s') (milestone_statuses s) cid ?c"
    using g(2) ci staked by (elim insertE emptyE) (auto simp: camp_inv_def active)
  then show ?thesis
    using i ics investor_list [OF inv]
    by (intro record_inv [where who = who, OF inv g(1) cs rest]) (auto simp: ivs length_remove1 le_diff_conv intro: le_SucI)
qed

section \<open>The invariant over all calls\<close>

theorem cf_dispatch_inv:
  assumes "cf_config_ok T" "cf_inv T s" "call_fits T org call s" "cf_dispatch T H org call s = Inr s'"
  shows "cf_inv T s'"
proof (cases call)
  case (CreateCampaign cfg rules license)
  with assms show ?thesis by (auto simp: call_fits_def intro: create_campaign_inv)
next
  case (Invest cid amount)
  with assms have ok: "invest T H org cid amount s = Inr s'"
    and fits: "\<And>who. org = Signed who \<Longrightarrow> invest_fits cid who amount s" by (auto simp: call_fits_def)
  show ?thesis by (rule invest_inv [OF assms(2) fits ok])
qed (use assms in \<open>auto intro: cancel_campaign_inv set_default_eligibility_inv withdraw_investment_inv
  claim_refund_inv finalize_campaign_inv claim_funds_inv claim_creation_deposit_inv submit_milestone_inv
  approve_milestone_inv reject_milestone_inv claim_milestone_funds_inv pause_campaign_inv resume_campaign_inv
  add_to_whitelist_inv remove_from_whitelist_inv set_protocol_config_inv report_license_revoked_inv
  force_finalize_campaign_inv\<close>)

end
