(* ===== verification/Payments.thy ===== *)
theory Payments
  imports Currency
begin

text \<open>
  What a payment can do to the balances, derived once from the contract \<open>payments\<close> of the currency
  parameters for all the pallets that keep funds in accounts of their own.
\<close>

text \<open>
  \<open>ledger_le\<close>: outside of one account in one currency no balance falls, and minimum balances are kept.
\<close>

definition ledger_le ::
  "'l currencies \<Rightarrow> ('l \<Rightarrow> nat \<Rightarrow> balance) \<Rightarrow> payment_currency \<Rightarrow> account_id \<Rightarrow> 'l \<Rightarrow> 'l \<Rightarrow> bool" where
  "ledger_le K amin cur a l l' =
    ((\<forall>cur' d. (cur', d) \<noteq> (cur, a) \<longrightarrow> pay_balance K l cur' d \<le> pay_balance K l' cur' d) \<and>
     (\<forall>i. amin l' i = amin l i))"

text \<open>\<open>debits\<close>: an account loses at most the amount, unless the rest is below the minimum.\<close>

definition debits ::
  "'l currencies \<Rightarrow> ('l \<Rightarrow> nat \<Rightarrow> balance) \<Rightarrow> payment_currency \<Rightarrow> account_id \<Rightarrow> balance \<Rightarrow> 'l \<Rightarrow> 'l \<Rightarrow> bool" where
  "debits K amin cur a v l l' =
    (pay_balance K l cur a - v \<le> pay_balance K l' cur a \<or>
     pay_balance K l cur a - v < pay_minimum K amin l cur)"

lemma ledger_le_refl [simp]: "ledger_le K amin cur a l l"
  by (simp add: ledger_le_def)

lemma ledger_le_trans:
  "\<lbrakk>ledger_le K amin cur a l l1; ledger_le K amin cur a l1 l2\<rbrakk> \<Longrightarrow> ledger_le K amin cur a l l2"
  unfolding ledger_le_def by (metis le_trans)

lemma debits_0 [simp]: "debits K amin cur a 0 l l"
  by (simp add: debits_def)

context payments
begin

lemma native_transfer_effect:
  assumes i: "inv l" and t: "native_transfer K a b v er l = Inr l'"
  shows "inv l'" "ledger_le K amin Native a l l'" "debits K amin Native a v l l'"
    and "a \<noteq> b \<Longrightarrow> native_free K l' b = native_free K l b + v"
    and "er = KeepAlive \<Longrightarrow> native_free K l a - v \<le> native_free K l' a"
proof -
  show "inv l'" using i t by (rule native_transfer_inv)
  have triv: "l' = l" if "v = 0 \<or> a = b" using native_transfer_trivial [OF that, of er l] t by simp
  have other: "native_free K l c \<le> native_free K l' c" if "c \<noteq> a" for c
  proof (cases "v = 0 \<or> a = b")
    case True
    then show ?thesis using triv by simp
  next
    case False
    then show ?thesis
      using native_transfer_moves [OF i t] native_transfer_other [OF i t that] by (cases "c = b") auto
  qed
  then show "ledger_le K amin Native a l l'"
    using native_transfer_assets [OF t] by (auto simp: ledger_le_def pay_balance_def split: payment_currency.splits)
  show "debits K amin Native a v l l'"
    using triv native_transfer_moves [OF i t]
    by (cases "v = 0 \<or> a = b") (auto simp: debits_def pay_balance_def pay_minimum_def)
  show "native_free K l' b = native_free K l b + v" if "a \<noteq> b"
    using triv native_transfer_moves [OF i t that] by (cases "v = 0") auto
  show "native_free K l a - v \<le> native_free K l' a" if "er = KeepAlive"
    using triv native_transfer_moves [OF i t] that by (cases "v = 0 \<or> a = b") auto
qed

lemma fungibles_transfer_effect:
  assumes i: "inv l" and v: "v \<noteq> 0" and t: "fungibles_transfer K aid a b v p l = Inr l'"
  shows "inv l'" "ledger_le K amin (Asset aid) a l l'" "debits K amin (Asset aid) a v l l'"
    and "a \<noteq> b \<Longrightarrow> room l aid \<Longrightarrow> fungibles_balance K l' aid b = fungibles_balance K l aid b + v"
    and "p \<noteq> Expendable \<Longrightarrow> fungibles_balance K l aid a - v \<le> fungibles_balance K l' aid a"
proof -
  show "inv l'" using i v t by (rule fungibles_transfer_inv)
  have triv: "l' = l" if "a = b" using fungibles_transfer_self [of aid a v p l l'] t that by simp
  have other: "fungibles_balance K l j c \<le> fungibles_balance K l' j c" if "(j, c) \<noteq> (aid, a)" for j c
  proof (cases "a = b")
    case True
    then show ?thesis using triv by simp
  next
    case False
    then show ?thesis
      using fungibles_transfer_credit [OF i t False v] fungibles_transfer_other [OF i v t that]
      by (cases "(j, c) = (aid, b)") auto
  qed
  then show "ledger_le K amin (Asset aid) a l l'"
    using fungibles_transfer_native [OF i v t] fungibles_transfer_min [OF i v t]
    by (auto simp: ledger_le_def pay_balance_def split: payment_currency.splits)
  show "debits K amin (Asset aid) a v l l'"
    using triv fungibles_transfer_debit [OF i t _ v]
    by (cases "a = b") (auto simp: debits_def pay_balance_def pay_minimum_def)
  show "fungibles_balance K l' aid b = fungibles_balance K l aid b + v" if "a \<noteq> b" "room l aid"
    using fungibles_transfer_credit [OF i t that(1) v] that(2) by auto
  show "fungibles_balance K l aid a - v \<le> fungibles_balance K l' aid a" if "p \<noteq> Expendable"
    using triv fungibles_transfer_debit [OF i t _ v] that by (cases "a = b") auto
qed

lemma native_burn_effect:
  assumes i: "inv l" and v: "v \<noteq> 0" and w: "native_withdraw K a v er l = Inr (imb, l1)" and l': "l' = native_drop_imbalance K imb l1"
  shows "inv l'" "ledger_le K amin Native a l l'" "debits K amin Native a v l l'"
proof -
  show "inv l'" unfolding l' using i w by (rule native_withdraw_inv)
  show "ledger_le K amin Native a l l'"
    using native_withdraw_other [OF i w] native_withdraw_assets [OF w]
    by (auto simp: l' ledger_le_def pay_balance_def split: payment_currency.splits)
  show "debits K amin Native a v l l'"
    using native_withdraw_source [OF i w v] by (auto simp: l' debits_def pay_balance_def pay_minimum_def)
qed

lemma fungibles_burn_effect:
  assumes i: "inv l" and v: "v \<noteq> 0" and b: "fungibles_burn K aid a v Expendable Exact l = Inr l'"
  shows "inv l'" "ledger_le K amin (Asset aid) a l l'" "debits K amin (Asset aid) a v l l'"
proof -
  show "inv l'" using i v b by (rule fungibles_burn_inv)
  show "ledger_le K amin (Asset aid) a l l'"
    using fungibles_burn_other [OF i v b] fungibles_burn_native [OF i v b] fungibles_burn_min [OF i v b]
    by (auto simp: ledger_le_def pay_balance_def split: payment_currency.splits)
  show "debits K amin (Asset aid) a v l l'"
    using fungibles_burn_source [OF i b v] by (auto simp: debits_def pay_balance_def pay_minimum_def)
qed

end

end
