(* ===== verification/Crowdfunding_Solvency.thy ===== *)
theory Crowdfunding_Solvency
  imports Crowdfunding_Inv Payments Assets
begin

text \<open>
  Solvency of the campaign accounts: the account of a campaign always holds what the pallet still
  owes to investors, creator and fee recipient. The proofs are over the contract \<open>payments\<close> of the
  currency parameters; the results are stated for the ledger of the runtime.
\<close>

section \<open>What a campaign owes\<close>

definition owed :: "(nat \<times> account_id, investment) fmap \<Rightarrow> nat \<Rightarrow> campaign \<Rightarrow> nat" where
  "owed ivs cid c =
    (if status c \<in> {Failed, Cancelled} then staked ivs cid else total_raised c - total_disbursed c)
    + (if funding_currency (config c) = Native then creation_deposit c else 0)"

text \<open>
  \<open>covers\<close>: an account holds the due amount. In the native currency it may fall short by less than
  the existential deposit once the creation deposit is gone, because the ledger then drops a rest
  below the existential deposit. For an asset the minimum balance must be trivial.
\<close>

definition covers ::
  "'l currencies \<Rightarrow> ('l \<Rightarrow> nat \<Rightarrow> balance) \<Rightarrow> 'l \<Rightarrow> payment_currency \<Rightarrow> account_id \<Rightarrow> nat \<Rightarrow> balance \<Rightarrow> bool" where
  "covers K amin l cur acct due deposit = (case cur of
     Native \<Rightarrow> due \<le> native_free K l acct \<or> deposit = 0 \<and> due < native_minimum K
   | Asset i \<Rightarrow> amin l i \<le> 1 \<longrightarrow> due \<le> fungibles_balance K l i acct)"

definition camp_solvent ::
  "'l cf_config \<Rightarrow> ('l \<Rightarrow> nat \<Rightarrow> balance) \<Rightarrow> 'l \<Rightarrow> (nat \<times> account_id, investment) fmap \<Rightarrow> nat \<Rightarrow> campaign \<Rightarrow> bool" where
  "camp_solvent T amin l ivs cid c =
    ((status c = Cancelled \<and> total_disbursed c \<noteq> 0 \<or>
      covers (currency T) amin l (funding_currency (config c)) (campaign_account T cid) (owed ivs cid c)
        (creation_deposit c)) \<and>
     (funding_currency (config c) \<noteq> Native \<longrightarrow>
      creation_deposit c \<le> native_free (currency T) l (campaign_account T cid)))"

definition cf_solvent :: "'l cf_config \<Rightarrow> ('l \<Rightarrow> nat \<Rightarrow> balance) \<Rightarrow> 'l cf_state \<Rightarrow> bool" where
  "cf_solvent T amin s =
    (\<forall>cid c. fmlookup (campaigns s) cid = Some c \<longrightarrow> camp_solvent T amin (cf_ledger s) (investments s) cid c)"

text \<open>No call is signed by a campaign account: these accounts have no key.\<close>

definition signer_ok :: "'l cf_config \<Rightarrow> origin \<Rightarrow> bool" where
  "signer_ok T org = (\<forall>cid. org \<noteq> Signed (campaign_account T cid))"

definition invest_room :: "('l \<Rightarrow> nat \<Rightarrow> bool) \<Rightarrow> cf_call \<Rightarrow> 'l cf_state \<Rightarrow> bool" where
  "invest_room room call s = (case call of
     Invest cid _ \<Rightarrow> (case fmlookup (campaigns s) cid of
        None \<Rightarrow> True | Some c \<Rightarrow> pay_room room (cf_ledger s) (funding_currency (config c)))
   | _ \<Rightarrow> True)"

lemma campaign_account_inj:
  assumes "cf_config_ok T" "i \<le> u32_max" "j \<le> u32_max"
  shows "campaign_account T i = campaign_account T j \<longleftrightarrow> i = j"
  using assms sub_account_inj by (auto simp: cf_config_ok_def campaign_account_def)

lemma deposit_ge:
  "\<lbrakk>camp_inv T ivs mss cid c; status c \<notin> {Completed, Failed, Cancelled} \<or> creation_deposit c \<noteq> 0\<rbrakk> \<Longrightarrow>
     native_minimum (currency T) \<le> creation_deposit c"
  unfolding camp_inv_def by blast

lemma deposit_owed:
  "funding_currency (config c) = Native \<Longrightarrow> creation_deposit c \<le> owed ivs cid c"
  by (simp add: owed_def)

lemma owed_investor_count [simp]: "owed ivs cid (c\<lparr>investor_count := n\<rparr>) = owed ivs cid c"
  by (simp add: owed_def)

section \<open>Effects of the payment helpers\<close>

lemma covers_mono:
  assumes "covers K amin l cur d due dep" "ledger_le K amin cur' a l l'" "(cur, d) \<noteq> (cur', a)"
  shows "covers K amin l' cur d due dep"
proof -
  have "pay_balance K l cur d \<le> pay_balance K l' cur d" using assms(2,3) by (simp add: ledger_le_def)
  then show ?thesis using assms(1,2)
    by (auto simp: covers_def ledger_le_def pay_balance_def split: payment_currency.splits)
qed

lemma covers_debit:
  assumes "covers K amin l cur a due dep" "ledger_le K amin cur a l l'" "debits K amin cur a v l l'"
    and "due' + v \<le> due" "dep = 0 \<longrightarrow> dep' = 0" "cur = Native \<and> dep' \<noteq> 0 \<longrightarrow> native_minimum K \<le> due'"
  shows "covers K amin l' cur a due' dep'"
proof (cases cur)
  case Native
  with assms show ?thesis by (auto simp: covers_def debits_def pay_balance_def pay_minimum_def)
next
  case (Asset i)
  with assms have "amin l' i = amin l i" by (simp add: ledger_le_def)
  with Asset assms(1,3,4) show ?thesis
    by (auto simp: covers_def debits_def pay_balance_def pay_minimum_def)
qed

context payments
begin

lemma do_transfer_effect:
  assumes K: "currency T = K" and i: "inv (cf_ledger s)" and t: "do_transfer T cur a b v er s = Inr s1"
  shows "inv (cf_ledger s1)" "ledger_le K amin cur a (cf_ledger s) (cf_ledger s1)"
    "debits K amin cur a v (cf_ledger s) (cf_ledger s1)"
    and "\<lbrakk>a \<noteq> b; pay_room room (cf_ledger s) cur\<rbrakk> \<Longrightarrow>
      pay_balance K (cf_ledger s1) cur b = pay_balance K (cf_ledger s) cur b + v"
proof -
  have "inv (cf_ledger s1) \<and> ledger_le K amin cur a (cf_ledger s) (cf_ledger s1) \<and>
    debits K amin cur a v (cf_ledger s) (cf_ledger s1) \<and>
    (a \<noteq> b \<longrightarrow> pay_room room (cf_ledger s) cur \<longrightarrow>
      pay_balance K (cf_ledger s1) cur b = pay_balance K (cf_ledger s) cur b + v)"
  proof (cases "v = 0")
    case True
    then show ?thesis using i t by (auto simp: do_transfer_def)
  next
    case False
    show ?thesis
    proof (cases cur)
      case Native
      with t K False obtain l where "native_transfer K a b v er (cf_ledger s) = Inr l" "cf_ledger s1 = l"
        by (auto simp: do_transfer_def dispatch_simps)
      with native_transfer_effect [OF i] Native show ?thesis by (auto simp: pay_balance_def)
    next
      case (Asset aid)
      with t K False obtain l p where "fungibles_transfer K aid a b v p (cf_ledger s) = Inr l" "cf_ledger s1 = l"
        by (auto simp: do_transfer_def dispatch_simps Let_def)
      with fungibles_transfer_effect [OF i False] Asset show ?thesis by (auto simp: pay_balance_def pay_room_def)
    qed
  qed
  then show "inv (cf_ledger s1)" "ledger_le K amin cur a (cf_ledger s) (cf_ledger s1)"
    "debits K amin cur a v (cf_ledger s) (cf_ledger s1)"
    and "\<lbrakk>a \<noteq> b; pay_room room (cf_ledger s) cur\<rbrakk> \<Longrightarrow>
      pay_balance K (cf_ledger s1) cur b = pay_balance K (cf_ledger s) cur b + v"
    by blast+
qed

lemma do_burn_effect:
  assumes K: "currency T = K" and i: "inv (cf_ledger s)" and t: "do_burn T cur a v er s = Inr s1"
  shows "inv (cf_ledger s1)" "ledger_le K amin cur a (cf_ledger s) (cf_ledger s1)"
    "debits K amin cur a v (cf_ledger s) (cf_ledger s1)"
proof -
  have "inv (cf_ledger s1) \<and> ledger_le K amin cur a (cf_ledger s) (cf_ledger s1) \<and>
    debits K amin cur a v (cf_ledger s) (cf_ledger s1)"
  proof (cases "v = 0")
    case True
    then show ?thesis using i t by (auto simp: do_burn_def)
  next
    case v: False
    show ?thesis
    proof (cases cur)
      case Native
      with t K v obtain imb l where w: "native_withdraw K a v er (cf_ledger s) = Inr (imb, l)"
        "cf_ledger s1 = native_drop_imbalance K imb l"
        by (auto simp: do_burn_def dispatch_simps)
      show ?thesis unfolding Native using native_burn_effect [OF i v w] by simp
    next
      case (Asset aid)
      with t K v have b: "fungibles_burn K aid a v Expendable Exact (cf_ledger s) = Inr (cf_ledger s1)"
        by (auto simp: do_burn_def dispatch_simps)
      show ?thesis unfolding Asset using fungibles_burn_effect [OF i v b] by simp
    qed
  qed
  then show "inv (cf_ledger s1)" "ledger_le K amin cur a (cf_ledger s) (cf_ledger s1)"
    "debits K amin cur a v (cf_ledger s) (cf_ledger s1)"
    by blast+
qed

section \<open>Preservation\<close>

lemma solvent_update:
  assumes sol: "cf_solvent T amin s" and T: "cf_config_ok T" "currency T = K" and inv: "cf_inv T s"
    and cs: "campaigns s' = fmupd cid c' (campaigns s)" and cid: "cid \<le> u32_max"
    and ivs: "\<And>d who. d \<noteq> cid \<Longrightarrow> fmlookup (investments s') (d, who) = fmlookup (investments s) (d, who)"
    and le: "ledger_le K amin cur a (cf_ledger s) (cf_ledger s')"
    and a: "\<And>d. \<lbrakk>d \<noteq> cid; d \<le> u32_max\<rbrakk> \<Longrightarrow> campaign_account T d \<noteq> a"
    and own: "camp_solvent T amin (cf_ledger s') (investments s') cid c'"
  shows "cf_solvent T amin s'"
  unfolding cf_solvent_def
proof (intro allI impI)
  fix d c assume l: "fmlookup (campaigns s') d = Some c"
  show "camp_solvent T amin (cf_ledger s') (investments s') d c"
  proof (cases "d = cid")
    case True
    with l cs own show ?thesis by simp
  next
    case False
    with l cs have c: "fmlookup (campaigns s) d = Some c" by simp
    then have "d \<le> u32_max" using inv by (fastforce simp: cf_inv_def ids_inv_def contains_key_def)
    with a False have ne: "(cur', campaign_account T d) \<noteq> (cur, a)" for cur' by simp
    have so: "camp_solvent T amin (cf_ledger s) (investments s) d c" using sol c by (simp add: cf_solvent_def)
    have "staked (investments s') d = staked (investments s) d" using ivs False by (intro staked_cong) simp
    then have ow: "owed (investments s') d c = owed (investments s) d c" by (simp add: owed_def)
    have "native_free K (cf_ledger s) (campaign_account T d) \<le> native_free K (cf_ledger s') (campaign_account T d)"
      using le ne [of Native] by (auto simp: ledger_le_def pay_balance_def dest: spec [of _ Native])
    with so show ?thesis
      using covers_mono [OF _ le ne] T(2) unfolding camp_solvent_def ow by (auto dest: le_trans)
  qed
qed

lemma own_deposit:
  assumes "camp_solvent T amin l ivs cid c" "currency T = K"
    and "ledger_le K amin (funding_currency (config c)) a l l'"
  shows "funding_currency (config c) \<noteq> Native \<longrightarrow> creation_deposit c \<le> native_free K l' (campaign_account T cid)"
proof
  assume n: "funding_currency (config c) \<noteq> Native"
  then have "native_free K l (campaign_account T cid) \<le> native_free K l' (campaign_account T cid)"
    using assms(3) by (auto simp: ledger_le_def pay_balance_def dest: spec [of _ Native])
  with n assms(1,2) show "creation_deposit c \<le> native_free K l' (campaign_account T cid)"
    by (auto simp: camp_solvent_def)
qed

lemma pay_out_effect:
  assumes K: "currency T = K" and i: "inv (cf_ledger s)" and t: "pay_out T cid c who fee amount s = Inr s1"
    and cov: "covers K amin (cf_ledger s) (funding_currency (config c)) (campaign_account T cid) due dep"
    and due: "due' + (fee + amount) \<le> due" "funding_currency (config c) = Native \<and> dep \<noteq> 0 \<longrightarrow> native_minimum K \<le> due'"
  shows "inv (cf_ledger s1)" "ledger_le K amin (funding_currency (config c)) (campaign_account T cid) (cf_ledger s) (cf_ledger s1)"
    "covers K amin (cf_ledger s1) (funding_currency (config c)) (campaign_account T cid) due' dep"
proof -
  let ?cur = "funding_currency (config c)" and ?a = "campaign_account T cid"
  have tr0: "do_transfer T ?cur ?a b 0 er s = Inr s" for b er by (simp add: do_transfer_def)
  obtain s2 r where fee: "do_transfer T ?cur ?a r fee AllowDeath s = Inr s2"
    and rest: "\<exists>s3. cf_ledger s3 = cf_ledger s2 \<and> do_transfer T ?cur ?a who amount AllowDeath s3 = Inr s1"
    using t by (cases "fee = 0") (fastforce simp: pay_out_def dispatch_simps tr0)+
  obtain s3 where s3: "cf_ledger s3 = cf_ledger s2" "do_transfer T ?cur ?a who amount AllowDeath s3 = Inr s1"
    using rest by blast
  note F = do_transfer_effect [OF K i fee]
  have i3: "inv (cf_ledger s3)" using F(1) s3(1) by simp
  note R = do_transfer_effect [OF K i3 s3(2), unfolded s3(1)]
  show "inv (cf_ledger s1)" by (rule R(1))
  show "ledger_le K amin ?cur ?a (cf_ledger s) (cf_ledger s1)" using F(2) R(2) by (rule ledger_le_trans)
  have "covers K amin (cf_ledger s2) ?cur ?a (due' + amount) dep"
    using due by (intro covers_debit [OF cov F(2,3)]) auto
  then show "covers K amin (cf_ledger s1) ?cur ?a due' dep"
    using due by (intro covers_debit [OF _ R(2,3)]) auto
qed

text \<open>What each operation that pays out does to its own campaign.\<close>

lemma claim_refund_solvent:
  assumes sol: "cf_solvent T amin s" and T: "cf_config_ok T" "currency T = K" and inv: "cf_inv T s"
    and i: "inv (cf_ledger s)" and ok: "claim_refund T org cid s = Inr s'"
  shows "cf_solvent T amin s' \<and> inv (cf_ledger s')"
  using ok
proof (rule claim_refund_Inr)
  fix c :: campaign and who s1 and r :: investment
  assume c: "fmlookup (campaigns s) cid = Some c" and st: "status c \<in> {Failed, Cancelled}"
    and r: "fmlookup (investments s) (cid, who) = Some r"
    and t: "do_transfer T (funding_currency (config c)) (campaign_account T cid) who (refund_of c r) AllowDeath s = Inr s1"
    and cs: "campaigns s' = fmupd cid (c\<lparr>investor_count := investor_count c - 1\<rparr>) (campaigns s)"
    and ivs: "investments s' = fmdrop (cid, who) (investments s)" and l: "cf_ledger s' = cf_ledger s1"
  note E = do_transfer_effect [OF T(2) i t]
  have ci: "camp_inv T (investments s) (milestone_statuses s) cid c" using inv c by (rule cf_inv_camp)
  have so: "camp_solvent T amin (cf_ledger s) (investments s) cid c" using sol c by (simp add: cf_solvent_def)
  have id: "cid \<le> u32_max" using inv c by (fastforce simp: cf_inv_def ids_inv_def contains_key_def)
  have "status c = Cancelled \<and> total_disbursed c \<noteq> 0 \<or>
    covers K amin (cf_ledger s1) (funding_currency (config c)) (campaign_account T cid)
      (owed (investments s') cid c) (creation_deposit c)"
  proof (cases "total_disbursed c = 0")
    case True
    then have "refund_of c r = total_invested r - total_withdrawn r" by (simp add: refund_of_def)
    then have due: "owed (investments s') cid c + refund_of c r \<le> owed (investments s) cid c"
      using staked_drop [of cid who "investments s"] r st by (auto simp: owed_def ivs)
    have mn: "funding_currency (config c) = Native \<and> creation_deposit c \<noteq> 0 \<longrightarrow>
        native_minimum K \<le> owed (investments s') cid c"
      using deposit_ge [OF ci] T(2) deposit_owed [of c "investments s'" cid] by auto
    have cov: "covers K amin (cf_ledger s) (funding_currency (config c)) (campaign_account T cid)
        (owed (investments s) cid c) (creation_deposit c)"
      using so True T(2) by (simp add: camp_solvent_def)
    show ?thesis using covers_debit [OF cov E(2,3) due _ mn] by simp
  next
    case False
    with st ci show ?thesis by (auto simp: camp_inv_def)
  qed
  then have "camp_solvent T amin (cf_ledger s') (investments s') cid (c\<lparr>investor_count := investor_count c - 1\<rparr>)"
    using own_deposit [OF so T(2) E(2)] T(2) by (simp add: camp_solvent_def l)
  then show ?thesis
    using solvent_update [OF sol T inv cs id _ _ _, of "funding_currency (config c)" "campaign_account T cid"]
      campaign_account_inj [OF T(1) _ id] E(1,2) by (simp add: ivs l)
qed

lemma withdraw_investment_solvent:
  assumes sol: "cf_solvent T amin s" and T: "cf_config_ok T" "currency T = K" and inv: "cf_inv T s"
    and i: "inv (cf_ledger s)" and ok: "withdraw_investment T org cid amount s = Inr s'"
  shows "cf_solvent T amin s' \<and> inv (cf_ledger s')"
  using ok
proof (rule withdraw_Inr)
  fix c :: campaign and who penalty s1 s2 and r :: investment
  let ?n = "if total_invested r = add128 (total_withdrawn r) amount then investor_count c - 1 else investor_count c"
  let ?c = "c\<lparr>total_raised := total_raised c - amount, investor_count := ?n\<rparr>"
  let ?cur = "funding_currency (config c)" and ?a = "campaign_account T cid"
  assume c: "fmlookup (campaigns s) cid = Some c" and st: "status c \<in> {Funding, Paused}"
    and r: "fmlookup (investments s) (cid, who) = Some r" "amount \<le> total_invested r - total_withdrawn r"
    and pen: "penalty = bps_of amount (case early_withdrawal_penalty_bps (config c) of None \<Rightarrow> default_penalty_bps T | Some b \<Rightarrow> b)"
    and t: "do_transfer T ?cur ?a who (amount - penalty) AllowDeath s = Inr s1"
    and b: "do_burn T ?cur ?a penalty AllowDeath s1 = Inr s2"
    and cs: "campaigns s' = fmupd cid ?c (campaigns s)"
    and ivs: "investments s' = fmupd (cid, who) (r\<lparr>total_withdrawn := add128 (total_withdrawn r) amount\<rparr>) (investments s)"
    and l: "cf_ledger s' = cf_ledger s2"
  note E = do_transfer_effect [OF T(2) i t]
  note B = do_burn_effect [OF T(2) E(1) b]
  have ci: "camp_inv T (investments s) (milestone_statuses s) cid c" using inv c by (rule cf_inv_camp)
  have so: "camp_solvent T amin (cf_ledger s) (investments s) cid c" using sol c by (simp add: cf_solvent_def)
  have id: "cid \<le> u32_max" using inv c by (fastforce simp: cf_inv_def ids_inv_def contains_key_def)
  have le: "ledger_le K amin ?cur ?a (cf_ledger s) (cf_ledger s2)" using E(2) B(2) by (rule ledger_le_trans)
  have pa: "penalty \<le> amount" by (simp add: pen)
  have "amount \<le> staked (investments s) cid" using staked_ge [OF r(1)] r(2) by simp
  then have ra: "amount \<le> total_raised c" "total_disbursed c = 0" using ci st by (auto simp: camp_inv_def)
  define due where "due = owed (investments s') cid ?c"
  have due: "due + amount = owed (investments s) cid c" using st ra by (auto simp: due_def owed_def)
  have mn: "?cur = Native \<longrightarrow> native_minimum K \<le> due"
    using deposit_ge [OF ci] st T(2) deposit_owed [of ?c "investments s'" cid] by (auto simp: due_def)
  have cov: "covers K amin (cf_ledger s) ?cur ?a (owed (investments s) cid c) (creation_deposit c)"
    using so st T(2) by (auto simp: camp_solvent_def)
  have "covers K amin (cf_ledger s1) ?cur ?a (due + penalty) (creation_deposit c)"
    using due pa mn by (intro covers_debit [OF cov E(2,3)]) auto
  then have "covers K amin (cf_ledger s2) ?cur ?a due (creation_deposit c)"
    using mn by (intro covers_debit [OF _ B(2,3)]) auto
  then have "camp_solvent T amin (cf_ledger s') (investments s') cid ?c"
    using own_deposit [OF so T(2) le] T(2) by (simp add: camp_solvent_def due_def l)
  then show ?thesis
    using solvent_update [OF sol T inv cs id _ _ _, of ?cur ?a] campaign_account_inj [OF T(1) _ id] B(1) le
    by (simp add: ivs l)
qed

lemma claim_funds_solvent:
  assumes sol: "cf_solvent T amin s" and T: "cf_config_ok T" "currency T = K" and inv: "cf_inv T s"
    and i: "inv (cf_ledger s)" and ok: "claim_funds T org cid s = Inr s'"
  shows "cf_solvent T amin s' \<and> inv (cf_ledger s')"
proof -
  from ok obtain c s1 who where c: "fmlookup (campaigns s) cid = Some c" and st: "status c = Succeeded"
    and t: "pay_out T cid c who (bps_of (total_raised c - total_disbursed c) (protocol_fee_bps c))
      (total_raised c - total_disbursed c - bps_of (total_raised c - total_disbursed c) (protocol_fee_bps c)) s = Inr s1"
    and s': "s' = cf_event (FundsClaimed cid who
        (total_raised c - total_disbursed c - bps_of (total_raised c - total_disbursed c) (protocol_fee_bps c)))
      (put_campaign cid (c\<lparr>total_disbursed := total_raised c, status := Completed\<rparr>) s1)"
    by (auto simp: claim_funds_def Let_def dispatch_simps)
  let ?c = "c\<lparr>total_disbursed := total_raised c, status := Completed\<rparr>"
  have ci: "camp_inv T (investments s) (milestone_statuses s) cid c" using inv c by (rule cf_inv_camp)
  have so: "camp_solvent T amin (cf_ledger s) (investments s) cid c" using sol c by (simp add: cf_solvent_def)
  have id: "cid \<le> u32_max" using inv c by (fastforce simp: cf_inv_def ids_inv_def contains_key_def)
  have cov: "covers K amin (cf_ledger s) (funding_currency (config c)) (campaign_account T cid)
      (owed (investments s) cid c) (creation_deposit c)"
    using so st T(2) by (auto simp: camp_solvent_def)
  obtain l ev where s1: "s1 = s\<lparr>cf_events := ev, cf_ledger := l\<rparr>" using pay_out_Inr [OF t] by blast
  have "owed (investments s) cid ?c + (bps_of (total_raised c - total_disbursed c) (protocol_fee_bps c) +
      (total_raised c - total_disbursed c - bps_of (total_raised c - total_disbursed c) (protocol_fee_bps c)))
      \<le> owed (investments s) cid c"
    using st by (simp add: owed_def le_add_diff_inverse [OF bps_of_le] flip: diff_diff_left)
  moreover have "funding_currency (config c) = Native \<and> creation_deposit c \<noteq> 0 \<longrightarrow>
      native_minimum K \<le> owed (investments s) cid ?c"
    using deposit_ge [OF ci] T(2) deposit_owed [of ?c "investments s" cid] by auto
  ultimately have E: "inv (cf_ledger s1)"
      "ledger_le K amin (funding_currency (config c)) (campaign_account T cid) (cf_ledger s) (cf_ledger s1)"
      "covers K amin (cf_ledger s1) (funding_currency (config c)) (campaign_account T cid)
        (owed (investments s) cid ?c) (creation_deposit c)"
    using pay_out_effect [OF T(2) i t cov] by blast+
  then have own: "camp_solvent T amin (cf_ledger s') (investments s') cid ?c"
    using own_deposit [OF so T(2) E(2)] T(2) by (simp add: camp_solvent_def s' s1)
  show ?thesis
    using solvent_update [OF sol T inv _ id _ _ _ own, of "funding_currency (config c)" "campaign_account T cid"]
      campaign_account_inj [OF T(1) _ id] E(1,2) by (simp add: s' s1)
qed

lemma claim_milestone_funds_solvent:
  assumes sol: "cf_solvent T amin s" and T: "cf_config_ok T" "currency T = K" and inv: "cf_inv T s"
    and i: "inv (cf_ledger s)" and ok: "claim_milestone_funds T org cid index s = Inr s'"
  shows "cf_solvent T amin s' \<and> inv (cf_ledger s')"
  using ok
proof (rule claim_milestone_Inr)
  fix c :: campaign and who s1 release statuses
  let ?st = "if list_all (\<lambda>i. fmlookup statuses (cid, i) = Some Claimed) [0..<length (milestones_of c) mod 256]
             then Completed else status c"
  let ?c = "c\<lparr>total_disbursed := add128 (total_disbursed c) release, status := ?st\<rparr>"
  assume c: "fmlookup (campaigns s) cid = Some c" and st: "status c = MilestonePhase"
    and rel: "release = min (bps_of (total_raised c) (release_bps (milestones_of c ! index))) (total_raised c - total_disbursed c)"
    and t: "pay_out T cid c who (bps_of release (protocol_fee_bps c)) (release - bps_of release (protocol_fee_bps c)) s = Inr s1"
    and s': "s' = cf_event (MilestoneFundsClaimed cid index (release - bps_of release (protocol_fee_bps c)))
      (put_campaign cid ?c (s1\<lparr>milestone_statuses := statuses\<rparr>))"
  have ci: "camp_inv T (investments s) (milestone_statuses s) cid c" using inv c by (rule cf_inv_camp)
  have so: "camp_solvent T amin (cf_ledger s) (investments s) cid c" using sol c by (simp add: cf_solvent_def)
  have id: "cid \<le> u32_max" using inv c by (fastforce simp: cf_inv_def ids_inv_def contains_key_def)
  have cov: "covers K amin (cf_ledger s) (funding_currency (config c)) (campaign_account T cid)
      (owed (investments s) cid c) (creation_deposit c)"
    using so st T(2) by (auto simp: camp_solvent_def)
  obtain l ev where s1: "s1 = s\<lparr>cf_events := ev, cf_ledger := l\<rparr>" using pay_out_Inr [OF t] by blast
  have "total_disbursed c \<le> total_raised c" "total_raised c \<le> u128_max" using ci by (simp_all add: camp_inv_def)
  then have "add128 (total_disbursed c) release = total_disbursed c + release" "total_disbursed c + release \<le> total_raised c"
    using rel by simp_all
  then have ow: "owed (investments s) cid ?c + release = owed (investments s) cid c"
    using st by (simp add: owed_def)
  have "owed (investments s) cid ?c + (bps_of release (protocol_fee_bps c) + (release - bps_of release (protocol_fee_bps c)))
      \<le> owed (investments s) cid c"
    using ow by (simp add: le_add_diff_inverse [OF bps_of_le])
  moreover have "funding_currency (config c) = Native \<and> creation_deposit c \<noteq> 0 \<longrightarrow>
      native_minimum K \<le> owed (investments s) cid ?c"
    using deposit_ge [OF ci] T(2) deposit_owed [of ?c "investments s" cid] by auto
  ultimately have E: "inv (cf_ledger s1)"
      "ledger_le K amin (funding_currency (config c)) (campaign_account T cid) (cf_ledger s) (cf_ledger s1)"
      "covers K amin (cf_ledger s1) (funding_currency (config c)) (campaign_account T cid)
        (owed (investments s) cid ?c) (creation_deposit c)"
    using pay_out_effect [OF T(2) i t cov] by blast+
  then have own: "camp_solvent T amin (cf_ledger s') (investments s') cid ?c"
    using own_deposit [OF so T(2) E(2)] T(2) by (simp add: camp_solvent_def s' s1)
  show ?thesis
    using solvent_update [OF sol T inv _ id _ _ _ own, of "funding_currency (config c)" "campaign_account T cid"]
      campaign_account_inj [OF T(1) _ id] E(1,2) by (simp add: s' s1)
qed

lemma claim_creation_deposit_solvent:
  assumes sol: "cf_solvent T amin s" and T: "cf_config_ok T" "currency T = K" and inv: "cf_inv T s"
    and i: "inv (cf_ledger s)" and ok: "claim_creation_deposit T org cid s = Inr s'"
  shows "cf_solvent T amin s' \<and> inv (cf_ledger s')"
proof -
  from ok obtain c l who er where c: "fmlookup (campaigns s) cid = Some c"
    and t: "native_transfer K (campaign_account T cid) who (creation_deposit c) er (cf_ledger s) = Inr l"
    and s': "s' = cf_event (CreationDepositClaimed cid who (creation_deposit c)) (clear_whitelist cid
      ((put_campaign cid (c\<lparr>creation_deposit := 0\<rparr>) (s\<lparr>cf_ledger := l\<rparr>))\<lparr>creator_campaigns :=
         fmupd who (remove1 cid (get_or [] (creator_campaigns s) who)) (creator_campaigns s)\<rparr>))"
    using T(2) by (auto simp: claim_creation_deposit_def Let_def dispatch_simps)
  let ?c = "c\<lparr>creation_deposit := 0\<rparr>" and ?a = "campaign_account T cid"
  note E = native_transfer_effect [OF i t]
  have so: "camp_solvent T amin (cf_ledger s) (investments s) cid c" using sol c by (simp add: cf_solvent_def)
  have id: "cid \<le> u32_max" using inv c by (fastforce simp: cf_inv_def ids_inv_def contains_key_def)
  have "covers K amin l (funding_currency (config c)) ?a (owed (investments s) cid ?c) 0"
    if cov: "covers K amin (cf_ledger s) (funding_currency (config c)) ?a (owed (investments s) cid c) (creation_deposit c)"
  proof (cases "funding_currency (config c) = Native")
    case True
    then have "owed (investments s) cid ?c + creation_deposit c \<le> owed (investments s) cid c" by (simp add: owed_def)
    then show ?thesis using True covers_debit [OF cov [unfolded True] E(2,3)] by simp
  next
    case False
    then show ?thesis using covers_mono [OF cov E(2)] by (auto simp: owed_def covers_def split: payment_currency.splits if_splits)
  qed
  then have own: "camp_solvent T amin (cf_ledger s') (investments s') cid ?c"
    using so T(2) by (auto simp: camp_solvent_def s')
  show ?thesis
    using solvent_update [OF sol T inv _ id _ _ _ own, of Native ?a] campaign_account_inj [OF T(1) _ id] E(1,2)
    by (simp add: s')
qed

lemma invest_solvent:
  assumes sol: "cf_solvent T amin s" and T: "cf_config_ok T" "currency T = K" and inv: "cf_inv T s"
    and i: "inv (cf_ledger s)" and fits: "\<And>who. org = Signed who \<Longrightarrow> invest_fits cid who amount s"
    and sg: "signer_ok T org" and rm: "invest_room room (Invest cid amount) s"
    and ok: "invest T H org cid amount s = Inr s'"
  shows "cf_solvent T amin s' \<and> inv (cf_ledger s')"
  using ok
proof (rule invest_Inr)
  fix c :: campaign and who s1
  let ?r = "record_of s cid who" and ?cur = "funding_currency (config c)" and ?a = "campaign_account T cid"
  let ?n = "if cid \<notin> set (get_or [] (investor_campaigns s) who) then add32 (investor_count c) 1 else investor_count c"
  let ?c = "c\<lparr>total_raised := add128 (total_raised c) amount, investor_count := ?n\<rparr>"
  assume g: "org = Signed who" "fmlookup (campaigns s) cid = Some c" "status c = Funding"
    and t: "do_transfer T ?cur who ?a amount KeepAlive s = Inr s1"
    and cs: "campaigns s' = fmupd cid ?c (campaigns s)"
    and ivs: "investments s' = fmupd (cid, who) (?r\<lparr>total_invested := add128 (total_invested ?r) amount\<rparr>) (investments s)"
    and l: "cf_ledger s' = cf_ledger s1"
  have ci: "camp_inv T (investments s) (milestone_statuses s) cid c" using inv g(2) by (rule cf_inv_camp)
  have so: "camp_solvent T amin (cf_ledger s) (investments s) cid c" using sol g(2) by (simp add: cf_solvent_def)
  have id: "cid \<le> u32_max" using inv g(2) by (fastforce simp: cf_inv_def ids_inv_def contains_key_def)
  have who: "who \<noteq> campaign_account T d" for d using sg g(1) by (auto simp: signer_ok_def)
  note E = do_transfer_effect [OF T(2) i t]
  have cr: "pay_balance K (cf_ledger s1) ?cur ?a = pay_balance K (cf_ledger s) ?cur ?a + amount"
    using rm g(2) who by (intro E(4)) (simp_all add: invest_room_def)
  have "total_raised c + amount \<le> u128_max" using fits [OF g(1)] g(2) by (simp add: invest_fits_def)
  moreover have "total_disbursed c = 0" using ci g(3) by (simp add: camp_inv_def)
  ultimately have ow: "owed (investments s') cid ?c = owed (investments s) cid c + amount"
    using g(3) by (simp add: owed_def)
  have mn: "native_minimum K \<le> creation_deposit c" using deposit_ge [OF ci] g(3) T(2) by simp
  have "covers K amin (cf_ledger s) ?cur ?a (owed (investments s) cid c) (creation_deposit c)"
    using so g(3) T(2) by (simp add: camp_solvent_def)
  then have "covers K amin (cf_ledger s1) ?cur ?a (owed (investments s') cid ?c) (creation_deposit c)"
    using cr E(2) mn unfolding ow
    by (auto simp: covers_def pay_balance_def ledger_le_def split: payment_currency.splits)
  then have "camp_solvent T amin (cf_ledger s') (investments s') cid ?c"
    using own_deposit [OF so T(2) E(2)] T(2) by (simp add: camp_solvent_def l)
  then show ?thesis
    using solvent_update [OF sol T inv cs id _ _ _, of ?cur who] E(1,2) who [symmetric] by (simp add: ivs l)
qed

lemma create_campaign_solvent:
  assumes sol: "cf_solvent T amin s" and T: "cf_config_ok T" "currency T = K" and inv: "cf_inv T s"
    and i: "inv (cf_ledger s)" and sg: "signer_ok T org"
    and ok: "create_campaign T H org cfg rules license s = Inr s'"
  shows "cf_solvent T amin s' \<and> inv (cf_ledger s')"
  using ok
proof (rule create_campaign_Inr)
  fix who a p l
  let ?a = "campaign_account T (next_campaign_id s)"
  assume g: "org = Signed who" "Suc (next_campaign_id s) \<le> u32_max"
    and t: "native_transfer (currency T) who ?a (campaign_creation_deposit T) KeepAlive (cf_ledger s) = Inr l"
    and s': "s' = cf_event (CampaignCreated (next_campaign_id s) who (deadline cfg))
      (s\<lparr>next_campaign_id := Suc (next_campaign_id s), cf_ledger := l,
         campaigns := fmupd (next_campaign_id s)
           \<lparr>creator = who, status = Funding, config = cfg,
            eligibility_rules = (case rules of Some rs \<Rightarrow> rs | None \<Rightarrow> default_eligibility_rules s),
            total_raised = 0, total_disbursed = 0, investor_count = 0,
            creation_deposit = campaign_creation_deposit T, created_at = cf_now s, paused_at = None,
            rwa_asset_id = a, participation_id = p,
            protocol_fee_bps = effective_protocol_fee_bps T s\<rparr> (campaigns s),
         creator_campaigns := fmupd who (get_or [] (creator_campaigns s) who @ [next_campaign_id s]) (creator_campaigns s)\<rparr>)"
    (is "_ = cf_event _ (s\<lparr>next_campaign_id := _, cf_ledger := _, campaigns := fmupd _ ?c _, creator_campaigns := _\<rparr>)")
  have who: "who \<noteq> campaign_account T d" for d using sg g(1) by (auto simp: signer_ok_def)
  note E = native_transfer_effect [OF i t [unfolded T(2)]]
  have "campaign_creation_deposit T \<le> native_free K l ?a" using E(4) who by simp
  then have own: "camp_solvent T amin (cf_ledger s') (investments s') (next_campaign_id s) ?c"
    using T(2) by (auto simp: camp_solvent_def s' covers_def owed_def split: payment_currency.splits)
  show ?thesis
    using solvent_update [OF sol T inv _ _ _ _ _ own, of Native who] g(2) E(1,2) who [symmetric] by (simp add: s')
qed

end

text \<open>Operations that leave the ledger alone.\<close>

lemma solvent_same:
  assumes sol: "cf_solvent T amin s" and c: "fmlookup (campaigns s) cid = Some c"
    and s': "campaigns s' = fmupd cid c' (campaigns s)" "investments s' = investments s" "cf_ledger s' = cf_ledger s"
    and c': "funding_currency (config c') = funding_currency (config c)" "creation_deposit c' = creation_deposit c"
      "owed (investments s) cid c' = owed (investments s) cid c \<or> status c' = Cancelled \<and> total_disbursed c' \<noteq> 0"
      "status c = Cancelled \<and> total_disbursed c \<noteq> 0 \<longrightarrow> status c' = Cancelled \<and> total_disbursed c' \<noteq> 0"
  shows "cf_solvent T amin s'"
proof -
  have "camp_solvent T amin (cf_ledger s) (investments s) cid c" using sol c by (simp add: cf_solvent_def)
  then have "camp_solvent T amin (cf_ledger s) (investments s) cid c'" using c' by (auto simp: camp_solvent_def)
  with sol s' show ?thesis by (auto simp: cf_solvent_def)
qed

lemma cancelled_solvent:
  assumes sol: "cf_solvent T amin s" and inv: "cf_inv T s" and c: "fmlookup (campaigns s) cid = Some c"
    and st: "status c \<notin> {Cancelled, Completed, Succeeded}"
    and s': "campaigns s' = fmupd cid (c\<lparr>status := Cancelled\<rparr>) (campaigns s)" "investments s' = investments s"
      "cf_ledger s' = cf_ledger s"
  shows "cf_solvent T amin s'"
proof (rule solvent_same [OF sol c s'])
  have "camp_inv T (investments s) (milestone_statuses s) cid c" using inv c by (rule cf_inv_camp)
  then have "status c = Failed \<or> staked (investments s) cid = total_raised c"
    using st unfolding camp_inv_def by blast
  then show "owed (investments s) cid (c\<lparr>status := Cancelled\<rparr>) = owed (investments s) cid c \<or>
      status (c\<lparr>status := Cancelled\<rparr>) = Cancelled \<and> total_disbursed (c\<lparr>status := Cancelled\<rparr>) \<noteq> 0"
    using st by (auto simp: owed_def)
qed simp_all

lemma finalized_solvent:
  assumes sol: "cf_solvent T amin s" and inv: "cf_inv T s" and c: "fmlookup (campaigns s) cid = Some c"
    and st: "status c = Funding" and fin: "do_finalize cid c s = (st', s1)"
    and s': "campaigns s' = fmupd cid (c\<lparr>status := st'\<rparr>) (campaigns s)" "investments s' = investments s"
      "cf_ledger s' = cf_ledger s"
  shows "cf_solvent T amin s'"
proof (rule solvent_same [OF sol c s'])
  have ci: "camp_inv T (investments s) (milestone_statuses s) cid c" using inv c by (rule cf_inv_camp)
  then have "staked (investments s) cid = total_raised c" "total_disbursed c = 0" "length (milestones_of c) \<le> 255"
    using st by (simp_all add: camp_inv_def)
  moreover from this have "st' \<in> {MilestonePhase, Succeeded, Failed}" using do_finalize_cases [OF _ fin] by auto
  ultimately show "owed (investments s) cid (c\<lparr>status := st'\<rparr>) = owed (investments s) cid c \<or>
      status (c\<lparr>status := st'\<rparr>) = Cancelled \<and> total_disbursed (c\<lparr>status := st'\<rparr>) \<noteq> 0"
    using st by (auto simp: owed_def)
qed (use st in simp_all)

text \<open>Calls that change neither the ledger nor the amounts.\<close>

lemma quiet_solvent:
  assumes "cf_solvent T amin s" "campaigns s' = campaigns s" "investments s' = investments s" "cf_ledger s' = cf_ledger s"
  shows "cf_solvent T amin s'"
  using assms by (simp add: cf_solvent_def)

lemma status_calls_solvent:
  assumes sol: "cf_solvent T amin s" and inv: "cf_inv T s"
  shows "cancel_campaign T org cid s = Inr s' \<Longrightarrow> cf_solvent T amin s' \<and> cf_ledger s' = cf_ledger s"
    and "report_license_revoked T H org cid s = Inr s' \<Longrightarrow> cf_solvent T amin s' \<and> cf_ledger s' = cf_ledger s"
    and "finalize_campaign T org cid s = Inr s' \<Longrightarrow> cf_solvent T amin s' \<and> cf_ledger s' = cf_ledger s"
    and "force_finalize_campaign T org cid s = Inr s' \<Longrightarrow> cf_solvent T amin s' \<and> cf_ledger s' = cf_ledger s"
    and "pause_campaign T org cid s = Inr s' \<Longrightarrow> cf_solvent T amin s' \<and> cf_ledger s' = cf_ledger s"
    and "resume_campaign T H org cid s = Inr s' \<Longrightarrow> cf_solvent T amin s' \<and> cf_ledger s' = cf_ledger s"
proof goal_cases
  case 1
  then obtain c where "fmlookup (campaigns s) cid = Some c" "status c \<notin> {Cancelled, Completed, Succeeded}"
    and s': "s' = cf_event (CampaignCancelled cid) (clear_whitelist cid
      (put_campaign cid (c\<lparr>status := Cancelled\<rparr>) (remove_milestones cid c s)))"
    by (auto simp: cancel_campaign_def Let_def dispatch_simps)
  with cancelled_solvent [OF sol inv] show ?case by simp
next
  case 2
  then obtain c where "fmlookup (campaigns s) cid = Some c" "status c \<notin> {Cancelled, Completed, Succeeded}"
    and s': "s' = cf_event (CampaignCancelled cid) (cf_event (CampaignLicenseReported cid) (clear_whitelist cid
      (put_campaign cid (c\<lparr>status := Cancelled\<rparr>) (remove_milestones cid c s))))"
    by (auto simp: report_license_revoked_def Let_def dispatch_simps case_prod_Inr)
  with cancelled_solvent [OF sol inv] show ?case by simp
next
  case 3
  then obtain c st s1 where "fmlookup (campaigns s) cid = Some c" "status c = Funding"
    and fin: "do_finalize cid c s = (st, s1)"
    and s': "s' = put_campaign cid (c\<lparr>status := st\<rparr>) (cf_event (CampaignFinalized cid st) s1)"
    by (auto simp: finalize_campaign_def Let_def dispatch_simps case_prod_Inr)
  with finalized_solvent [OF sol inv] show ?case by (simp add: do_finalize_frame [OF fin])
next
  case 4
  then obtain c st s1 where "fmlookup (campaigns s) cid = Some c" "status c = Funding"
    and fin: "do_finalize cid c s = (st, s1)"
    and s': "s' = put_campaign cid (c\<lparr>status := st\<rparr>) (cf_event (CampaignForceFinalized cid st) s1)"
    by (auto simp: force_finalize_campaign_def Let_def dispatch_simps case_prod_Inr)
  with finalized_solvent [OF sol inv] show ?case by (simp add: do_finalize_frame [OF fin])
next
  case 5
  then obtain c where "fmlookup (campaigns s) cid = Some c" "status c = Funding"
    and "s' = cf_event (CampaignPaused cid) (put_campaign cid (c\<lparr>paused_at := Some (cf_now s), status := Paused\<rparr>) s)"
    by (auto simp: pause_campaign_def dispatch_simps)
  with solvent_same [OF sol, of cid c s'] show ?case by (simp add: owed_def)
next
  case 6
  then obtain c d where "fmlookup (campaigns s) cid = Some c" "status c = Paused"
    and "s' = cf_event (CampaignResumed cid) (put_campaign cid
      (c\<lparr>config := (config c)\<lparr>deadline := d\<rparr>, paused_at := None, status := Funding\<rparr>) s)"
    by (auto simp: resume_campaign_def Let_def dispatch_simps)
  with solvent_same [OF sol, of cid c s'] show ?case by (simp add: owed_def)
qed

lemma quiet_calls:
  assumes "cf_dispatch T H org call s = Inr s'"
    and "case call of SetDefaultEligibility _ \<Rightarrow> True | SubmitMilestone _ _ \<Rightarrow> True | ApproveMilestone _ _ \<Rightarrow> True
      | RejectMilestone _ _ \<Rightarrow> True | AddToWhitelist _ _ \<Rightarrow> True | RemoveFromWhitelist _ _ \<Rightarrow> True
      | SetProtocolConfig _ _ \<Rightarrow> True | _ \<Rightarrow> False"
  shows "campaigns s' = campaigns s \<and> investments s' = investments s \<and> cf_ledger s' = cf_ledger s"
  using assms
  by (cases call)
    (auto simp: set_default_eligibility_def submit_milestone_def approve_milestone_def reject_milestone_def
      add_to_whitelist_def remove_from_whitelist_def set_protocol_config_def Let_def dispatch_simps split: if_splits)

context payments
begin

lemma cf_dispatch_solvent:
  assumes sol: "cf_solvent T amin s" and T: "cf_config_ok T" "currency T = K" and inv: "cf_inv T s"
    and i: "inv (cf_ledger s)" and call: "call_fits T org call s" "signer_ok T org" "invest_room room call s"
    and ok: "cf_dispatch T H org call s = Inr s'"
  shows "cf_solvent T amin s' \<and> inv (cf_ledger s')"
proof (cases call)
  case (CreateCampaign cfg rules license)
  with ok show ?thesis using create_campaign_solvent [OF sol T inv i call(2)] by simp
next
  case (Invest cid amount)
  with ok call have inv_ok: "invest T H org cid amount s = Inr s'"
    and fits: "\<And>who. org = Signed who \<Longrightarrow> invest_fits cid who amount s"
    and rm: "invest_room room (Invest cid amount) s" by (auto simp: call_fits_def)
  show ?thesis by (rule invest_solvent [OF sol T inv i fits call(2) rm inv_ok])
next
  case (CancelCampaign cid)
  with ok status_calls_solvent(1) [OF sol inv] i show ?thesis by simp
next
  case (ReportLicenseRevoked cid)
  with ok status_calls_solvent(2) [OF sol inv] i show ?thesis by simp
next
  case (FinalizeCampaign cid)
  with ok status_calls_solvent(3) [OF sol inv] i show ?thesis by simp
next
  case (ForceFinalizeCampaign cid)
  with ok status_calls_solvent(4) [OF sol inv] i show ?thesis by simp
next
  case (PauseCampaign cid)
  with ok status_calls_solvent(5) [OF sol inv] i show ?thesis by simp
next
  case (ResumeCampaign cid)
  with ok status_calls_solvent(6) [OF sol inv] i show ?thesis by simp
next
  case (WithdrawInvestment cid amount)
  with ok withdraw_investment_solvent [OF sol T inv i] show ?thesis by simp
next
  case (ClaimRefund cid)
  with ok claim_refund_solvent [OF sol T inv i] show ?thesis by simp
next
  case (ClaimFunds cid)
  with ok claim_funds_solvent [OF sol T inv i] show ?thesis by simp
next
  case (ClaimCreationDeposit cid)
  with ok claim_creation_deposit_solvent [OF sol T inv i] show ?thesis by simp
next
  case (ClaimMilestoneFunds cid index)
  with ok claim_milestone_funds_solvent [OF sol T inv i] show ?thesis by simp
qed (use i quiet_solvent [OF sol] quiet_calls [OF ok] in simp_all)

end

end
