(* ===== verification/Crowdfunding_System.thy ===== *)
theory Crowdfunding_System
  imports Crowdfunding_Solvency
begin

text \<open>
  The crowdfunding pallet as a transition system: calls by any origin with any answers of the
  license and NFT hooks, calls that fail and are rolled back, and everything else that happens on
  the chain (blocks passing, other transfers), which is only required not to take funds from the
  campaign accounts. The invariant and the solvency of the campaign accounts hold in every
  reachable state, and a campaign only moves along its life cycle.
\<close>

section \<open>The transition system\<close>

inductive cf_step ::
  "'l cf_config \<Rightarrow> ('l \<Rightarrow> bool) \<Rightarrow> ('l \<Rightarrow> nat \<Rightarrow> bool) \<Rightarrow> ('l \<Rightarrow> nat \<Rightarrow> balance) \<Rightarrow> 'l cf_state \<Rightarrow> 'l cf_state \<Rightarrow> bool"
  for T I room amin where
  call: "\<lbrakk>cf_dispatch T H org call s = Inr s'; call_fits T org call s; signer_ok T org; invest_room room call s\<rbrakk> \<Longrightarrow>
    cf_step T I room amin s s'"
| failed: "cf_dispatch T H org call s = Inl e \<Longrightarrow> cf_step T I room amin s s"
| elsewhere: "\<lbrakk>I l; cf_now s \<le> now; \<forall>i. amin l i = amin (cf_ledger s) i;
    \<forall>cur cid. pay_balance (currency T) (cf_ledger s) cur (campaign_account T cid)
      \<le> pay_balance (currency T) l cur (campaign_account T cid)\<rbrakk> \<Longrightarrow>
    cf_step T I room amin s (s\<lparr>cf_now := now, cf_ledger := l\<rparr>)"

definition cf_start :: "('l \<Rightarrow> bool) \<Rightarrow> 'l cf_state \<Rightarrow> bool" where
  "cf_start I s = (\<exists>now l. I l \<and> s = cf_init now l)"

lemma cf_inv_elsewhere: "cf_inv T (s\<lparr>cf_now := now, cf_ledger := l\<rparr>) = cf_inv T s"
  by (simp add: cf_inv_def)

lemma cf_solvent_elsewhere:
  assumes "cf_solvent T amin s" "\<forall>i. amin l i = amin (cf_ledger s) i"
    and le: "\<forall>cur cid. pay_balance (currency T) (cf_ledger s) cur (campaign_account T cid)
      \<le> pay_balance (currency T) l cur (campaign_account T cid)"
  shows "cf_solvent T amin (s\<lparr>cf_now := now, cf_ledger := l\<rparr>)"
proof -
  have "camp_solvent T amin l (investments s) cid c" if "fmlookup (campaigns s) cid = Some c" for cid c
  proof -
    have old: "camp_solvent T amin (cf_ledger s) (investments s) cid c" using assms(1) that by (simp add: cf_solvent_def)
    have native: "native_free (currency T) (cf_ledger s) (campaign_account T cid)
        \<le> native_free (currency T) l (campaign_account T cid)"
      using le [rule_format, of Native cid] by (simp add: pay_balance_def)
    have asset: "fungibles_balance (currency T) (cf_ledger s) i (campaign_account T cid)
        \<le> fungibles_balance (currency T) l i (campaign_account T cid)" for i
      using le [rule_format, of "Asset i" cid] by (simp add: pay_balance_def)
    from old native asset assms(2) show ?thesis
      unfolding camp_solvent_def covers_def
      by (cases "funding_currency (config c)") (auto intro: order_trans)
  qed
  then show ?thesis by (simp add: cf_solvent_def)
qed

lemma cf_init_ledger: "cf_ledger (cf_init now l) = l"
  by (simp add: cf_init_def)

lemma cf_solvent_init: "cf_solvent T amin (cf_init now l)"
  by (simp add: cf_solvent_def cf_init_def)

context payments
begin

lemma cf_reachable_inv:
  assumes reach: "reachable (cf_start inv) (cf_step T inv room amin) s"
    and T: "cf_config_ok T" "currency T = K"
  shows "cf_inv T s \<and> cf_solvent T amin s \<and> inv (cf_ledger s)"
  using reach
proof (rule reachable_invariant)
  fix s :: "'l cf_state"
  assume "cf_start inv s"
  then show "cf_inv T s \<and> cf_solvent T amin s \<and> inv (cf_ledger s)"
    using cf_init_inv cf_solvent_init by (auto simp: cf_start_def cf_init_ledger)
next
  fix s s' :: "'l cf_state"
  assume I: "cf_inv T s \<and> cf_solvent T amin s \<and> inv (cf_ledger s)" and "cf_step T inv room amin s s'"
  from this(2) show "cf_inv T s' \<and> cf_solvent T amin s' \<and> inv (cf_ledger s')"
  proof cases
    case (call H org call)
    then show ?thesis using I T cf_dispatch_inv cf_dispatch_solvent by blast
  next
    case (elsewhere l now)
    then show ?thesis using I cf_solvent_elsewhere [of T amin s l now] by (simp add: cf_inv_elsewhere)
  qed (use I in simp)
qed

end

section \<open>The life cycle of a campaign\<close>

definition status_step :: "campaign_status \<Rightarrow> campaign_status \<Rightarrow> bool" where
  "status_step a b = (a = b \<or> (case a of
     Funding \<Rightarrow> b \<in> {Paused, Succeeded, Failed, MilestonePhase, Cancelled}
   | Paused \<Rightarrow> b \<in> {Funding, Cancelled}
   | MilestonePhase \<Rightarrow> b \<in> {Completed, Cancelled}
   | Succeeded \<Rightarrow> b = Completed
   | Failed \<Rightarrow> b = Cancelled
   | _ \<Rightarrow> False))"

text \<open>How one call may change a campaign.\<close>

definition evolves :: "campaign \<Rightarrow> campaign \<Rightarrow> bool" where
  "evolves c c' =
    (status_step (status c) (status c') \<and> creator c' = creator c \<and>
     config c' = (config c)\<lparr>deadline := deadline (config c')\<rparr> \<and>
     eligibility_rules c' = eligibility_rules c \<and> created_at c' = created_at c \<and>
     rwa_asset_id c' = rwa_asset_id c \<and> participation_id c' = participation_id c \<and>
     protocol_fee_bps c' = protocol_fee_bps c \<and>
     total_disbursed c \<le> total_disbursed c' \<and> creation_deposit c' \<in> {creation_deposit c, 0} \<and>
     (status c \<notin> {Funding, Paused} \<longrightarrow> total_raised c' = total_raised c))"

lemma evolves_refl [simp]: "evolves c c"
  by (simp add: evolves_def status_step_def)

lemma config_deadline [simp]: "(c :: campaign_config) = c\<lparr>deadline := deadline c\<rparr>"
  by simp

lemma evolves_upd:
  assumes "campaigns s' = fmupd cid c' (campaigns s)" "fmlookup (campaigns s) cid = Some c" "evolves c c'"
    and "fmlookup (campaigns s) k = Some d"
  shows "\<exists>d'. fmlookup (campaigns s') k = Some d' \<and> evolves d d'"
  using assms by auto

lemma cancelled_step:
  "status c \<notin> {Cancelled, Completed, Succeeded} \<Longrightarrow> evolves c (c\<lparr>status := Cancelled\<rparr>)"
  by (cases "status c") (simp_all add: evolves_def status_step_def)

lemma do_finalize_status:
  "do_finalize cid c s = (st, s1) \<Longrightarrow> st \<in> {Succeeded, Failed, MilestonePhase} \<and>
     campaigns s1 = campaigns s \<and> investments s1 = investments s"
  by (auto simp: do_finalize_def split: funding_model.splits option.splits if_splits)

lemma status_calls_evolve:
  assumes "fmlookup (campaigns s) k = Some d"
  shows "finalize_campaign T org cid s = Inr s' \<Longrightarrow> \<exists>d'. fmlookup (campaigns s') k = Some d' \<and> evolves d d'"
    "force_finalize_campaign T org cid s = Inr s' \<Longrightarrow> \<exists>d'. fmlookup (campaigns s') k = Some d' \<and> evolves d d'"
    "cancel_campaign T org cid s = Inr s' \<Longrightarrow> \<exists>d'. fmlookup (campaigns s') k = Some d' \<and> evolves d d'"
    "report_license_revoked T H org cid s = Inr s' \<Longrightarrow> \<exists>d'. fmlookup (campaigns s') k = Some d' \<and> evolves d d'"
    "pause_campaign T org cid s = Inr s' \<Longrightarrow> \<exists>d'. fmlookup (campaigns s') k = Some d' \<and> evolves d d'"
    "resume_campaign T H org cid s = Inr s' \<Longrightarrow> \<exists>d'. fmlookup (campaigns s') k = Some d' \<and> evolves d d'"
    "claim_creation_deposit T org cid s = Inr s' \<Longrightarrow> \<exists>d'. fmlookup (campaigns s') k = Some d' \<and> evolves d d'"
proof goal_cases
  case 1
  then show ?case using assms
    by (auto simp: finalize_campaign_def dispatch_simps case_prod_Inr put_campaign_def cf_event_def evolves_def status_step_def
        dest!: do_finalize_status)
next
  case 2
  then show ?case using assms
    by (auto simp: force_finalize_campaign_def dispatch_simps case_prod_Inr put_campaign_def cf_event_def evolves_def status_step_def
        dest!: do_finalize_status)
next
  case 3
  then show ?case using assms
    by (auto simp: cancel_campaign_def dispatch_simps Let_def put_campaign_def cf_event_def clear_whitelist_def
        intro!: cancelled_step)
next
  case 4
  then show ?case using assms
    by (auto simp: report_license_revoked_def dispatch_simps case_prod_Inr Let_def put_campaign_def cf_event_def clear_whitelist_def
        intro!: cancelled_step)
next
  case 5
  then show ?case using assms
    by (auto simp: pause_campaign_def dispatch_simps put_campaign_def cf_event_def evolves_def status_step_def)
next
  case 6
  then show ?case using assms
    by (auto simp: resume_campaign_def dispatch_simps Let_def put_campaign_def cf_event_def evolves_def status_step_def)
next
  case 7
  then show ?case using assms
    by (auto simp: claim_creation_deposit_def dispatch_simps Let_def put_campaign_def cf_event_def clear_whitelist_def
        evolves_def status_step_def)
qed

lemma cf_dispatch_evolves:
  assumes inv: "cf_inv T s" and ok: "cf_dispatch T H org call s = Inr s'"
    and d: "fmlookup (campaigns s) k = Some d"
  shows "\<exists>d'. fmlookup (campaigns s') k = Some d' \<and> evolves d d'"
proof (cases call)
  case (CreateCampaign cfg rules license)
  have "k < next_campaign_id s" using inv d by (auto simp: cf_inv_def ids_inv_def contains_key_def)
  with CreateCampaign ok d show ?thesis by (auto simp: cf_event_def elim!: create_campaign_Inr)
next
  case (Invest cid amount)
  with ok have "invest T H org cid amount s = Inr s'" by simp
  then show ?thesis
    by (rule invest_Inr) (erule (1) evolves_upd, simp_all add: evolves_def status_step_def d)
next
  case (WithdrawInvestment cid amount)
  with ok have "withdraw_investment T org cid amount s = Inr s'" by simp
  then show ?thesis
    by (rule withdraw_Inr) (erule (1) evolves_upd, auto simp add: evolves_def status_step_def d)
next
  case (ClaimRefund cid)
  with ok have "claim_refund T org cid s = Inr s'" by simp
  then show ?thesis
    by (rule claim_refund_Inr) (erule (1) evolves_upd, simp_all add: evolves_def status_step_def d)
next
  case (ClaimFunds cid)
  with ok obtain c who s1 where c: "fmlookup (campaigns s) cid = Some c" "status c = Succeeded"
    and po: "pay_out T cid c who (bps_of (total_raised c - total_disbursed c) (protocol_fee_bps c))
      (total_raised c - total_disbursed c - bps_of (total_raised c - total_disbursed c) (protocol_fee_bps c)) s = Inr s1"
    and s': "campaigns s' = fmupd cid (c\<lparr>total_disbursed := total_raised c, status := Completed\<rparr>) (campaigns s1)"
    by (auto simp: claim_funds_def Let_def dispatch_simps cf_event_def put_campaign_def)
  have "campaigns s1 = campaigns s" using pay_out_Inr [OF po] by auto
  moreover have "total_disbursed c \<le> total_raised c" using cf_inv_camp [OF inv c(1)] by (simp add: camp_inv_def)
  ultimately show ?thesis using c s' evolves_upd [of s' cid _ s c k d] d by (auto simp: evolves_def status_step_def)
next
  case (ClaimMilestoneFunds cid index)
  with ok have run: "claim_milestone_funds T org cid index s = Inr s'" by simp
  then show ?thesis
  proof (rule claim_milestone_Inr)
    fix c who s1 release statuses
    assume c: "fmlookup (campaigns s) cid = Some c" "status c = MilestonePhase"
      and po: "pay_out T cid c who (bps_of release (protocol_fee_bps c)) (release - bps_of release (protocol_fee_bps c)) s = Inr s1"
      and s': "s' = cf_event (MilestoneFundsClaimed cid index (release - bps_of release (protocol_fee_bps c)))
      (put_campaign cid (c\<lparr>total_disbursed := add128 (total_disbursed c) release,
         status := (if list_all (\<lambda>i. fmlookup statuses (cid, i) = Some Claimed) [0..<length (milestones_of c) mod 256]
                    then Completed else status c)\<rparr>) (s1\<lparr>milestone_statuses := statuses\<rparr>))"
    have "campaigns s1 = campaigns s" using pay_out_Inr [OF po] by auto
    moreover have "total_disbursed c \<le> u128_max" using cf_inv_camp [OF inv c(1)] by (simp add: camp_inv_def)
    ultimately show ?thesis using c evolves_upd [of s' cid _ s c k d] d
      by (auto simp: s' cf_event_def put_campaign_def evolves_def status_step_def sat_add_def)
  qed
qed (use ok d status_calls_evolve [OF d] quiet_calls [OF ok] in simp_all)

section \<open>Facts about all later states\<close>

lemma step_deposit_gone:
  assumes "cf_inv T s \<and> (\<exists>c. fmlookup (campaigns s) cid = Some c \<and> creation_deposit c = 0)" "cf_config_ok T"
    and "cf_step T I room amin s s'"
  shows "cf_inv T s' \<and> (\<exists>c. fmlookup (campaigns s') cid = Some c \<and> creation_deposit c = 0)"
  using assms(3)
proof cases
  case (call H org call)
  then have "cf_inv T s'" using assms cf_dispatch_inv by blast
  moreover obtain c where "fmlookup (campaigns s) cid = Some c" "creation_deposit c = 0" using assms(1) by blast
  ultimately show ?thesis using cf_dispatch_evolves [OF _ call(1)] assms(1) by (fastforce simp: evolves_def)
qed (use assms in \<open>auto simp: cf_inv_elsewhere\<close>)

definition refunding :: "'l cf_config \<Rightarrow> nat \<Rightarrow> account_id \<Rightarrow> 'l cf_state \<Rightarrow> bool" where
  "refunding T cid who s =
    (cf_inv T s \<and> fmlookup (investments s) (cid, who) = None \<and>
     (\<exists>c. fmlookup (campaigns s) cid = Some c \<and> status c \<in> {Failed, Cancelled}))"

lemma dispatch_no_new_record:
  assumes "cf_dispatch T H org call s = Inr s'" "fmlookup (investments s) (cid, who) = None"
    and c: "fmlookup (campaigns s) cid = Some c" "status c \<in> {Failed, Cancelled}"
  shows "fmlookup (investments s') (cid, who) = None"
proof (cases call)
  case (CreateCampaign cfg rules license)
  with assms show ?thesis by (auto simp: cf_event_def elim!: create_campaign_Inr)
next
  case (Invest k amount)
  with assms have "invest T H org k amount s = Inr s'" by simp
  then show ?thesis using assms(2) c by (rule_tac invest_Inr) auto
next
  case (WithdrawInvestment k amount)
  with assms have "withdraw_investment T org k amount s = Inr s'" by simp
  then show ?thesis using assms(2) c by (rule_tac withdraw_Inr) auto
next
  case (ClaimRefund k)
  with assms have "claim_refund T org k s = Inr s'" by simp
  then show ?thesis using assms(2) by (rule_tac claim_refund_Inr) auto
next
  case (ClaimFunds k)
  with assms show ?thesis
    by (auto simp: claim_funds_def Let_def dispatch_simps cf_event_def put_campaign_def dest!: pay_out_Inr)
next
  case (ClaimMilestoneFunds k index)
  with assms have "claim_milestone_funds T org k index s = Inr s'" by simp
  then show ?thesis using assms(2)
    by (rule_tac claim_milestone_Inr) (auto simp: cf_event_def put_campaign_def dest!: pay_out_Inr)
next
  case (FinalizeCampaign k)
  with assms show ?thesis
    by (auto simp: finalize_campaign_def dispatch_simps case_prod_Inr put_campaign_def cf_event_def dest!: do_finalize_status)
next
  case (ForceFinalizeCampaign k)
  with assms show ?thesis
    by (auto simp: force_finalize_campaign_def dispatch_simps case_prod_Inr put_campaign_def cf_event_def dest!: do_finalize_status)
qed (use assms quiet_calls [OF assms(1)] in
  \<open>auto simp: cancel_campaign_def report_license_revoked_def pause_campaign_def resume_campaign_def claim_creation_deposit_def
     dispatch_simps case_prod_Inr Let_def put_campaign_def cf_event_def clear_whitelist_def\<close>)

lemma step_refunding:
  assumes "refunding T cid who s" "cf_config_ok T" "cf_step T I room amin s s'"
  shows "refunding T cid who s'"
  using assms(3)
proof cases
  case (call H org call)
  obtain c where c: "fmlookup (campaigns s) cid = Some c" "status c \<in> {Failed, Cancelled}"
    and inv: "cf_inv T s" "fmlookup (investments s) (cid, who) = None"
    using assms(1) by (auto simp: refunding_def)
  obtain c' where "fmlookup (campaigns s') cid = Some c'" "evolves c c'"
    using cf_dispatch_evolves [OF inv(1) call(1) c(1)] by blast
  moreover have "status c' \<in> {Failed, Cancelled}" using calculation c(2) by (auto simp: evolves_def status_step_def)
  ultimately show ?thesis
    using cf_dispatch_inv [OF assms(2) inv(1) call(2,1)] dispatch_no_new_record [OF call(1) inv(2) c]
    by (auto simp: refunding_def)
qed (use assms in \<open>auto simp: refunding_def cf_inv_elsewhere\<close>)

lemma later_states:
  assumes "(cf_step T I room amin)\<^sup>*\<^sup>* s t" "P s" "\<And>s s'. \<lbrakk>P s; cf_step T I room amin s s'\<rbrakk> \<Longrightarrow> P s'"
  shows "P t"
  using assms by (induction rule: rtranclp_induct) auto

end
