(* ===== verification/Crowdfunding_Example.thy ===== *)
theory Crowdfunding_Example
  imports Crowdfunding_System Ledger_Example
begin

text \<open>
  Concrete runs of the crowdfunding pallet on the example ledger: a funded campaign, a failed one,
  and a milestone campaign. The states are computed by the model; the theorems about reachable
  states are instantiated on them.
\<close>

fun cf_run ::
  "'l cf_config \<Rightarrow> cf_hooks \<Rightarrow> ('l \<Rightarrow> nat \<Rightarrow> bool) \<Rightarrow> (block_number \<times> origin \<times> cf_call) list \<Rightarrow> 'l cf_state \<Rightarrow> ('l cf_state) option" where
  "cf_run T H room [] s = Some s"
| "cf_run T H room ((now, org, call) # cs) s =
     (let s1 = s\<lparr>cf_now := now, cf_ledger := cf_ledger s\<rparr> in
      if cf_now s \<le> now \<and> call_fits T org call s1 \<and> invest_room room call s1 \<and>
         (case org of Signed a \<Rightarrow> a mod 256 \<noteq> 109 | _ \<Rightarrow> True)
      then (case cf_dispatch T H org call s1 of Inr s' \<Rightarrow> cf_run T H room cs s' | Inl _ \<Rightarrow> None)
      else None)"

lemma campaign_account_mod: "campaign_account T cid mod 256 = 109"
proof -
  obtain xs where "campaign_account T cid = le_value (109 # xs)"
    by (simp add: campaign_account_def into_sub_account_truncating_def decode_account_def type_id_def
        del: le_value.simps)
  then show ?thesis by simp
qed

lemma signer_plain: "(case org of Signed a \<Rightarrow> a mod 256 \<noteq> 109 | _ \<Rightarrow> True) \<Longrightarrow> signer_ok T org"
  using campaign_account_mod [of T] by (auto simp: signer_ok_def split: origin.splits)

context payments
begin

lemma cf_run_reachable:
  assumes T: "cf_config_ok T" "currency T = K"
    and "reachable (cf_start inv) (cf_step T inv room amin) s" "cf_run T H room cs s = Some s'"
  shows "reachable (cf_start inv) (cf_step T inv room amin) s'"
  using assms(3,4)
proof (induction cs arbitrary: s)
  case (Cons x cs)
  obtain now org call where x: "x = (now, org, call)" by (metis surj_pair)
  let ?s1 = "s\<lparr>cf_now := now, cf_ledger := cf_ledger s\<rparr>"
  from Cons.prems(2) obtain s2 where ok: "cf_now s \<le> now" "call_fits T org call ?s1" "invest_room room call ?s1"
      "signer_ok T org" "cf_dispatch T H org call ?s1 = Inr s2" and rest: "cf_run T H room cs s2 = Some s'"
    using signer_plain by (auto simp: x Let_def split: if_splits sum.splits)
  have "inv (cf_ledger s)" using cf_reachable_inv [OF Cons.prems(1) T] by simp
  then have "cf_step T inv room amin s ?s1" using ok(1) by (intro cf_step.elsewhere) auto
  then have "reachable (cf_start inv) (cf_step T inv room amin) ?s1" using Cons.prems(1) reachable_step by metis
  moreover have "cf_step T inv room amin ?s1 s2" using ok(5,2,4,3) by (rule cf_step.call)
  ultimately have "reachable (cf_start inv) (cf_step T inv room amin) s2" using reachable_step by metis
  then show ?case using rest by (rule Cons.IH)
qed simp

end

interpretation demo: payments "ledger_currencies demo_balances" "ledger_inv demo_balances" asset_room minimum_balance
  by (rule payments_contract [OF demo_balances_ok])

section \<open>The example campaigns\<close>

definition demo_cf :: "assets_state cf_config" where
  "demo_cf = \<lparr>currency = ledger_currencies demo_balances, admin_origin = ensure_root, force_origin = ensure_root,
     milestone_approver = ensure_root, cf_pallet_id = [99, 114, 111, 119, 100, 102, 110, 100],
     campaign_creation_deposit = 100, max_campaigns_per_creator = 3, min_campaign_duration = 5,
     max_campaign_duration = 1000, default_penalty_bps = 100, max_milestones = 10, max_eligibility_rules = 5,
     max_nft_sets = 3, max_nfts_per_set = 3, max_investments_per_investor = 5, default_fee_bps = 250,
     default_fee_recipient = 3, max_whitelist_size = 10\<rparr>"

definition demo_hooks :: cf_hooks where
  "demo_hooks = no_license (\<lambda>_ _. None)"

definition demo_config :: "funding_model \<Rightarrow> campaign_config" where
  "demo_config m = \<lparr>funding_model = m, funding_currency = Native, deadline = 50,
     hard_cap = Some 500, min_investment = None, max_investment_per_investor = None, metadata_hash = 0,
     early_withdrawal_penalty_bps = None\<rparr>"

definition demo_state :: "assets_state cf_state" where
  "demo_state = cf_init 10 demo_ledger"

definition demo_after :: "(block_number \<times> origin \<times> cf_call) list \<Rightarrow> assets_state cf_state" where
  "demo_after cs = (case cf_run demo_cf demo_hooks asset_room cs demo_state of Some s \<Rightarrow> s | None \<Rightarrow> demo_state)"

text \<open>One investor puts 200 into a campaign that needs 300, and it fails; or 400, and it succeeds.\<close>

definition funding_calls :: "balance \<Rightarrow> (block_number \<times> origin \<times> cf_call) list" where
  "funding_calls v = [(10, Signed 1, CreateCampaign (demo_config (AllOrNothing 300)) None None),
     (20, Signed 2, Invest 0 v)]"

definition failed_calls :: "(block_number \<times> origin \<times> cf_call) list" where
  "failed_calls = funding_calls 200 @ [(60, Signed 3, FinalizeCampaign 0)]"

definition funded_calls :: "(block_number \<times> origin \<times> cf_call) list" where
  "funded_calls = funding_calls 400 @ [(60, Signed 3, FinalizeCampaign 0)]"

text \<open>A campaign with two milestones, both approved and claimed.\<close>

definition milestone_calls :: "(block_number \<times> origin \<times> cf_call) list" where
  "milestone_calls =
    [(10, Signed 1, CreateCampaign (demo_config (MilestoneBased 300
        [\<lparr>release_bps = 3333, description_hash = 0\<rparr>, \<lparr>release_bps = 6667, description_hash = 0\<rparr>])) None None),
     (20, Signed 2, Invest 0 301), (60, Signed 3, FinalizeCampaign 0),
     (61, Signed 1, SubmitMilestone 0 0), (62, Root, ApproveMilestone 0 0), (63, Signed 1, ClaimMilestoneFunds 0 0),
     (64, Signed 1, SubmitMilestone 0 1), (65, Root, ApproveMilestone 0 1), (66, Signed 1, ClaimMilestoneFunds 0 1)]"

abbreviation demo_reachable :: "assets_state cf_state \<Rightarrow> bool" where
  "demo_reachable \<equiv> reachable (cf_start (ledger_inv demo_balances))
     (cf_step demo_cf (ledger_inv demo_balances) asset_room minimum_balance)"

lemma demo_cf_ok: "cf_config_ok demo_cf" "currency demo_cf = ledger_currencies demo_balances"
proof -
  show "cf_config_ok demo_cf" by code_simp
qed (simp add: demo_cf_def)

lemma demo_state_reachable: "demo_reachable demo_state"
  by (rule reachable_start) (use demo_ledger_inv in \<open>unfold cf_start_def demo_state_def, blast\<close>)

lemma demo_after_reachable: "demo_reachable (demo_after cs)"
  using demo.cf_run_reachable [OF demo_cf_ok demo_state_reachable, of demo_hooks cs] demo_state_reachable
  by (auto simp: demo_after_def split: option.splits)

end
