(* ===== verification/Crowdfunding_Theorems.thy ===== *)
theory Crowdfunding_Theorems
  imports Crowdfunding_Example
begin

text \<open>
  The properties of the crowdfunding pallet, stated for the ledger of the runtime. Theorems about
  reachable states hold for every sequence of calls and of other events on the chain.
\<close>

section \<open>Auxiliary facts\<close>




lemmas ledger_reachable = payments.cf_reachable_inv [OF payments_contract]

section \<open>Properties\<close>









text \<open>
  C2: An investor of a failed native campaign can always get the whole stake back, exactly once: while
  the creation deposit is still there, \<open>claim_refund\<close> succeeds, pays the full stake, removes the
  record, and a second claim is refused. (The account must not be frozen, and the investor must end
  up above the existential deposit.)
\<close>

theorem failed_campaign_refund_claimable:
  assumes "bal_config_ok C" "cf_config_ok T" "currency T = ledger_currencies C"
    and "reachable (cf_start (ledger_inv C)) (cf_step T (ledger_inv C) asset_room minimum_balance) s"
    and c: "fmlookup (campaigns s) cid = Some c" "status c = Failed" "funding_currency (config c) = Native"
      "creation_deposit c \<noteq> 0"
    and i: "fmlookup (investments s) (cid, who) = Some i" "total_withdrawn i < total_invested i"
    and acc: "frozen (account_of (cf_ledger s) (campaign_account T cid)) = 0" "who \<noteq> campaign_account T cid"
      "existential_deposit C \<le> free_balance (cf_ledger s) who + (total_invested i - total_withdrawn i)"
  shows "\<exists>s'. claim_refund T (Signed who) cid s = Inr s' \<and>
    free_balance (cf_ledger s') who = free_balance (cf_ledger s) who + (total_invested i - total_withdrawn i) \<and>
    fmlookup (investments s') (cid, who) = None \<and>
    claim_refund T (Signed who) cid s' = Inl (cf_err NoInvestmentFound)"
proof -
  let ?a = "campaign_account T cid" and ?v = "total_invested i - total_withdrawn i" and ?l = "cf_ledger s"
  have R: "cf_inv T s" "cf_solvent T minimum_balance s" "ledger_inv C ?l"
    using ledger_reachable [OF assms(1,4,2,3)] by simp_all
  note camp = cf_inv_camp [OF R(1) c(1)]
  have ed: "existential_deposit C \<le> creation_deposit c" using deposit_ge [OF camp] c(4) assms(3) by simp
  have "camp_solvent T minimum_balance ?l (investments s) cid c" using R(2) c(1) by (simp add: cf_solvent_def)
  then have "staked (investments s) cid + creation_deposit c \<le> free_balance ?l ?a"
    using c assms(3) by (simp add: camp_solvent_def covers_def owed_def)
  then have bal: "?v + existential_deposit C \<le> free (account_of ?l ?a)"
    using staked_ge [OF i(1)] ed by (simp add: free_balance_def)
  have disb: "total_disbursed c = 0" using camp c(2) by (simp add: camp_inv_def)
  then have ref: "refund_of c i = ?v" by (simp add: refund_of_def)
  have bi: "bal_inv C (asset_refs ?l) ?l" using R(3) by (simp add: ledger_inv_def)
  have ne: "?a \<noteq> who" and ed2: "existential_deposit C \<le> free (account_of ?l who) + ?v"
    using acc(2,3) by (simp_all add: free_balance_def)
  obtain l' where run: "transfer C ?a who ?v AllowDeath ?l = Inr l'"
    using transfer_succeeds [OF bi ne bal acc(1) ed2] by blast
  then have paid: "free_balance l' who = free_balance ?l who + ?v"
    using transfer_ok [OF bi assms(1) _ _ run] i(2) acc(2) by (simp add: free_balance_def)
  have "do_transfer T Native ?a who ?v AllowDeath s = Inr (s\<lparr>cf_ledger := l'\<rparr>)"
    using run i(2) assms(3) by (simp add: do_transfer_def)
  then obtain s' where s': "claim_refund T (Signed who) cid s = Inr s'" "cf_ledger s' = l'"
    "investments s' = fmdrop (cid, who) (investments s)"
    "campaigns s' = fmupd cid (c\<lparr>investor_count := investor_count c - 1\<rparr>) (campaigns s)"
    using c i ref by (simp add: claim_refund_def ensure_signed_def Let_def drop_investor_campaign_def cf_event_def fm_mutate_def)
  moreover from s' have "claim_refund T (Signed who) cid s' = Inl (cf_err NoInvestmentFound)"
    using c(2) by (simp add: claim_refund_def ensure_signed_def)
  ultimately show ?thesis using paid by auto
qed

theorem failed_campaign_refund_claimable_witness:
  "\<exists>s'. claim_refund demo_cf (Signed 2) 0 (demo_after failed_calls) = Inr s' \<and> free_balance (cf_ledger s') 2 = 5000 \<and>
     claim_refund demo_cf (Signed 2) 0 s' = Inl (cf_err NoInvestmentFound)"
proof -
  let ?s = "demo_after failed_calls"
  have "map_option (\<lambda>c. (funding_currency (config c), status c, creation_deposit c)) (fmlookup (campaigns ?s) 0) =
      Some (Native, Failed, 100) \<and>
    map_option (\<lambda>i. (total_invested i, total_withdrawn i)) (fmlookup (investments ?s) (0, 2)) = Some (200, 0) \<and>
    frozen (account_of (cf_ledger ?s) (campaign_account demo_cf 0)) = 0 \<and> 2 \<noteq> campaign_account demo_cf 0 \<and>
    free_balance (cf_ledger ?s) 2 = 4800"
    by code_simp
  then obtain c i where "fmlookup (campaigns ?s) 0 = Some c" "funding_currency (config c) = Native" "status c = Failed"
      "creation_deposit c = 100" "fmlookup (investments ?s) (0, 2) = Some i" "total_invested i = 200" "total_withdrawn i = 0"
      "frozen (account_of (cf_ledger ?s) (campaign_account demo_cf 0)) = 0" "2 \<noteq> campaign_account demo_cf 0"
      "free_balance (cf_ledger ?s) 2 = 4800"
    by auto
  with failed_campaign_refund_claimable [OF demo_balances_ok demo_cf_ok demo_after_reachable [of failed_calls], of 0 c 2 i]
  show ?thesis by (simp add: demo_balances_def) blast
qed

end
