(* ===== verification/Crowdfunding_Calls.thy ===== *)
theory Crowdfunding_Calls
  imports Crowdfunding_Example
begin

text \<open>
  Properties of the individual calls of the crowdfunding pallet and of their order: the life cycle,
  payments that happen at most once, exact splits, acceptance conditions and the agreement of the
  read-only queries with the calls.
\<close>

lemmas reachable_cf_inv = payments.cf_reachable_inv [OF payments_contract, THEN conjunct1]

lemma do_transfer_native:
  assumes "currency T = ledger_currencies C"
  shows "do_transfer T Native a b v er s =
    try_bind (transfer C a b v er (cf_ledger s)) (\<lambda>l. Inr (s\<lparr>cf_ledger := l\<rparr>))"
  using assms by (simp add: do_transfer_def transfer_def)

lemma transfer_zero: "transfer C a b 0 er l = Inr l"
  by (simp add: transfer_def)

lemma ledger_transfer_to:
  assumes "ledger_inv C l" "bal_config_ok C" "transfer C a b v er l = Inr l'" "a \<noteq> b"
  shows "ledger_inv C l' \<and> free_balance l' b = free_balance l b + v \<and>
    (\<forall>c. c \<noteq> a \<longrightarrow> c \<noteq> b \<longrightarrow> free_balance l' c = free_balance l c)"
  using ledger_transfer [OF assms(1-3)] assms(3,4) by (cases "v = 0") (auto simp: transfer_zero)

text \<open>
  C6: A call never removes a campaign and only moves it along its life cycle: \<open>Completed\<close> and
  \<open>Cancelled\<close> are final, a failed campaign can at most be cancelled, creator, rules, license, fee
  and everything of the configuration but the deadline never change, payouts only grow, the creation
  deposit is only ever set to zero, and the raised amount is fixed once funding is over.
\<close>

theorem campaign_life_cycle:
  assumes "bal_config_ok C" "cf_config_ok T" "currency T = ledger_currencies C"
    and "reachable (cf_start (ledger_inv C)) (cf_step T (ledger_inv C) asset_room minimum_balance) s"
    and "fmlookup (campaigns s) cid = Some c" "cf_dispatch T H org call s = Inr s'"
  shows "\<exists>c'. fmlookup (campaigns s') cid = Some c' \<and> evolves c c' \<and>
    (status c \<in> {Completed, Cancelled} \<longrightarrow> status c' = status c)"
  using cf_dispatch_evolves [OF reachable_cf_inv [OF assms(1,4,2,3)] assms(6,5)]
  by (auto simp: evolves_def status_step_def)

theorem campaign_life_cycle_witness:
  "\<exists>s' c'. cf_dispatch demo_cf demo_hooks (Signed 1) (ClaimFunds 0) (demo_after funded_calls) = Inr s' \<and>
     fmlookup (campaigns s') 0 = Some c' \<and> status_step Succeeded (status c')"
proof -
  let ?s = "demo_after funded_calls"
  have ev: "is_ok (cf_dispatch demo_cf demo_hooks (Signed 1) (ClaimFunds 0) ?s) \<and>
      map_option status (fmlookup (campaigns ?s) 0) = Some Succeeded"
    by code_simp
  then obtain s' c where run: "cf_dispatch demo_cf demo_hooks (Signed 1) (ClaimFunds 0) ?s = Inr s'"
    "fmlookup (campaigns ?s) 0 = Some c" "status c = Succeeded" by auto
  from campaign_life_cycle [OF demo_balances_ok demo_cf_ok demo_after_reachable run(2,1)] run show ?thesis
    by (auto simp: evolves_def)
qed

text \<open>
  C8: The creation deposit is paid out at most once: after a successful claim no later claim
  succeeds, whatever else happens.
\<close>

theorem creation_deposit_paid_once:
  assumes "bal_config_ok C" "cf_config_ok T" "currency T = ledger_currencies C"
    and "reachable (cf_start (ledger_inv C)) (cf_step T (ledger_inv C) asset_room minimum_balance) s"
    and ok: "claim_creation_deposit T org cid s = Inr s1"
    and "(cf_step T (ledger_inv C) asset_room minimum_balance)\<^sup>*\<^sup>* s1 s2"
  shows "\<exists>e. claim_creation_deposit T org' cid s2 = Inl e"
proof -
  have "cf_inv T s" by (rule reachable_cf_inv [OF assms(1,4,2,3)])
  then have "cf_inv T s1" using cf_dispatch_inv [OF assms(2), of s org "ClaimCreationDeposit cid"] ok
    by (simp add: call_fits_def)
  moreover have "\<exists>c. fmlookup (campaigns s1) cid = Some c \<and> creation_deposit c = 0"
    using ok by (auto simp: claim_creation_deposit_def dispatch_simps Let_def put_campaign_def cf_event_def clear_whitelist_def)
  ultimately have "cf_inv T s1 \<and> (\<exists>c. fmlookup (campaigns s1) cid = Some c \<and> creation_deposit c = 0)" by blast
  then have "cf_inv T s2 \<and> (\<exists>c. fmlookup (campaigns s2) cid = Some c \<and> creation_deposit c = 0)"
    by (rule later_states [OF assms(6)]) (rule step_deposit_gone [OF _ assms(2)])
  then show ?thesis by (cases "claim_creation_deposit T org' cid s2") (auto simp: claim_creation_deposit_def dispatch_simps)
qed

theorem creation_deposit_paid_once_witness:
  "\<exists>s1. claim_creation_deposit demo_cf (Signed 1) 0 (demo_after failed_calls) = Inr s1 \<and>
     (\<exists>e. claim_creation_deposit demo_cf (Signed 1) 0 s1 = Inl e)"
proof -
  have "is_ok (claim_creation_deposit demo_cf (Signed 1) 0 (demo_after failed_calls))" by code_simp
  then obtain s1 where run: "claim_creation_deposit demo_cf (Signed 1) 0 (demo_after failed_calls) = Inr s1" by auto
  from creation_deposit_paid_once [OF demo_balances_ok demo_cf_ok demo_after_reachable run rtranclp.rtrancl_refl] run
  show ?thesis by blast
qed

text \<open>
  C7: An investor is refunded at most once per campaign: after a successful refund no later refund of
  the same investor succeeds, whatever else happens.
\<close>

theorem refund_paid_once:
  assumes "bal_config_ok C" "cf_config_ok T" "currency T = ledger_currencies C"
    and "reachable (cf_start (ledger_inv C)) (cf_step T (ledger_inv C) asset_room minimum_balance) s"
    and ok: "claim_refund T (Signed who) cid s = Inr s1"
    and "(cf_step T (ledger_inv C) asset_room minimum_balance)\<^sup>*\<^sup>* s1 s2"
  shows "claim_refund T (Signed who) cid s2 = Inl (cf_err NoInvestmentFound)"
proof -
  have "cf_inv T s" by (rule reachable_cf_inv [OF assms(1,4,2,3)])
  then have inv: "cf_inv T s1" using cf_dispatch_inv [OF assms(2), of s "Signed who" "ClaimRefund cid"] ok
    by (simp add: call_fits_def)
  from ok have "refunding T cid who s1"
  proof (rule claim_refund_Inr)
    fix c who'
    assume "Signed who = Signed who'" "status c \<in> {Failed, Cancelled}"
      "campaigns s1 = fmupd cid (c\<lparr>investor_count := investor_count c - 1\<rparr>) (campaigns s)"
      "investments s1 = fmdrop (cid, who') (investments s)"
    then show ?thesis using inv by (simp add: refunding_def)
  qed
  then have "refunding T cid who s2"
    by (rule later_states [OF assms(6)]) (rule step_refunding [OF _ assms(2)])
  then show ?thesis by (auto simp: refunding_def claim_refund_def ensure_signed_def)
qed

theorem refund_paid_once_witness:
  "\<exists>s1. claim_refund demo_cf (Signed 2) 0 (demo_after failed_calls) = Inr s1 \<and>
     claim_refund demo_cf (Signed 2) 0 s1 = Inl (cf_err NoInvestmentFound)"
proof -
  have "is_ok (claim_refund demo_cf (Signed 2) 0 (demo_after failed_calls))" by code_simp
  then obtain s1 where run: "claim_refund demo_cf (Signed 2) 0 (demo_after failed_calls) = Inr s1" by auto
  from refund_paid_once [OF demo_balances_ok demo_cf_ok demo_after_reachable run rtranclp.rtrancl_refl] run
  show ?thesis by blast
qed

text \<open>
  C9: \<open>claim_funds\<close> of a native campaign splits the raised amount exactly: the fee recipient gets the
  fee rounded up, the creator gets all the rest, and the campaign is completed with everything
  disbursed. (The two payees and the campaign account are different accounts.)
\<close>

theorem claim_funds_split:
  assumes "bal_config_ok C" "cf_config_ok T" "currency T = ledger_currencies C"
    and "reachable (cf_start (ledger_inv C)) (cf_step T (ledger_inv C) asset_room minimum_balance) s"
    and c: "fmlookup (campaigns s) cid = Some c" "funding_currency (config c) = Native"
    and ne: "who \<noteq> effective_protocol_fee_recipient T s" "who \<noteq> campaign_account T cid"
      "effective_protocol_fee_recipient T s \<noteq> campaign_account T cid"
    and ok: "claim_funds T (Signed who) cid s = Inr s'"
  shows "creator c = who \<and> (\<exists>c'. fmlookup (campaigns s') cid = Some c' \<and> status c' = Completed \<and>
      total_disbursed c' = total_raised c') \<and>
    (let fee = bps_of (total_raised c) (protocol_fee_bps c); r = effective_protocol_fee_recipient T s in
      fee \<le> total_raised c \<and>
      free_balance (cf_ledger s') r = free_balance (cf_ledger s) r + fee \<and>
      free_balance (cf_ledger s') who = free_balance (cf_ledger s) who + (total_raised c - fee))"
proof -
  let ?a = "campaign_account T cid" and ?r = "effective_protocol_fee_recipient T s"
  let ?fee = "bps_of (total_raised c) (protocol_fee_bps c)"
  have R: "cf_inv T s" "ledger_inv C (cf_ledger s)"
    using payments.cf_reachable_inv [OF payments_contract [OF assms(1)] assms(4,2,3)] by simp_all
  have d: "status c = Succeeded \<Longrightarrow> total_disbursed c = 0" using cf_inv_camp [OF R(1) c(1)] by (simp add: camp_inv_def)
  obtain s1 where st: "status c = Succeeded" "creator c = who"
    and po: "pay_out T cid c who ?fee (total_raised c - ?fee) s = Inr s1"
    and s': "s' = cf_event (FundsClaimed cid who (total_raised c - ?fee))
        (put_campaign cid (c\<lparr>total_disbursed := total_raised c, status := Completed\<rparr>) s1)"
    using ok c(1) d by (auto simp: claim_funds_def ensure_signed_def Let_def dispatch_simps)
  obtain l1 where l1: "transfer C ?a ?r ?fee AllowDeath (cf_ledger s) = Inr l1"
    and l2: "transfer C ?a who (total_raised c - ?fee) AllowDeath l1 = Inr (cf_ledger s1)"
    using po c(2)
    by (auto simp: pay_out_def do_transfer_native [OF assms(3)] dispatch_simps cf_event_def transfer_zero split: if_splits)
  note T1 = ledger_transfer_to [OF R(2) assms(1) l1 ne(3) [symmetric]]
  note T2 = ledger_transfer_to [OF conjunct1 [OF T1] assms(1) l2 ne(2) [symmetric]]
  have r: "free_balance (cf_ledger s1) ?r = free_balance (cf_ledger s) ?r + ?fee"
    and w: "free_balance (cf_ledger s1) who = free_balance (cf_ledger s) who + (total_raised c - ?fee)"
    using T1 T2 ne by simp_all
  show ?thesis using st r w by (simp add: s' cf_event_def put_campaign_def Let_def)
qed

theorem claim_funds_split_witness:
  "\<exists>s'. claim_funds demo_cf (Signed 1) 0 (demo_after funded_calls) = Inr s' \<and>
     free_balance (cf_ledger s') 3 = 510 \<and> free_balance (cf_ledger s') 1 = 5290"
proof -
  let ?s = "demo_after funded_calls"
  have "map_option (\<lambda>c. (funding_currency (config c), total_raised c, protocol_fee_bps c)) (fmlookup (campaigns ?s) 0) =
      Some (Native, 400, 250) \<and> is_ok (claim_funds demo_cf (Signed 1) 0 ?s) \<and>
    effective_protocol_fee_recipient demo_cf ?s = 3 \<and> 1 \<noteq> campaign_account demo_cf 0 \<and> 3 \<noteq> campaign_account demo_cf 0 \<and>
    free_balance (cf_ledger ?s) 3 = 500 \<and> free_balance (cf_ledger ?s) 1 = 4900 \<and> bps_of 400 250 = 10"
    by code_simp
  then obtain c s' where c: "fmlookup (campaigns ?s) 0 = Some c" "funding_currency (config c) = Native"
      "total_raised c = 400" "protocol_fee_bps c = 250" "claim_funds demo_cf (Signed 1) 0 ?s = Inr s'"
      "effective_protocol_fee_recipient demo_cf ?s = 3" "1 \<noteq> campaign_account demo_cf 0" "3 \<noteq> campaign_account demo_cf 0"
      "free_balance (cf_ledger ?s) 3 = 500" "free_balance (cf_ledger ?s) 1 = 4900" "bps_of 400 250 = 10"
    by auto
  from claim_funds_split [OF demo_balances_ok demo_cf_ok demo_after_reachable c(1,2) _ c(7) _ c(5)] c show ?thesis
    by (simp add: Let_def)
qed

end
