(* ===== verification/Crowdfunding_Amounts.thy ===== *)
theory Crowdfunding_Amounts
  imports Crowdfunding_Example
begin

text \<open>
  Amounts and conditions: rounding of fees and refunds, when an investment is accepted, what a
  withdrawal costs, the funding window across a pause, and the eligibility query. Three closed
  theorems at the end of their sections exhibit runs in which the code does not do what its
  comments say.
\<close>

section \<open>Amounts\<close>

text \<open>
  C21: \<open>bps_of\<close> rounds up and never exceeds the amount: it is the least number whose ten-thousandfold
  reaches the amount times the (clamped) basis points, as long as that product fits the balance type;
  a non-zero share of a non-zero amount is never zero.
\<close>

theorem bps_of_rounds_up:
  assumes "amount * 10000 + 9999 \<le> u128_max"
  shows "amount * min bps 10000 \<le> 10000 * bps_of amount bps \<and>
    10000 * bps_of amount bps < amount * min bps 10000 + 10000 \<and>
    bps_of amount bps \<le> amount \<and> (bps_of amount bps = 0 \<longleftrightarrow> amount = 0 \<or> bps = 0)"
proof -
  have eq: "bps_of amount bps = bps_of amount (min bps 10000)" by (simp add: bps_of_def Let_def)
  have ex: "bps_of amount bps = (amount * min bps 10000 + 9999) div 10000"
    unfolding eq by (rule bps_of_exact [OF assms]) simp
  have "10000 * bps_of amount bps \<le> amount * min bps 10000 + 9999" unfolding ex by simp
  moreover have "amount * min bps 10000 \<le> 10000 * bps_of amount bps" unfolding eq by (rule bps_of_ge [OF assms]) simp
  moreover have "bps_of amount bps = 0 \<longleftrightarrow> amount * min bps 10000 = 0" unfolding ex by (auto simp: div_eq_0_iff)
  ultimately show ?thesis using bps_of_le [of amount bps] by (auto simp: min_def)
qed

theorem bps_of_rounds_up_witness: "bps_of 301 3333 \<le> 301 \<and> 301 * 3333 \<le> 10000 * bps_of 301 3333"
  using bps_of_rounds_up [of 301 3333] by (simp add: u128_max_def)






section \<open>Investing and withdrawing\<close>

lemma check_rules_Inr: "check_rules T H who cid s rules = Inr () \<longleftrightarrow> list_all (rule_passes T H who cid s) rules"
  by (induction rules) (auto simp: dispatch_simps)

text \<open>
  C10: \<open>invest\<close> accepts exactly the investments it should: into an existing campaign that is funding
  and not past its deadline, of a non-zero amount within the minimum, the hard cap and the maximum
  per investor, by an account that passes every eligibility rule and has room in its list of
  campaigns, and that can pay.
\<close>

theorem invest_accepts_iff:
  assumes "fmlookup (campaigns s) cid = Some c"
  shows "is_ok (invest T H (Signed who) cid amount s) \<longleftrightarrow>
    (status c = Funding \<and> cf_now s \<le> deadline (config c) \<and> amount \<noteq> 0 \<and>
    list_all (rule_passes T H who cid s) (eligibility_rules c) \<and>
    (case min_investment (config c) of None \<Rightarrow> True | Some mn \<Rightarrow> mn \<le> amount) \<and>
    (case hard_cap (config c) of None \<Rightarrow> True | Some cap \<Rightarrow> add128 (total_raised c) amount \<le> cap) \<and>
    (case max_investment_per_investor (config c) of None \<Rightarrow> True
     | Some mx \<Rightarrow> add128 (total_invested (record_of s cid who) - total_withdrawn (record_of s cid who)) amount \<le> mx) \<and>
    (cid \<in> set (campaigns_by_investor who s) \<or> length (campaigns_by_investor who s) < max_investments_per_investor T)) \<and>
    is_ok (do_transfer T (funding_currency (config c)) who (campaign_account T cid) amount KeepAlive s)"
  (is "_ \<longleftrightarrow> ?guards \<and> is_ok ?pay")
proof (cases "?guards \<and> is_ok ?pay")
  case True
  then obtain s1 l where pay: "?pay = Inr s1" "s1 = s\<lparr>cf_ledger := l\<rparr>" using do_transfer_Inr by fastforce
  have rules: "check_eligibility_inner T H who c cid s = Inr ()"
    using True by (simp add: check_eligibility_inner_def check_rules_Inr)
  have "is_ok (invest T H (Signed who) cid amount s)"
    using True by (cases "cid \<in> set (campaigns_by_investor who s)")
      (simp_all add: invest_def ensure_signed_def Let_def assms rules pay campaigns_by_investor_def try_push_def)
  with True show ?thesis by simp
next
  case False
  then show ?thesis using assms
    by (auto simp: invest_def ensure_signed_def Let_def dispatch_simps check_eligibility_inner_def check_rules_Inr
        campaigns_by_investor_def)
qed

theorem invest_accepts_iff_witness:
  "is_ok (invest demo_cf demo_hooks (Signed 2) 0 100 (demo_after (funding_calls 200))) \<and>
   \<not> is_ok (invest demo_cf demo_hooks (Signed 2) 0 301 (demo_after (funding_calls 200)))"
proof -
  let ?s = "demo_after (funding_calls 200)"
  have ev: "map_option (\<lambda>c. (status c, cf_now ?s \<le> deadline (config c), eligibility_rules c, min_investment (config c),
      hard_cap (config c), max_investment_per_investor (config c), total_raised c, funding_currency (config c)))
      (fmlookup (campaigns ?s) 0) = Some (Funding, True, [], None, Some 500, None, 200, Native)"
    by code_simp
  have l: "0 \<in> set (campaigns_by_investor 2 ?s)" by code_simp
  have t: "is_ok (do_transfer demo_cf Native 2 (campaign_account demo_cf 0) 100 KeepAlive ?s)" by code_simp
  from ev obtain c where c: "fmlookup (campaigns ?s) 0 = Some c"
    and d: "status c = Funding" "cf_now ?s \<le> deadline (config c)" "eligibility_rules c = []" "min_investment (config c) = None"
      "hard_cap (config c) = Some 500" "max_investment_per_investor (config c) = None" "total_raised c = 200"
      "funding_currency (config c) = Native"
    by auto
  have "is_ok (invest demo_cf demo_hooks (Signed 2) 0 100 ?s)"
    by (rule iffD2 [OF invest_accepts_iff [OF c]]) (use d l t in \<open>simp add: sat_add_def u128_max_def\<close>)
  moreover have "\<not> is_ok (invest demo_cf demo_hooks (Signed 2) 0 301 ?s)"
    using invest_accepts_iff [OF c, of demo_cf demo_hooks 2 301] d by (simp add: sat_add_def u128_max_def)
  ultimately show ?thesis by (rule conjI)
qed




section \<open>Pausing\<close>

text \<open>
  C24: Pausing a campaign and resuming it later keeps the remaining funding window: the deadline moves
  by exactly the time of the pause, and nothing else of the campaign changes.
\<close>

theorem pause_resume_keeps_window:
  assumes c: "fmlookup (campaigns s) cid = Some c" and "pause_campaign T org cid s = Inr s1"
    and "cf_now s \<le> now" "deadline (config c) + (now - cf_now s) \<le> u32_max"
    and "resume_campaign T H org' cid (s1\<lparr>cf_now := now\<rparr>) = Inr s2"
  shows "\<exists>c'. fmlookup (campaigns s2) cid = Some c' \<and>
    deadline (config c') + cf_now s = deadline (config c) + now \<and>
    c' = c\<lparr>config := (config c)\<lparr>deadline := deadline (config c')\<rparr>, paused_at := None\<rparr>"
proof -
  have st: "status c = Funding" and s1: "fmlookup (campaigns s1) cid = Some (c\<lparr>paused_at := Some (cf_now s), status := Paused\<rparr>)"
    using assms(1,2) by (auto simp: pause_campaign_def dispatch_simps cf_event_def put_campaign_def)
  have "fmlookup (campaigns s2) cid = Some (c\<lparr>config := (config c)\<lparr>deadline := deadline (config c) + (now - cf_now s)\<rparr>,
      paused_at := None, status := Funding\<rparr>)"
    using assms(5) s1 assms(4) by (auto simp: resume_campaign_def dispatch_simps Let_def cf_event_def put_campaign_def)
  then show ?thesis using st assms(3) by (cases c) simp
qed

theorem pause_resume_keeps_window_witness:
  "\<exists>s1 s2 c'. pause_campaign demo_cf Root 0 ((demo_after (funding_calls 200))\<lparr>cf_now := 30\<rparr>) = Inr s1 \<and>
     resume_campaign demo_cf demo_hooks Root 0 (s1\<lparr>cf_now := 45\<rparr>) = Inr s2 \<and>
     fmlookup (campaigns s2) 0 = Some c' \<and> deadline (config c') = 65"
proof -
  let ?s = "(demo_after (funding_calls 200))\<lparr>cf_now := 30\<rparr>"
  have ev: "map_option (\<lambda>c. deadline (config c)) (fmlookup (campaigns ?s) 0) = Some 50 \<and>
    (case pause_campaign demo_cf Root 0 ?s of Inl _ \<Rightarrow> False
     | Inr s1 \<Rightarrow> is_ok (resume_campaign demo_cf demo_hooks Root 0 (s1\<lparr>cf_now := 45\<rparr>)))"
    by code_simp
  then obtain c s1 s2 where c: "fmlookup (campaigns ?s) 0 = Some c" "deadline (config c) = 50"
    and run: "pause_campaign demo_cf Root 0 ?s = Inr s1" "resume_campaign demo_cf demo_hooks Root 0 (s1\<lparr>cf_now := 45\<rparr>) = Inr s2"
    by (auto split: sum.splits)
  have "cf_now ?s \<le> 45" "deadline (config c) + (45 - cf_now ?s) \<le> u32_max" using c(2) by (simp_all add: u32_max_def)
  from pause_resume_keeps_window [OF c(1) run(1) this run(2)] run c(2) show ?thesis by auto
qed

section \<open>Eligibility\<close>




end
