(* ===== verification/Rwa.thy ===== *)
theory Rwa
  imports Accounts Arith128 Currency
begin

text \<open>
  The pallet for real-world assets (\<open>pallets/rwa\<close>): assets with a participation policy,
  participations with an escrowed deposit, holders, slashing and the life cycle of an asset. One
  definition per dispatchable, in the order of the source; the state is the record of the storage
  items together with the block number, the ledger and the events. The eligibility filter and the
  life-cycle guard are parameters, as they are type parameters of the pallet.
\<close>

section \<open>Types\<close>

datatype rwa_asset_status =
    AssetActive | AssetInactive | Sunsetting block_number | Retired | AssetPaused

record asset_policy =
  deposit_currency :: payment_currency
  entry_fee :: balance
  deposit :: balance
  max_duration :: "block_number option"
  max_participants :: "nat option"
  requires_approval :: bool

record asset_info =
  owner :: account_id
  beneficiary :: account_id
  asset_status :: rwa_asset_status
  policy :: asset_policy
  metadata :: "nat list"
  participant_count :: nat
  registration_deposit :: balance
  registered_at :: block_number

datatype participation_status =
    PendingApproval
  | Participating block_number "block_number option"
  | Expired | Exited | Slashed | Revoked

record participation =
  for_asset :: nat
  payer :: account_id
  holders :: "account_id list"
  participation_status :: participation_status
  deposit_held :: balance
  entry_fee_paid :: balance

datatype slash_recipient_kind = ToBeneficiary | ToReporter | ToAccount account_id | ToBurn

record slash_recipient =
  slash_kind :: slash_recipient_kind
  share :: permill

datatype can_participate_error =
    CpAssetNotFound | CpAssetNotActive | CpMaxParticipantsReached | CpAlreadyParticipating | CpNotEligible

section \<open>Configuration, hooks and storage\<close>

record 'l rwa_config =
  rwa_currency :: "'l currencies"
  rwa_admin_origin :: "origin \<Rightarrow> bool"
  rwa_force_origin :: "origin \<Rightarrow> bool"
  rwa_pallet_id :: "nat list"
  asset_registration_deposit :: balance
  max_assets_per_owner :: nat
  max_metadata_len :: nat
  max_slash_recipients :: nat
  max_group_size :: nat
  max_pending_approvals :: nat
  max_sunsetting_per_block :: nat
  max_participations_per_holder :: nat
  min_participation_deposit :: balance

record rwa_hooks =
  ensure_eligible :: "nat \<Rightarrow> account_id \<Rightarrow> unit dispatch_result"
  can_retire_asset :: "nat \<Rightarrow> unit dispatch_result"
  can_slash_participation :: "nat \<Rightarrow> nat \<Rightarrow> unit dispatch_result"

text \<open>The implementations of both hooks for the unit type: no filter and no guard.\<close>

definition no_hooks :: rwa_hooks where
  "no_hooks = \<lparr>ensure_eligible = (\<lambda>_ _. Inr ()), can_retire_asset = (\<lambda>_. Inr ()),
     can_slash_participation = (\<lambda>_ _. Inr ())\<rparr>"

datatype (plugins only: code) rwa_event =
    AssetRegistered nat account_id account_id
  | AssetPolicyUpdated nat
  | AssetDeactivated nat
  | AssetReactivated nat
  | AssetSunsetting nat block_number
  | AssetRetired nat balance
  | ParticipationRequested nat nat account_id "account_id list"
  | ParticipationApproved nat nat
  | ParticipationRejected nat nat balance balance
  | ParticipationExited nat nat balance
  | ParticipationExpired nat nat balance
  | ParticipationRenewed nat nat "block_number option"
  | ParticipationSlashed nat nat balance "account_id option"
  | ParticipationRevoked nat nat balance
  | HolderAdded nat nat account_id
  | HolderRemoved nat nat account_id
  | HolderLeft nat nat account_id
  | SlashDistributionSet nat nat
  | OwnershipTransferProposed nat account_id account_id
  | OwnershipTransferred nat account_id account_id
  | OwnershipTransferCancelled nat
  | BeneficiaryUpdated nat account_id account_id
  | MetadataUpdated nat
  | ParticipationTransferred nat nat account_id account_id
  | AssetPausedEvent nat
  | AssetUnpaused nat
  | BatchPendingRejected nat nat

record 'l rwa_state =
  rwa_assets :: "(nat, asset_info) fmap"
  next_rwa_asset_id :: nat
  participations :: "(nat \<times> nat, participation) fmap"
  next_participation_id :: "(nat, nat) fmap"
  holder_index :: "(nat \<times> account_id, nat) fmap"
  pending_approvals :: "(nat, nat list) fmap"
  asset_slash_distribution :: "(nat, slash_recipient list) fmap"
  sunsetting_assets :: "(block_number, nat list) fmap"
  owner_assets :: "(account_id, nat list) fmap"
  holder_assets :: "(account_id, nat list) fmap"
  pending_ownership_transfer :: "(nat, account_id) fmap"
  rwa_now :: block_number
  rwa_ledger :: 'l
  rwa_events :: "rwa_event list"

definition emit :: "rwa_event \<Rightarrow> 'l rwa_state \<Rightarrow> 'l rwa_state" where
  "emit e s = s\<lparr>rwa_events := rwa_events s @ [e]\<rparr>"

definition put_asset :: "nat \<Rightarrow> asset_info \<Rightarrow> 'l rwa_state \<Rightarrow> 'l rwa_state" where
  "put_asset aid a s = s\<lparr>rwa_assets := fmupd aid a (rwa_assets s)\<rparr>"

definition put_participation :: "nat \<Rightarrow> nat \<Rightarrow> participation \<Rightarrow> 'l rwa_state \<Rightarrow> 'l rwa_state" where
  "put_participation aid pid p s = s\<lparr>participations := fmupd (aid, pid) p (participations s)\<rparr>"

section \<open>Helpers\<close>

definition pallet_account :: "'l rwa_config \<Rightarrow> account_id" where
  "pallet_account T = into_account_truncating (rwa_pallet_id T)"

definition rwa_do_transfer ::
  "'l rwa_config \<Rightarrow> payment_currency \<Rightarrow> account_id \<Rightarrow> account_id \<Rightarrow> balance \<Rightarrow> 'l rwa_state \<Rightarrow> ('l rwa_state) dispatch_result" where
  "rwa_do_transfer T cur from to amount s =
    (if amount = 0 then Inr s
     else try_bind
       (case cur of
          Native \<Rightarrow> native_transfer (rwa_currency T) from to amount KeepAlive (rwa_ledger s)
        | Asset i \<Rightarrow> fungibles_transfer (rwa_currency T) i from to amount Preserve (rwa_ledger s))
       (\<lambda>l. Inr (s\<lparr>rwa_ledger := l\<rparr>)))"

definition rwa_do_burn ::
  "'l rwa_config \<Rightarrow> payment_currency \<Rightarrow> account_id \<Rightarrow> balance \<Rightarrow> 'l rwa_state \<Rightarrow> ('l rwa_state) dispatch_result" where
  "rwa_do_burn T cur who amount s =
    (if amount = 0 then Inr s
     else try_bind
       (case cur of
          Native \<Rightarrow>
            try_bind (native_withdraw (rwa_currency T) who amount KeepAlive (rwa_ledger s))
              (\<lambda>(imbalance, l). Inr (native_drop_imbalance (rwa_currency T) imbalance l))
        | Asset i \<Rightarrow> fungibles_burn (rwa_currency T) i who amount Expendable Exact (rwa_ledger s))
       (\<lambda>l. Inr (s\<lparr>rwa_ledger := l\<rparr>)))"

definition ensure_asset_owner_or_admin ::
  "'l rwa_config \<Rightarrow> origin \<Rightarrow> nat \<Rightarrow> 'l rwa_state \<Rightarrow> 'a dispatch_result \<Rightarrow> 'a dispatch_result" where
  "ensure_asset_owner_or_admin T org aid s k =
    (if rwa_admin_origin T org
     then ensure (contains_key (rwa_assets s) aid) (rwa_err AssetNotFound) k
     else ensure_signed org (\<lambda>who.
       ok_or (fmlookup (rwa_assets s) aid) (rwa_err AssetNotFound) (\<lambda>a.
       ensure (owner a = who) (rwa_err NotAssetOwner) k)))"

definition remove_from_owner_assets :: "account_id \<Rightarrow> nat \<Rightarrow> 'l rwa_state \<Rightarrow> 'l rwa_state" where
  "remove_from_owner_assets who aid s =
    s\<lparr>owner_assets := fmupd who (remove1 aid (get_or [] (owner_assets s) who)) (owner_assets s)\<rparr>"

text \<open>A push beyond the bound is logged and ignored.\<close>

definition push_holder_asset :: "'l rwa_config \<Rightarrow> nat \<Rightarrow> account_id \<Rightarrow> 'l rwa_state \<Rightarrow> 'l rwa_state" where
  "push_holder_asset T aid holder s =
    (let ids = get_or [] (holder_assets s) holder;
         ids' = (if aid \<in> set ids then ids
                 else (case try_push (max_participations_per_holder T) aid ids of Some xs \<Rightarrow> xs | None \<Rightarrow> ids)) in
     s\<lparr>holder_assets := fmupd holder ids' (holder_assets s)\<rparr>)"

definition remove_single_holder_index :: "nat \<Rightarrow> account_id \<Rightarrow> 'l rwa_state \<Rightarrow> 'l rwa_state" where
  "remove_single_holder_index aid holder s =
    s\<lparr>holder_index := fmdrop (aid, holder) (holder_index s),
      holder_assets := fmupd holder (remove1 aid (get_or [] (holder_assets s) holder)) (holder_assets s)\<rparr>"

definition remove_all_holder_indexes :: "nat \<Rightarrow> account_id list \<Rightarrow> 'l rwa_state \<Rightarrow> 'l rwa_state" where
  "remove_all_holder_indexes aid hs s = fold (remove_single_holder_index aid) hs s"

text \<open>The loops that index the holders of a participation.\<close>

definition add_holder_index :: "'l rwa_config \<Rightarrow> nat \<Rightarrow> nat \<Rightarrow> account_id \<Rightarrow> 'l rwa_state \<Rightarrow> 'l rwa_state" where
  "add_holder_index T aid pid holder s =
    push_holder_asset T aid holder (s\<lparr>holder_index := fmupd (aid, holder) pid (holder_index s)\<rparr>)"

definition dec_participant_count :: "nat \<Rightarrow> 'l rwa_state \<Rightarrow> 'l rwa_state" where
  "dec_participant_count aid s =
    s\<lparr>rwa_assets := fm_mutate aid (\<lambda>a. a\<lparr>participant_count := participant_count a - 1\<rparr>) (rwa_assets s)\<rparr>"

definition inc_participant_count :: "nat \<Rightarrow> 'l rwa_state \<Rightarrow> 'l rwa_state" where
  "inc_participant_count aid s =
    s\<lparr>rwa_assets := fm_mutate aid (\<lambda>a. a\<lparr>participant_count := add32 (participant_count a) 1\<rparr>) (rwa_assets s)\<rparr>"

definition remove_pending :: "nat \<Rightarrow> nat \<Rightarrow> 'l rwa_state \<Rightarrow> 'l rwa_state" where
  "remove_pending aid pid s =
    s\<lparr>pending_approvals := fmupd aid (remove1 pid (get_or [] (pending_approvals s) aid)) (pending_approvals s)\<rparr>"

text \<open>
  Lazy expiry. The inner function returns whether it settled, with the updated record and state;
  the outer one also writes the record.
\<close>

definition try_settle_expiry_inner ::
  "'l rwa_config \<Rightarrow> nat \<Rightarrow> nat \<Rightarrow> participation \<Rightarrow> asset_info \<Rightarrow> 'l rwa_state \<Rightarrow>
     (bool \<times> participation \<times> 'l rwa_state) dispatch_result" where
  "try_settle_expiry_inner T aid pid p a s = (case participation_status p of
     Participating _ (Some expiry) \<Rightarrow>
       if expiry \<le> rwa_now s
       then try_bind (rwa_do_transfer T (deposit_currency (policy a)) (pallet_account T) (payer p) (deposit_held p) s) (\<lambda>s1.
         Inr (True, p\<lparr>participation_status := Expired, deposit_held := 0\<rparr>,
              emit (ParticipationExpired aid pid (deposit_held p))
                (dec_participant_count aid (remove_all_holder_indexes aid (holders p) s1))))
       else Inr (False, p, s)
   | _ \<Rightarrow> Inr (False, p, s))"

definition try_settle_expiry ::
  "'l rwa_config \<Rightarrow> nat \<Rightarrow> nat \<Rightarrow> participation \<Rightarrow> asset_info \<Rightarrow> 'l rwa_state \<Rightarrow>
     (bool \<times> participation \<times> 'l rwa_state) dispatch_result" where
  "try_settle_expiry T aid pid p a s =
    try_bind (try_settle_expiry_inner T aid pid p a s) (\<lambda>(settled, p', s1).
    Inr (settled, p', if settled then put_participation aid pid p' s1 else s1))"

text \<open>The distribution of a slashed amount: the last recipient gets what the others left.\<close>

definition pay_slash ::
  "'l rwa_config \<Rightarrow> payment_currency \<Rightarrow> account_id \<Rightarrow> account_id option \<Rightarrow> slash_recipient_kind \<Rightarrow> balance \<Rightarrow>
     'l rwa_state \<Rightarrow> ('l rwa_state) dispatch_result" where
  "pay_slash T cur benef reporter kind amount s = (case kind of
     ToBeneficiary \<Rightarrow> rwa_do_transfer T cur (pallet_account T) benef amount s
   | ToReporter \<Rightarrow>
       rwa_do_transfer T cur (pallet_account T) (case reporter of Some r \<Rightarrow> r | None \<Rightarrow> benef) amount s
   | ToAccount acct \<Rightarrow> rwa_do_transfer T cur (pallet_account T) acct amount s
   | ToBurn \<Rightarrow> rwa_do_burn T cur (pallet_account T) amount s)"

fun distribute_shares ::
  "'l rwa_config \<Rightarrow> payment_currency \<Rightarrow> balance \<Rightarrow> account_id \<Rightarrow> account_id option \<Rightarrow> balance \<Rightarrow>
     slash_recipient list \<Rightarrow> 'l rwa_state \<Rightarrow> ('l rwa_state) dispatch_result" where
  "distribute_shares T cur tot benef reporter distributed [] s = Inr s"
| "distribute_shares T cur tot benef reporter distributed (r # rs) s =
     (let share_amount = (if rs = [] then tot - distributed else permill_mul (share r) tot) in
      if share_amount = 0 then distribute_shares T cur tot benef reporter distributed rs s
      else try_bind (pay_slash T cur benef reporter (slash_kind r) share_amount s)
        (distribute_shares T cur tot benef reporter (add128 distributed share_amount) rs))"

definition do_distribute_slash ::
  "'l rwa_config \<Rightarrow> payment_currency \<Rightarrow> balance \<Rightarrow> nat \<Rightarrow> account_id \<Rightarrow> account_id option \<Rightarrow>
     'l rwa_state \<Rightarrow> ('l rwa_state) dispatch_result" where
  "do_distribute_slash T cur tot aid benef reporter s =
    (case fmlookup (asset_slash_distribution s) aid of
       Some (r # rs) \<Rightarrow> distribute_shares T cur tot benef reporter 0 (r # rs) s
     | _ \<Rightarrow> rwa_do_transfer T cur (pallet_account T) benef tot s)"

section \<open>Hooks\<close>

text \<open>What the three ways of retiring an asset share.\<close>

definition finish_retirement :: "'l rwa_config \<Rightarrow> nat \<Rightarrow> asset_info \<Rightarrow> 'l rwa_state \<Rightarrow> 'l rwa_state" where
  "finish_retirement T aid a s =
    (let l = snd (native_unreserve (rwa_currency T) (owner a) (registration_deposit a) (rwa_ledger s));
         s1 = remove_from_owner_assets (owner a) aid (s\<lparr>rwa_ledger := l\<rparr>) in
     emit (AssetRetired aid (registration_deposit a))
       (s1\<lparr>pending_ownership_transfer := fmdrop aid (pending_ownership_transfer s1),
           asset_slash_distribution := fmdrop aid (asset_slash_distribution s1),
           pending_approvals := fmdrop aid (pending_approvals s1),
           rwa_assets := fmupd aid (a\<lparr>asset_status := Retired\<rparr>) (rwa_assets s1)\<rparr>))"

definition retire_scheduled :: "'l rwa_config \<Rightarrow> nat \<Rightarrow> 'l rwa_state \<Rightarrow> 'l rwa_state" where
  "retire_scheduled T aid s = (case fmlookup (rwa_assets s) aid of
     Some a \<Rightarrow> if asset_status a = Retired then s else finish_retirement T aid a s
   | None \<Rightarrow> s)"

definition on_initialize :: "'l rwa_config \<Rightarrow> block_number \<Rightarrow> 'l rwa_state \<Rightarrow> 'l rwa_state" where
  "on_initialize T n s =
    fold (retire_scheduled T) (get_or [] (sunsetting_assets s) n)
      (s\<lparr>sunsetting_assets := fmdrop n (sunsetting_assets s)\<rparr>)"

section \<open>Dispatchables\<close>

subsection \<open>Asset management\<close>

definition register_asset ::
  "'l rwa_config \<Rightarrow> origin \<Rightarrow> account_id \<Rightarrow> asset_policy \<Rightarrow> nat list \<Rightarrow> 'l rwa_state \<Rightarrow> ('l rwa_state) dispatch_result" where
  "register_asset T org benef pol meta s =
    ensure_signed org (\<lambda>who.
    ensure (length meta \<le> max_metadata_len T) (rwa_err MetadataTooLong) (
    ensure (length (get_or [] (owner_assets s) who) < max_assets_per_owner T) (rwa_err MaxAssetsPerOwnerReached) (
    ensure (min_participation_deposit T \<le> deposit pol) (rwa_err DepositBelowMinimum) (
    let dep = asset_registration_deposit T in
    try_bind (native_reserve (rwa_currency T) who dep (rwa_ledger s)) (\<lambda>l.
    let aid = next_rwa_asset_id s in
    ok_or (checked_add u32_max aid 1) (rwa_err AssetIdOverflow) (\<lambda>next_id.
    let a = \<lparr>owner = who, beneficiary = benef, asset_status = AssetActive, policy = pol, metadata = meta,
             participant_count = 0, registration_deposit = dep, registered_at = rwa_now s\<rparr>;
        ids = get_or [] (owner_assets s) who;
        ids' = (case try_push (max_assets_per_owner T) aid ids of Some xs \<Rightarrow> xs | None \<Rightarrow> ids) in
    Inr (emit (AssetRegistered aid who benef)
      (put_asset aid a (s\<lparr>rwa_ledger := l, next_rwa_asset_id := next_id,
                          owner_assets := fmupd who ids' (owner_assets s)\<rparr>)))))))))"

text \<open>The checks of \<open>update_asset_policy\<close> that apply while there are participants.\<close>

definition policy_change_ok :: "asset_policy \<Rightarrow> asset_policy \<Rightarrow> bool" where
  "policy_change_ok old new =
    (entry_fee old = entry_fee new \<and>
     (case (max_duration old, max_duration new) of
        (Some d, Some d') \<Rightarrow> d \<le> d'
      | (None, Some _) \<Rightarrow> False
      | _ \<Rightarrow> True))"

definition update_asset_policy ::
  "'l rwa_config \<Rightarrow> origin \<Rightarrow> nat \<Rightarrow> asset_policy \<Rightarrow> 'l rwa_state \<Rightarrow> ('l rwa_state) dispatch_result" where
  "update_asset_policy T org aid new s =
    ensure_signed org (\<lambda>who.
    ok_or (fmlookup (rwa_assets s) aid) (rwa_err AssetNotFound) (\<lambda>a.
    ensure (owner a = who) (rwa_err NotAssetOwner) (
    ensure (asset_status a = AssetActive) (rwa_err InvalidAssetStatus) (
    ensure (deposit_currency (policy a) = deposit_currency new) (rwa_err PolicyFieldImmutable) (
    ensure (deposit (policy a) = deposit new) (rwa_err PolicyFieldImmutable) (
    ensure (case max_participants new of Some mx \<Rightarrow> participant_count a \<le> mx | None \<Rightarrow> True)
      (rwa_err MaxParticipantsBelowCurrent) (
    ensure (0 < participant_count a \<longrightarrow> policy_change_ok (policy a) new) (rwa_err PolicyFieldImmutable) (
    Inr (emit (AssetPolicyUpdated aid) (put_asset aid (a\<lparr>policy := new\<rparr>) s))))))))))"

definition deactivate_asset :: "'l rwa_config \<Rightarrow> origin \<Rightarrow> nat \<Rightarrow> 'l rwa_state \<Rightarrow> ('l rwa_state) dispatch_result" where
  "deactivate_asset T org aid s =
    ensure_signed org (\<lambda>who.
    ok_or (fmlookup (rwa_assets s) aid) (rwa_err AssetNotFound) (\<lambda>a.
    ensure (owner a = who) (rwa_err NotAssetOwner) (
    ensure (asset_status a = AssetActive) (rwa_err InvalidAssetStatus) (
    Inr (emit (AssetDeactivated aid) (put_asset aid (a\<lparr>asset_status := AssetInactive\<rparr>) s))))))"

definition reactivate_asset :: "'l rwa_config \<Rightarrow> origin \<Rightarrow> nat \<Rightarrow> 'l rwa_state \<Rightarrow> ('l rwa_state) dispatch_result" where
  "reactivate_asset T org aid s =
    ensure_signed org (\<lambda>who.
    ok_or (fmlookup (rwa_assets s) aid) (rwa_err AssetNotFound) (\<lambda>a.
    ensure (owner a = who) (rwa_err NotAssetOwner) (
    ensure (asset_status a = AssetInactive) (rwa_err InvalidAssetStatus) (
    Inr (emit (AssetReactivated aid) (put_asset aid (a\<lparr>asset_status := AssetActive\<rparr>) s))))))"

definition sunset_asset ::
  "'l rwa_config \<Rightarrow> origin \<Rightarrow> nat \<Rightarrow> block_number \<Rightarrow> 'l rwa_state \<Rightarrow> ('l rwa_state) dispatch_result" where
  "sunset_asset T org aid expiry s =
    ensure_signed org (\<lambda>who.
    ensure (rwa_now s < expiry) (rwa_err ExpiryBlockInPast) (
    ensure (length (get_or [] (sunsetting_assets s) expiry) < max_sunsetting_per_block T) (rwa_err SunsettingSlotsFull) (
    ok_or (fmlookup (rwa_assets s) aid) (rwa_err AssetNotFound) (\<lambda>a.
    ensure (owner a = who) (rwa_err NotAssetOwner) (
    ensure (asset_status a \<in> {AssetActive, AssetInactive}) (rwa_err InvalidAssetStatus) (
    let s1 = put_asset aid (a\<lparr>asset_status := Sunsetting expiry\<rparr>) s;
        ids = get_or [] (sunsetting_assets s1) expiry;
        ids' = (case try_push (max_sunsetting_per_block T) aid ids of Some xs \<Rightarrow> xs | None \<Rightarrow> ids) in
    Inr (emit (AssetSunsetting aid expiry)
      (s1\<lparr>sunsetting_assets := fmupd expiry ids' (sunsetting_assets s1)\<rparr>))))))))"

definition unschedule :: "nat \<Rightarrow> block_number \<Rightarrow> 'l rwa_state \<Rightarrow> 'l rwa_state" where
  "unschedule aid expiry s =
    s\<lparr>sunsetting_assets := fmupd expiry (remove1 aid (get_or [] (sunsetting_assets s) expiry)) (sunsetting_assets s)\<rparr>"

definition force_retire_asset ::
  "'l rwa_config \<Rightarrow> rwa_hooks \<Rightarrow> origin \<Rightarrow> nat \<Rightarrow> 'l rwa_state \<Rightarrow> ('l rwa_state) dispatch_result" where
  "force_retire_asset T H org aid s =
    ensure_origin (rwa_force_origin T) org (
    ok_or (fmlookup (rwa_assets s) aid) (rwa_err AssetNotFound) (\<lambda>a.
    ensure (asset_status a \<noteq> Retired) (rwa_err AssetAlreadyRetired) (
    try_bind (map_err (\<lambda>_. rwa_err BlockedByLifecycleGuard) (can_retire_asset H aid)) (\<lambda>_.
    let s1 = (case asset_status a of Sunsetting expiry \<Rightarrow> unschedule aid expiry s | _ \<Rightarrow> s) in
    Inr (finish_retirement T aid a s1)))))"

definition retire_asset :: "'l rwa_config \<Rightarrow> origin \<Rightarrow> nat \<Rightarrow> 'l rwa_state \<Rightarrow> ('l rwa_state) dispatch_result" where
  "retire_asset T org aid s =
    ensure_signed org (\<lambda>_.
    ok_or (fmlookup (rwa_assets s) aid) (rwa_err AssetNotFound) (\<lambda>a.
    try_bind (case asset_status a of Sunsetting expiry \<Rightarrow> Inr expiry | _ \<Rightarrow> Inl (rwa_err InvalidAssetStatus)) (\<lambda>expiry.
    ensure (expiry \<le> rwa_now s) (rwa_err ExpiryNotReached) (
    Inr (finish_retirement T aid a (unschedule aid expiry s))))))"

subsection \<open>Participation\<close>

text \<open>The loops over the holders of a new participation: indexes and capacity, then the filter.\<close>

fun check_holders :: "'l rwa_config \<Rightarrow> nat \<Rightarrow> 'l rwa_state \<Rightarrow> account_id list \<Rightarrow> unit dispatch_result" where
  "check_holders T aid s [] = Inr ()"
| "check_holders T aid s (h # hs) =
     ensure (\<not> contains_key (holder_index s) (aid, h)) (rwa_err AlreadyParticipating) (
     ensure (length (get_or [] (holder_assets s) h) < max_participations_per_holder T)
       (rwa_err MaxParticipationsPerHolderReached) (
     check_holders T aid s hs))"

fun check_filter :: "rwa_hooks \<Rightarrow> nat \<Rightarrow> account_id list \<Rightarrow> unit dispatch_result" where
  "check_filter H aid [] = Inr ()"
| "check_filter H aid (h # hs) =
     try_bind (map_err (\<lambda>_. rwa_err ParticipantNotEligible) (ensure_eligible H aid h)) (\<lambda>_. check_filter H aid hs)"

text \<open>What the payer pays on a request: all of it into the escrow, or the fee to the beneficiary at once.\<close>

definition collect ::
  "'l rwa_config \<Rightarrow> asset_info \<Rightarrow> account_id \<Rightarrow> 'l rwa_state \<Rightarrow> ('l rwa_state) dispatch_result" where
  "collect T a who s =
    (let cur = deposit_currency (policy a); dep = deposit (policy a); fee = entry_fee (policy a) in
     if requires_approval (policy a)
     then rwa_do_transfer T cur who (pallet_account T) (add128 dep fee) s
     else try_bind (rwa_do_transfer T cur who (pallet_account T) dep s) (\<lambda>s1.
       if fee \<noteq> 0 then rwa_do_transfer T cur who (beneficiary a) fee s1 else Inr s1))"

text \<open>The record of the new participation, its indexes, and the queue of pending requests.\<close>

definition enroll ::
  "'l rwa_config \<Rightarrow> nat \<Rightarrow> asset_info \<Rightarrow> account_id \<Rightarrow> account_id list \<Rightarrow> 'l rwa_state \<Rightarrow> ('l rwa_state) dispatch_result" where
  "enroll T aid a who hs s =
    (let pid = get_or 0 (next_participation_id s) aid in
    ok_or (checked_add u32_max pid 1) (rwa_err ParticipationIdOverflow) (\<lambda>next_pid.
    let st = (if requires_approval (policy a) then PendingApproval
              else Participating (rwa_now s) (map_option (add32 (rwa_now s)) (max_duration (policy a))));
        p = \<lparr>for_asset = aid, payer = who, holders = hs, participation_status = st,
             deposit_held = deposit (policy a), entry_fee_paid = entry_fee (policy a)\<rparr>;
        s2 = put_participation aid pid p
               (s\<lparr>next_participation_id := fmupd aid next_pid (next_participation_id s)\<rparr>);
        s3 = inc_participant_count aid (fold (add_holder_index T aid pid) hs s2);
        pend = get_or [] (pending_approvals s3) aid;
        pend' = (case try_push (max_pending_approvals T) pid pend of Some xs \<Rightarrow> xs | None \<Rightarrow> pend);
        s4 = (if requires_approval (policy a)
              then s3\<lparr>pending_approvals := fmupd aid pend' (pending_approvals s3)\<rparr> else s3);
        s5 = emit (ParticipationRequested aid pid who hs) s4 in
    Inr (if requires_approval (policy a) then s5 else emit (ParticipationApproved aid pid) s5)))"

definition request_participation ::
  "'l rwa_config \<Rightarrow> rwa_hooks \<Rightarrow> origin \<Rightarrow> nat \<Rightarrow> account_id list \<Rightarrow> 'l rwa_state \<Rightarrow> ('l rwa_state) dispatch_result" where
  "request_participation T H org aid hs s =
    ensure_signed org (\<lambda>who.
    ok_or (fmlookup (rwa_assets s) aid) (rwa_err AssetNotFound) (\<lambda>a.
    ensure (asset_status a = AssetActive) (rwa_err AssetNotActive) (
    ensure (hs \<noteq> []) (rwa_err EmptyHoldersList) (
    ensure (length hs \<le> max_group_size T) (rwa_err MaxGroupSizeReached) (
    ensure (distinct hs) (rwa_err HolderAlreadyExists) (
    ensure (case max_participants (policy a) of Some mx \<Rightarrow> add32 (participant_count a) 1 \<le> mx | None \<Rightarrow> True)
      (rwa_err MaxParticipantsReached) (
    try_bind (check_holders T aid s hs) (\<lambda>_.
    try_bind (check_filter H aid hs) (\<lambda>_.
    ensure (requires_approval (policy a) \<longrightarrow>
        length (get_or [] (pending_approvals s) aid) < max_pending_approvals T) (rwa_err PendingApprovalsFull) (
    try_bind (collect T a who s) (enroll T aid a who hs)))))))))))"

definition approve_participation ::
  "'l rwa_config \<Rightarrow> origin \<Rightarrow> nat \<Rightarrow> nat \<Rightarrow> 'l rwa_state \<Rightarrow> ('l rwa_state) dispatch_result" where
  "approve_participation T org aid pid s =
    ensure_asset_owner_or_admin T org aid s (
    ok_or (fmlookup (rwa_assets s) aid) (rwa_err AssetNotFound) (\<lambda>a.
    ensure (asset_status a = AssetActive) (rwa_err AssetNotActive) (
    ok_or (fmlookup (participations s) (aid, pid)) (rwa_err ParticipationNotFound) (\<lambda>p.
    ensure (participation_status p = PendingApproval) (rwa_err InvalidParticipationStatus) (
    try_bind
      (if entry_fee_paid p \<noteq> 0
       then rwa_do_transfer T (deposit_currency (policy a)) (pallet_account T) (beneficiary a) (entry_fee_paid p) s
       else Inr s) (\<lambda>s1.
    let st = Participating (rwa_now s) (map_option (add32 (rwa_now s)) (max_duration (policy a))) in
    Inr (emit (ParticipationApproved aid pid)
      (remove_pending aid pid (put_participation aid pid (p\<lparr>participation_status := st\<rparr>) s1)))))))))"

definition reject_participation ::
  "'l rwa_config \<Rightarrow> origin \<Rightarrow> nat \<Rightarrow> nat \<Rightarrow> 'l rwa_state \<Rightarrow> ('l rwa_state) dispatch_result" where
  "reject_participation T org aid pid s =
    ensure_asset_owner_or_admin T org aid s (
    ok_or (fmlookup (participations s) (aid, pid)) (rwa_err ParticipationNotFound) (\<lambda>p.
    ensure (participation_status p = PendingApproval) (rwa_err InvalidParticipationStatus) (
    ok_or (fmlookup (rwa_assets s) aid) (rwa_err AssetNotFound) (\<lambda>a.
    try_bind (rwa_do_transfer T (deposit_currency (policy a)) (pallet_account T) (payer p)
        (add128 (deposit_held p) (entry_fee_paid p)) s) (\<lambda>s1.
    let s2 = remove_all_holder_indexes aid (holders p) s1;
        s3 = s2\<lparr>participations := fmdrop (aid, pid) (participations s2)\<rparr> in
    Inr (emit (ParticipationRejected aid pid (deposit_held p) (entry_fee_paid p))
      (remove_pending aid pid (dec_participant_count aid s3))))))))"

text \<open>
  How an active participation ends: the record keeps its last status and no deposit, the holders
  leave the indexes and the participant is no longer counted.
\<close>

definition end_participation ::
  "nat \<Rightarrow> nat \<Rightarrow> participation \<Rightarrow> participation_status \<Rightarrow> 'l rwa_state \<Rightarrow> 'l rwa_state" where
  "end_participation aid pid p st s =
    dec_participant_count aid (remove_all_holder_indexes aid (holders p)
      (put_participation aid pid (p\<lparr>participation_status := st, deposit_held := 0\<rparr>) s))"

definition is_participating :: "participation_status \<Rightarrow> bool" where
  "is_participating st = (case st of Participating _ _ \<Rightarrow> True | _ \<Rightarrow> False)"

definition exit_participation ::
  "'l rwa_config \<Rightarrow> origin \<Rightarrow> nat \<Rightarrow> nat \<Rightarrow> 'l rwa_state \<Rightarrow> ('l rwa_state) dispatch_result" where
  "exit_participation T org aid pid s =
    ensure_signed org (\<lambda>who.
    ok_or (fmlookup (participations s) (aid, pid)) (rwa_err ParticipationNotFound) (\<lambda>p0.
    ensure (payer p0 = who) (rwa_err NotPayer) (
    ok_or (fmlookup (rwa_assets s) aid) (rwa_err AssetNotFound) (\<lambda>a.
    try_bind (try_settle_expiry T aid pid p0 a s) (\<lambda>(settled, p, s1).
    if settled then Inr s1
    else
      ensure (is_participating (participation_status p)) (rwa_err InvalidParticipationStatus) (
      try_bind (rwa_do_transfer T (deposit_currency (policy a)) (pallet_account T) (payer p) (deposit_held p) s1) (\<lambda>s2.
      Inr (emit (ParticipationExited aid pid (deposit_held p)) (end_participation aid pid p Exited s2)))))))))"

text \<open>The part of \<open>renew_participation\<close> for a participation that has expired.\<close>

fun check_not_indexed :: "nat \<Rightarrow> 'l rwa_state \<Rightarrow> account_id list \<Rightarrow> unit dispatch_result" where
  "check_not_indexed aid s [] = Inr ()"
| "check_not_indexed aid s (h # hs) =
     ensure (\<not> contains_key (holder_index s) (aid, h)) (rwa_err AlreadyParticipating) (check_not_indexed aid s hs)"

fun check_capacity :: "'l rwa_config \<Rightarrow> 'l rwa_state \<Rightarrow> account_id list \<Rightarrow> unit dispatch_result" where
  "check_capacity T s [] = Inr ()"
| "check_capacity T s (h # hs) =
     ensure (length (get_or [] (holder_assets s) h) < max_participations_per_holder T)
       (rwa_err MaxParticipationsPerHolderReached) (check_capacity T s hs)"

definition rejoin ::
  "'l rwa_config \<Rightarrow> nat \<Rightarrow> nat \<Rightarrow> participation \<Rightarrow> asset_info \<Rightarrow> account_id \<Rightarrow> 'l rwa_state \<Rightarrow>
     (participation \<times> 'l rwa_state) dispatch_result" where
  "rejoin T aid pid p a who s =
    try_bind (rwa_do_transfer T (deposit_currency (policy a)) who (pallet_account T) (deposit (policy a)) s) (\<lambda>s1.
    try_bind (check_not_indexed aid s1 (holders p)) (\<lambda>_.
    try_bind (check_capacity T s1 (holders p)) (\<lambda>_.
    Inr (p\<lparr>deposit_held := deposit (policy a)\<rparr>,
         inc_participant_count aid (fold (add_holder_index T aid pid) (holders p) s1)))))"

definition renew_participation ::
  "'l rwa_config \<Rightarrow> rwa_hooks \<Rightarrow> origin \<Rightarrow> nat \<Rightarrow> nat \<Rightarrow> 'l rwa_state \<Rightarrow> ('l rwa_state) dispatch_result" where
  "renew_participation T H org aid pid s =
    ensure_signed org (\<lambda>who.
    ok_or (fmlookup (rwa_assets s) aid) (rwa_err AssetNotFound) (\<lambda>a.
    ensure (asset_status a = AssetActive) (rwa_err AssetNotActive) (
    ok_or (fmlookup (participations s) (aid, pid)) (rwa_err ParticipationNotFound) (\<lambda>p0.
    ensure (payer p0 = who) (rwa_err NotPayer) (
    try_bind (try_settle_expiry T aid pid p0 a s) (\<lambda>(_, _, s1).
    ok_or (fmlookup (participations s1) (aid, pid)) (rwa_err ParticipationNotFound) (\<lambda>p.
    ensure (payer p = who) (rwa_err NotPayer) (
    try_bind
      (case participation_status p of
         Participating _ _ \<Rightarrow> Inr (p, s1)
       | Expired \<Rightarrow> rejoin T aid pid p a who s1
       | _ \<Rightarrow> Inl (rwa_err InvalidParticipationStatus)) (\<lambda>(p1, s2).
    try_bind (check_filter H aid (holders p1)) (\<lambda>_.
    try_bind
      (if entry_fee (policy a) \<noteq> 0
       then rwa_do_transfer T (deposit_currency (policy a)) who (beneficiary a) (entry_fee (policy a)) s2
       else Inr s2) (\<lambda>s3.
    let new_expires_at = map_option (add32 (rwa_now s)) (max_duration (policy a)) in
    Inr (put_participation aid pid (p1\<lparr>participation_status := Participating (rwa_now s) new_expires_at\<rparr>)
      (emit (ParticipationRenewed aid pid new_expires_at) s3)))))))))))))"

definition settle_expired_participation ::
  "'l rwa_config \<Rightarrow> origin \<Rightarrow> nat \<Rightarrow> nat \<Rightarrow> 'l rwa_state \<Rightarrow> ('l rwa_state) dispatch_result" where
  "settle_expired_participation T org aid pid s =
    ensure_signed org (\<lambda>_.
    ok_or (fmlookup (rwa_assets s) aid) (rwa_err AssetNotFound) (\<lambda>a.
    ok_or (fmlookup (participations s) (aid, pid)) (rwa_err ParticipationNotFound) (\<lambda>p.
    try_bind (try_settle_expiry T aid pid p a s) (\<lambda>(settled, _, s1).
    ensure settled (rwa_err InvalidParticipationStatus) (Inr s1)))))"

definition claim_retired_deposit ::
  "'l rwa_config \<Rightarrow> origin \<Rightarrow> nat \<Rightarrow> nat \<Rightarrow> 'l rwa_state \<Rightarrow> ('l rwa_state) dispatch_result" where
  "claim_retired_deposit T org aid pid s =
    ensure_signed org (\<lambda>_.
    ok_or (fmlookup (rwa_assets s) aid) (rwa_err AssetNotFound) (\<lambda>a.
    ensure (asset_status a = Retired) (rwa_err InvalidAssetStatus) (
    ok_or (fmlookup (participations s) (aid, pid)) (rwa_err ParticipationNotFound) (\<lambda>p.
    ensure (is_participating (participation_status p) \<or> participation_status p = PendingApproval)
      (rwa_err InvalidParticipationStatus) (
    let fee_refund = (if participation_status p = PendingApproval then entry_fee_paid p else 0);
        tot = add128 (deposit_held p) fee_refund in
    try_bind (rwa_do_transfer T (deposit_currency (policy a)) (pallet_account T) (payer p) tot s) (\<lambda>s1.
    Inr (emit (ParticipationExited aid pid tot) (end_participation aid pid p Exited s1))))))))"

subsection \<open>Group management\<close>

definition add_holder ::
  "'l rwa_config \<Rightarrow> rwa_hooks \<Rightarrow> origin \<Rightarrow> nat \<Rightarrow> nat \<Rightarrow> account_id \<Rightarrow> 'l rwa_state \<Rightarrow> ('l rwa_state) dispatch_result" where
  "add_holder T H org aid pid new_holder s =
    ensure_signed org (\<lambda>who.
    ok_or (fmlookup (rwa_assets s) aid) (rwa_err AssetNotFound) (\<lambda>a.
    ok_or (fmlookup (participations s) (aid, pid)) (rwa_err ParticipationNotFound) (\<lambda>p0.
    ensure (payer p0 = who) (rwa_err NotPayer) (
    try_bind (try_settle_expiry_inner T aid pid p0 a s) (\<lambda>(settled, p, s1).
    ensure (\<not> settled) (rwa_err ParticipationExpiredError) (
    ensure (is_participating (participation_status p)) (rwa_err InvalidParticipationStatus) (
    ensure (new_holder \<notin> set (holders p)) (rwa_err HolderAlreadyExists) (
    ensure (\<not> contains_key (holder_index s1) (aid, new_holder)) (rwa_err AlreadyParticipating) (
    ensure (length (get_or [] (holder_assets s1) new_holder) < max_participations_per_holder T)
      (rwa_err MaxParticipationsPerHolderReached) (
    try_bind (map_err (\<lambda>_. rwa_err ParticipantNotEligible) (ensure_eligible H aid new_holder)) (\<lambda>_.
    ok_or (try_push (max_group_size T) new_holder (holders p)) (rwa_err MaxGroupSizeReached) (\<lambda>hs.
    Inr (put_participation aid pid (p\<lparr>holders := hs\<rparr>)
      (emit (HolderAdded aid pid new_holder) (add_holder_index T aid pid new_holder s1)))))))))))))))"

text \<open>
  The end of \<open>remove_holder\<close> and \<open>leave_participation\<close>: the last holder ends the participation.
\<close>

definition drop_holder ::
  "'l rwa_config \<Rightarrow> nat \<Rightarrow> nat \<Rightarrow> participation \<Rightarrow> asset_info \<Rightarrow> account_id \<Rightarrow> rwa_event \<Rightarrow> 'l rwa_state \<Rightarrow>
     ('l rwa_state) dispatch_result" where
  "drop_holder T aid pid p a holder event s =
    (let p1 = p\<lparr>holders := remove1 holder (holders p)\<rparr>;
         s1 = remove_single_holder_index aid holder s in
     if holders p1 = []
     then try_bind (rwa_do_transfer T (deposit_currency (policy a)) (pallet_account T) (payer p1) (deposit_held p1) s1) (\<lambda>s2.
       Inr (emit (ParticipationExited aid pid (deposit_held p1))
         (put_participation aid pid (p1\<lparr>participation_status := Exited, deposit_held := 0\<rparr>)
           (dec_participant_count aid s2))))
     else Inr (emit event (put_participation aid pid p1 s1)))"

definition remove_holder ::
  "'l rwa_config \<Rightarrow> origin \<Rightarrow> nat \<Rightarrow> nat \<Rightarrow> account_id \<Rightarrow> 'l rwa_state \<Rightarrow> ('l rwa_state) dispatch_result" where
  "remove_holder T org aid pid holder s =
    ensure_signed org (\<lambda>who.
    ok_or (fmlookup (rwa_assets s) aid) (rwa_err AssetNotFound) (\<lambda>a.
    ok_or (fmlookup (participations s) (aid, pid)) (rwa_err ParticipationNotFound) (\<lambda>p0.
    ensure (payer p0 = who) (rwa_err NotPayer) (
    try_bind (try_settle_expiry T aid pid p0 a s) (\<lambda>(settled, p, s1).
    ensure (\<not> settled) (rwa_err ParticipationExpiredError) (
    ensure (is_participating (participation_status p)) (rwa_err InvalidParticipationStatus) (
    ensure (holder \<in> set (holders p)) (rwa_err HolderNotFound) (
    drop_holder T aid pid p a holder (HolderRemoved aid pid holder) s1))))))))"

definition leave_participation ::
  "'l rwa_config \<Rightarrow> origin \<Rightarrow> nat \<Rightarrow> nat \<Rightarrow> 'l rwa_state \<Rightarrow> ('l rwa_state) dispatch_result" where
  "leave_participation T org aid pid s =
    ensure_signed org (\<lambda>who.
    ok_or (fmlookup (rwa_assets s) aid) (rwa_err AssetNotFound) (\<lambda>a.
    ok_or (fmlookup (participations s) (aid, pid)) (rwa_err ParticipationNotFound) (\<lambda>p0.
    ensure (who \<in> set (holders p0)) (rwa_err NotHolder) (
    try_bind (try_settle_expiry T aid pid p0 a s) (\<lambda>(settled, p, s1).
    ensure (\<not> settled) (rwa_err ParticipationExpiredError) (
    ensure (is_participating (participation_status p)) (rwa_err InvalidParticipationStatus) (
    drop_holder T aid pid p a who (HolderLeft aid pid who) s1)))))))"

subsection \<open>Slashing and revocation\<close>

definition total_parts :: "slash_recipient list \<Rightarrow> nat" where
  "total_parts dist = fold (\<lambda>r acc. add32 acc (share r)) dist 0"

definition set_slash_distribution ::
  "'l rwa_config \<Rightarrow> origin \<Rightarrow> nat \<Rightarrow> slash_recipient list \<Rightarrow> 'l rwa_state \<Rightarrow> ('l rwa_state) dispatch_result" where
  "set_slash_distribution T org aid dist s =
    ensure_asset_owner_or_admin T org aid s (
    ensure (total_parts dist = permill_accuracy) (rwa_err SlashSharesSumInvalid) (
    Inr (emit (SlashDistributionSet aid (length dist))
      (s\<lparr>asset_slash_distribution := fmupd aid dist (asset_slash_distribution s)\<rparr>))))"

definition slash_participation ::
  "'l rwa_config \<Rightarrow> rwa_hooks \<Rightarrow> origin \<Rightarrow> nat \<Rightarrow> nat \<Rightarrow> balance \<Rightarrow> account_id option \<Rightarrow> 'l rwa_state \<Rightarrow>
     ('l rwa_state) dispatch_result" where
  "slash_participation T H org aid pid amount reporter s =
    ensure_origin (rwa_admin_origin T) org (
    ok_or (fmlookup (rwa_assets s) aid) (rwa_err AssetNotFound) (\<lambda>a.
    ok_or (fmlookup (participations s) (aid, pid)) (rwa_err ParticipationNotFound) (\<lambda>p0.
    try_bind (try_settle_expiry T aid pid p0 a s) (\<lambda>(settled, p, s1).
    ensure (\<not> settled) (rwa_err ParticipationExpiredError) (
    try_bind (map_err (\<lambda>_. rwa_err BlockedByLifecycleGuard) (can_slash_participation H aid pid)) (\<lambda>_.
    ensure (is_participating (participation_status p)) (rwa_err InvalidParticipationStatus) (
    ensure (amount \<le> deposit_held p) (rwa_err SlashAmountExceedsDeposit) (
    try_bind (do_distribute_slash T (deposit_currency (policy a)) amount aid (beneficiary a) reporter s1) (\<lambda>s2.
    let remainder = deposit_held p - amount in
    try_bind
      (if remainder \<noteq> 0
       then rwa_do_transfer T (deposit_currency (policy a)) (pallet_account T) (payer p) remainder s2
       else Inr s2) (\<lambda>s3.
    Inr (emit (ParticipationSlashed aid pid amount reporter) (end_participation aid pid p Slashed s3))))))))))))"

definition revoke_participation ::
  "'l rwa_config \<Rightarrow> origin \<Rightarrow> nat \<Rightarrow> nat \<Rightarrow> 'l rwa_state \<Rightarrow> ('l rwa_state) dispatch_result" where
  "revoke_participation T org aid pid s =
    ensure_origin (rwa_admin_origin T) org (
    ok_or (fmlookup (rwa_assets s) aid) (rwa_err AssetNotFound) (\<lambda>a.
    ok_or (fmlookup (participations s) (aid, pid)) (rwa_err ParticipationNotFound) (\<lambda>p0.
    try_bind (try_settle_expiry T aid pid p0 a s) (\<lambda>(settled, p, s1).
    ensure (\<not> settled) (rwa_err ParticipationExpiredError) (
    ensure (is_participating (participation_status p)) (rwa_err InvalidParticipationStatus) (
    try_bind (rwa_do_transfer T (deposit_currency (policy a)) (pallet_account T) (payer p) (deposit_held p) s1) (\<lambda>s2.
    Inr (emit (ParticipationRevoked aid pid (deposit_held p)) (end_participation aid pid p Revoked s2)))))))))"

subsection \<open>Ownership, beneficiary and metadata\<close>

definition transfer_ownership ::
  "'l rwa_config \<Rightarrow> origin \<Rightarrow> nat \<Rightarrow> account_id \<Rightarrow> 'l rwa_state \<Rightarrow> ('l rwa_state) dispatch_result" where
  "transfer_ownership T org aid new_owner s =
    ensure_signed org (\<lambda>who.
    ok_or (fmlookup (rwa_assets s) aid) (rwa_err AssetNotFound) (\<lambda>a.
    ensure (owner a = who) (rwa_err NotAssetOwner) (
    ensure (asset_status a \<noteq> Retired) (rwa_err AssetAlreadyRetired) (
    ensure (new_owner \<noteq> who) (rwa_err TransferToSelf) (
    Inr (emit (OwnershipTransferProposed aid who new_owner)
      (s\<lparr>pending_ownership_transfer := fmupd aid new_owner (pending_ownership_transfer s)\<rparr>)))))))"

definition accept_ownership :: "'l rwa_config \<Rightarrow> origin \<Rightarrow> nat \<Rightarrow> 'l rwa_state \<Rightarrow> ('l rwa_state) dispatch_result" where
  "accept_ownership T org aid s =
    ensure_signed org (\<lambda>who.
    ok_or (fmlookup (pending_ownership_transfer s) aid) (rwa_err NoPendingTransfer) (\<lambda>pending.
    ensure (pending = who) (rwa_err NotPendingOwner) (
    ok_or (fmlookup (rwa_assets s) aid) (rwa_err AssetNotFound) (\<lambda>a.
    ensure (asset_status a \<notin> {Retired, AssetPaused}) (rwa_err InvalidAssetStatus) (
    ensure (length (get_or [] (owner_assets s) who) < max_assets_per_owner T) (rwa_err MaxAssetsPerOwnerReached) (
    let dep = registration_deposit a;
        l1 = snd (native_unreserve (rwa_currency T) (owner a) dep (rwa_ledger s)) in
    try_bind (native_reserve (rwa_currency T) who dep l1) (\<lambda>l2.
    let s1 = put_asset aid (a\<lparr>owner := who\<rparr>) (s\<lparr>rwa_ledger := l2\<rparr>);
        s2 = remove_from_owner_assets (owner a) aid s1;
        ids = get_or [] (owner_assets s2) who;
        ids' = (case try_push (max_assets_per_owner T) aid ids of Some xs \<Rightarrow> xs | None \<Rightarrow> ids);
        s3 = s2\<lparr>owner_assets := fmupd who ids' (owner_assets s2),
               pending_ownership_transfer := fmdrop aid (pending_ownership_transfer s2)\<rparr> in
    Inr (emit (OwnershipTransferred aid (owner a) who) s3))))))))"

definition cancel_ownership_transfer ::
  "'l rwa_config \<Rightarrow> origin \<Rightarrow> nat \<Rightarrow> 'l rwa_state \<Rightarrow> ('l rwa_state) dispatch_result" where
  "cancel_ownership_transfer T org aid s =
    ensure_signed org (\<lambda>who.
    ok_or (fmlookup (rwa_assets s) aid) (rwa_err AssetNotFound) (\<lambda>a.
    ensure (owner a = who) (rwa_err NotAssetOwner) (
    ensure (contains_key (pending_ownership_transfer s) aid) (rwa_err NoPendingTransfer) (
    Inr (emit (OwnershipTransferCancelled aid)
      (s\<lparr>pending_ownership_transfer := fmdrop aid (pending_ownership_transfer s)\<rparr>))))))"

definition update_beneficiary ::
  "'l rwa_config \<Rightarrow> origin \<Rightarrow> nat \<Rightarrow> account_id \<Rightarrow> 'l rwa_state \<Rightarrow> ('l rwa_state) dispatch_result" where
  "update_beneficiary T org aid new_beneficiary s =
    ensure_asset_owner_or_admin T org aid s (
    ok_or (fmlookup (rwa_assets s) aid) (rwa_err AssetNotFound) (\<lambda>a.
    ensure (asset_status a \<noteq> Retired) (rwa_err AssetAlreadyRetired) (
    Inr (put_asset aid (a\<lparr>beneficiary := new_beneficiary\<rparr>)
      (emit (BeneficiaryUpdated aid (beneficiary a) new_beneficiary) s)))))"

definition update_metadata ::
  "'l rwa_config \<Rightarrow> origin \<Rightarrow> nat \<Rightarrow> nat list \<Rightarrow> 'l rwa_state \<Rightarrow> ('l rwa_state) dispatch_result" where
  "update_metadata T org aid new_metadata s =
    ensure_asset_owner_or_admin T org aid s (
    ensure (length new_metadata \<le> max_metadata_len T) (rwa_err MetadataTooLong) (
    ok_or (fmlookup (rwa_assets s) aid) (rwa_err AssetNotFound) (\<lambda>a.
    ensure (asset_status a \<noteq> Retired) (rwa_err AssetAlreadyRetired) (
    Inr (put_asset aid (a\<lparr>metadata := new_metadata\<rparr>) (emit (MetadataUpdated aid) s))))))"

definition transfer_participation ::
  "'l rwa_config \<Rightarrow> origin \<Rightarrow> nat \<Rightarrow> nat \<Rightarrow> account_id \<Rightarrow> 'l rwa_state \<Rightarrow> ('l rwa_state) dispatch_result" where
  "transfer_participation T org aid pid new_payer s =
    ensure_signed org (\<lambda>who.
    ok_or (fmlookup (rwa_assets s) aid) (rwa_err AssetNotFound) (\<lambda>a.
    ensure (asset_status a = AssetActive) (rwa_err AssetNotActive) (
    ok_or (fmlookup (participations s) (aid, pid)) (rwa_err ParticipationNotFound) (\<lambda>p0.
    ensure (payer p0 = who) (rwa_err NotPayer) (
    ensure (new_payer \<noteq> who) (rwa_err TransferToSelf) (
    try_bind (try_settle_expiry_inner T aid pid p0 a s) (\<lambda>(settled, p, s1).
    ensure (\<not> settled) (rwa_err ParticipationExpiredError) (
    ensure (is_participating (participation_status p)) (rwa_err InvalidParticipationStatus) (
    Inr (put_participation aid pid (p\<lparr>payer := new_payer\<rparr>)
      (emit (ParticipationTransferred aid pid (payer p) new_payer) s1)))))))))))"

subsection \<open>Pausing and batch rejection\<close>

definition pause_asset :: "'l rwa_config \<Rightarrow> origin \<Rightarrow> nat \<Rightarrow> 'l rwa_state \<Rightarrow> ('l rwa_state) dispatch_result" where
  "pause_asset T org aid s =
    ensure_origin (rwa_admin_origin T) org (
    ok_or (fmlookup (rwa_assets s) aid) (rwa_err AssetNotFound) (\<lambda>a.
    ensure (asset_status a \<in> {AssetActive, AssetInactive}) (rwa_err InvalidAssetStatus) (
    Inr (emit (AssetPausedEvent aid) (put_asset aid (a\<lparr>asset_status := AssetPaused\<rparr>) s)))))"

definition unpause_asset :: "'l rwa_config \<Rightarrow> origin \<Rightarrow> nat \<Rightarrow> 'l rwa_state \<Rightarrow> ('l rwa_state) dispatch_result" where
  "unpause_asset T org aid s =
    ensure_origin (rwa_admin_origin T) org (
    ok_or (fmlookup (rwa_assets s) aid) (rwa_err AssetNotFound) (\<lambda>a.
    ensure (asset_status a = AssetPaused) (rwa_err InvalidAssetStatus) (
    Inr (emit (AssetUnpaused aid) (put_asset aid (a\<lparr>asset_status := AssetActive\<rparr>) s)))))"

text \<open>
  The loop of \<open>batch_reject_pending\<close>: the list of retained entries, the number of rejected ones and
  the state. A transfer that fails leaves the state as it was and its entry is retained.
\<close>

fun reject_all ::
  "'l rwa_config \<Rightarrow> nat \<Rightarrow> asset_info \<Rightarrow> nat list \<Rightarrow> 'l rwa_state \<Rightarrow> nat list \<times> nat \<times> 'l rwa_state" where
  "reject_all T aid a [] s = ([], 0, s)"
| "reject_all T aid a (pid # pids) s = (case fmlookup (participations s) (aid, pid) of
     None \<Rightarrow> reject_all T aid a pids s
   | Some p \<Rightarrow>
       if participation_status p \<noteq> PendingApproval
       then (let (ret, n, s') = reject_all T aid a pids s in (pid # ret, n, s'))
       else (case rwa_do_transfer T (deposit_currency (policy a)) (pallet_account T) (payer p)
                    (add128 (deposit_held p) (entry_fee_paid p)) s of
          Inr s1 \<Rightarrow>
            (let s2 = dec_participant_count aid (remove_all_holder_indexes aid (holders p)
                   (s1\<lparr>participations := fmdrop (aid, pid) (participations s1)\<rparr>));
                 (ret, n, s') = reject_all T aid a pids s2 in (ret, n + 1, s'))
        | Inl _ \<Rightarrow> (let (ret, n, s') = reject_all T aid a pids s in (pid # ret, n, s'))))"

definition batch_reject_pending :: "'l rwa_config \<Rightarrow> origin \<Rightarrow> nat \<Rightarrow> 'l rwa_state \<Rightarrow> ('l rwa_state) dispatch_result" where
  "batch_reject_pending T org aid s =
    ensure_asset_owner_or_admin T org aid s (
    ok_or (fmlookup (rwa_assets s) aid) (rwa_err AssetNotFound) (\<lambda>a.
    let (retained, rejected, s1) = reject_all T aid a (get_or [] (pending_approvals s) aid) s;
        s2 = s1\<lparr>pending_approvals := (if retained = [] then fmdrop aid (pending_approvals s1)
                                      else fmupd aid retained (pending_approvals s1))\<rparr> in
    Inr (emit (BatchPendingRejected aid rejected) s2)))"

section \<open>Calls\<close>

datatype (plugins only: code) rwa_call =
    RegisterAsset account_id asset_policy "nat list"
  | UpdateAssetPolicy nat asset_policy
  | DeactivateAsset nat
  | ReactivateAsset nat
  | SunsetAsset nat block_number
  | ForceRetireAsset nat
  | RetireAsset nat
  | RequestParticipation nat "account_id list"
  | ApproveParticipation nat nat
  | RejectParticipation nat nat
  | ExitParticipation nat nat
  | RenewParticipation nat nat
  | SettleExpiredParticipation nat nat
  | ClaimRetiredDeposit nat nat
  | AddHolder nat nat account_id
  | RemoveHolder nat nat account_id
  | LeaveParticipation nat nat
  | SetSlashDistribution nat "slash_recipient list"
  | SlashParticipation nat nat balance "account_id option"
  | RevokeParticipation nat nat
  | TransferOwnership nat account_id
  | AcceptOwnership nat
  | CancelOwnershipTransfer nat
  | UpdateBeneficiary nat account_id
  | UpdateMetadata nat "nat list"
  | TransferParticipation nat nat account_id
  | PauseAsset nat
  | UnpauseAsset nat
  | BatchRejectPending nat

fun rwa_dispatch ::
  "'l rwa_config \<Rightarrow> rwa_hooks \<Rightarrow> origin \<Rightarrow> rwa_call \<Rightarrow> 'l rwa_state \<Rightarrow> ('l rwa_state) dispatch_result" where
  "rwa_dispatch T H org (RegisterAsset b pol meta) s = register_asset T org b pol meta s"
| "rwa_dispatch T H org (UpdateAssetPolicy aid pol) s = update_asset_policy T org aid pol s"
| "rwa_dispatch T H org (DeactivateAsset aid) s = deactivate_asset T org aid s"
| "rwa_dispatch T H org (ReactivateAsset aid) s = reactivate_asset T org aid s"
| "rwa_dispatch T H org (SunsetAsset aid n) s = sunset_asset T org aid n s"
| "rwa_dispatch T H org (ForceRetireAsset aid) s = force_retire_asset T H org aid s"
| "rwa_dispatch T H org (RetireAsset aid) s = retire_asset T org aid s"
| "rwa_dispatch T H org (RequestParticipation aid hs) s = request_participation T H org aid hs s"
| "rwa_dispatch T H org (ApproveParticipation aid pid) s = approve_participation T org aid pid s"
| "rwa_dispatch T H org (RejectParticipation aid pid) s = reject_participation T org aid pid s"
| "rwa_dispatch T H org (ExitParticipation aid pid) s = exit_participation T org aid pid s"
| "rwa_dispatch T H org (RenewParticipation aid pid) s = renew_participation T H org aid pid s"
| "rwa_dispatch T H org (SettleExpiredParticipation aid pid) s = settle_expired_participation T org aid pid s"
| "rwa_dispatch T H org (ClaimRetiredDeposit aid pid) s = claim_retired_deposit T org aid pid s"
| "rwa_dispatch T H org (AddHolder aid pid h) s = add_holder T H org aid pid h s"
| "rwa_dispatch T H org (RemoveHolder aid pid h) s = remove_holder T org aid pid h s"
| "rwa_dispatch T H org (LeaveParticipation aid pid) s = leave_participation T org aid pid s"
| "rwa_dispatch T H org (SetSlashDistribution aid dist) s = set_slash_distribution T org aid dist s"
| "rwa_dispatch T H org (SlashParticipation aid pid v r) s = slash_participation T H org aid pid v r s"
| "rwa_dispatch T H org (RevokeParticipation aid pid) s = revoke_participation T org aid pid s"
| "rwa_dispatch T H org (TransferOwnership aid who) s = transfer_ownership T org aid who s"
| "rwa_dispatch T H org (AcceptOwnership aid) s = accept_ownership T org aid s"
| "rwa_dispatch T H org (CancelOwnershipTransfer aid) s = cancel_ownership_transfer T org aid s"
| "rwa_dispatch T H org (UpdateBeneficiary aid who) s = update_beneficiary T org aid who s"
| "rwa_dispatch T H org (UpdateMetadata aid meta) s = update_metadata T org aid meta s"
| "rwa_dispatch T H org (TransferParticipation aid pid who) s = transfer_participation T org aid pid who s"
| "rwa_dispatch T H org (PauseAsset aid) s = pause_asset T org aid s"
| "rwa_dispatch T H org (UnpauseAsset aid) s = unpause_asset T org aid s"
| "rwa_dispatch T H org (BatchRejectPending aid) s = batch_reject_pending T org aid s"

section \<open>Read-only functions\<close>

text \<open>
  \<open>do_try_state\<close>: the consistency checks in their order, with the messages of the source. Where one
  entry violates two checks of a group, the first one is reported.
\<close>

definition counted :: "participation \<Rightarrow> bool" where
  "counted p = (is_participating (participation_status p) \<or> participation_status p = PendingApproval)"

definition check_owner_assets :: "'l rwa_state \<Rightarrow> string + unit" where
  "check_owner_assets s =
    ensure (fmpred (\<lambda>_ ids. list_all (contains_key (rwa_assets s)) ids) (owner_assets s))
      ''OwnerAssets references non-existent asset'' (
    ensure (fmpred (\<lambda>who ids. list_all (\<lambda>aid. case fmlookup (rwa_assets s) aid of
              Some a \<Rightarrow> owner a = who | None \<Rightarrow> False) ids) (owner_assets s))
      ''OwnerAssets owner mismatch'' (
    ensure (fmpred (\<lambda>_ ids. list_all (\<lambda>aid. case fmlookup (rwa_assets s) aid of
              Some a \<Rightarrow> asset_status a \<noteq> Retired | None \<Rightarrow> False) ids) (owner_assets s))
      ''Retired asset still in OwnerAssets'' (Inr ())))"

definition check_indexes :: "'l rwa_state \<Rightarrow> string + unit" where
  "check_indexes s =
    ensure (fmpred (\<lambda>(aid, _) pid. contains_key (participations s) (aid, pid)) (holder_index s))
      ''HolderIndex references non-existent participation'' (
    ensure (fmpred (\<lambda>(aid, _) pid. case fmlookup (participations s) (aid, pid) of
              Some p \<Rightarrow> counted p | None \<Rightarrow> False) (holder_index s))
      ''HolderIndex references non-active participation'' (
    ensure (fmpred (\<lambda>(aid, who) pid. case fmlookup (participations s) (aid, pid) of
              Some p \<Rightarrow> who \<in> set (holders p) | None \<Rightarrow> False) (holder_index s))
      ''HolderIndex account not in participation holders'' (
    ensure (fmpred (\<lambda>who ids. list_all (\<lambda>aid. contains_key (holder_index s) (aid, who)) ids) (holder_assets s))
      ''HolderAssets references missing HolderIndex'' (Inr ()))))"

definition check_pending :: "'l rwa_state \<Rightarrow> string + unit" where
  "check_pending s =
    ensure (fmpred (\<lambda>aid pids. list_all (\<lambda>pid. contains_key (participations s) (aid, pid)) pids) (pending_approvals s))
      ''PendingApprovals references non-existent participation'' (
    ensure (fmpred (\<lambda>aid pids. list_all (\<lambda>pid. case fmlookup (participations s) (aid, pid) of
              Some p \<Rightarrow> participation_status p = PendingApproval | None \<Rightarrow> False) pids) (pending_approvals s))
      ''PendingApprovals entry is not PendingApproval status'' (Inr ()))"

definition check_sunsetting :: "'l rwa_state \<Rightarrow> string + unit" where
  "check_sunsetting s =
    ensure (fmpred (\<lambda>_ ids. list_all (contains_key (rwa_assets s)) ids) (sunsetting_assets s))
      ''SunsettingAssets references non-existent asset'' (
    ensure (fmpred (\<lambda>n ids. list_all (\<lambda>aid. case fmlookup (rwa_assets s) aid of
              Some a \<Rightarrow> (case asset_status a of Sunsetting e \<Rightarrow> e = n | _ \<Rightarrow> True) | None \<Rightarrow> False) ids) (sunsetting_assets s))
      ''SunsettingAssets block mismatch'' (
    ensure (fmpred (\<lambda>n ids. list_all (\<lambda>aid. case fmlookup (rwa_assets s) aid of
              Some a \<Rightarrow> (case asset_status a of Sunsetting e \<Rightarrow> True | _ \<Rightarrow> False) | None \<Rightarrow> False) ids) (sunsetting_assets s))
      ''SunsettingAssets references non-sunsetting asset'' (Inr ())))"

definition check_transfers :: "'l rwa_state \<Rightarrow> string + unit" where
  "check_transfers s =
    ensure (fmpred (\<lambda>aid _. contains_key (rwa_assets s) aid) (pending_ownership_transfer s))
      ''PendingOwnershipTransfer references non-existent asset'' (
    ensure (fmpred (\<lambda>aid who. case fmlookup (rwa_assets s) aid of
              Some a \<Rightarrow> owner a \<noteq> who | None \<Rightarrow> False) (pending_ownership_transfer s))
      ''PendingOwnershipTransfer owner matches current owner'' (
    ensure (fmpred (\<lambda>aid _. case fmlookup (rwa_assets s) aid of
              Some a \<Rightarrow> asset_status a \<noteq> Retired | None \<Rightarrow> False) (pending_ownership_transfer s))
      ''PendingOwnershipTransfer on Retired asset'' (Inr ())))"

definition rwa_try_state :: "'l rwa_state \<Rightarrow> string + unit" where
  "rwa_try_state s =
    ensure (fmpred (\<lambda>aid _. aid < next_rwa_asset_id s) (rwa_assets s)) ''asset_id >= NextRwaAssetId'' (
    try_bind (check_owner_assets s) (\<lambda>_.
    ensure (fmpred (\<lambda>aid a. fmcount (\<lambda>k p. fst k = aid \<and> counted p) (participations s) mod (u32_max + 1) =
              participant_count a) (rwa_assets s)) ''participant_count mismatch'' (
    try_bind (check_indexes s) (\<lambda>_.
    try_bind (check_pending s) (\<lambda>_.
    ensure (fmpred (\<lambda>_ dist. fold (\<lambda>r acc. permill_from_parts (add32 acc (share r))) dist 0 = permill_accuracy)
        (asset_slash_distribution s)) ''SlashDistribution shares do not sum to 100%'' (
    try_bind (check_sunsetting s) (\<lambda>_. check_transfers s)))))))"

definition effective_participation_status :: "nat \<Rightarrow> nat \<Rightarrow> 'l rwa_state \<Rightarrow> participation_status option" where
  "effective_participation_status aid pid s =
    (case fmlookup (participations s) (aid, pid) of
       None \<Rightarrow> None
     | Some p \<Rightarrow> Some (case participation_status p of
         Participating b (Some expiry) \<Rightarrow> if expiry \<le> rwa_now s then Expired else Participating b (Some expiry)
       | st \<Rightarrow> st))"

definition can_participate :: "rwa_hooks \<Rightarrow> nat \<Rightarrow> account_id \<Rightarrow> 'l rwa_state \<Rightarrow> can_participate_error + unit" where
  "can_participate H aid who s =
    ok_or (fmlookup (rwa_assets s) aid) CpAssetNotFound (\<lambda>a.
    ensure (asset_status a = AssetActive) CpAssetNotActive (
    ensure (case max_participants (policy a) of Some mx \<Rightarrow> participant_count a < mx | None \<Rightarrow> True)
      CpMaxParticipantsReached (
    ensure (\<not> contains_key (holder_index s) (aid, who)) CpAlreadyParticipating (
    try_bind (map_err (\<lambda>_. CpNotEligible) (ensure_eligible H aid who)) (\<lambda>_. Inr ())))))"

definition assets_by_owner :: "account_id \<Rightarrow> 'l rwa_state \<Rightarrow> nat list" where
  "assets_by_owner who s = get_or [] (owner_assets s) who"

definition participations_by_holder :: "account_id \<Rightarrow> 'l rwa_state \<Rightarrow> (nat \<times> nat) list" where
  "participations_by_holder who s =
    List.map_filter (\<lambda>aid. map_option (Pair aid) (fmlookup (holder_index s) (aid, who))) (get_or [] (holder_assets s) who)"

definition active_participant_count :: "nat \<Rightarrow> 'l rwa_state \<Rightarrow> nat" where
  "active_participant_count aid s = (case fmlookup (rwa_assets s) aid of Some a \<Rightarrow> participant_count a | None \<Rightarrow> 0)"

end
