(* ===== verification/Rwa_Inv.thy ===== *)
theory Rwa_Inv
  imports Rwa
begin

text \<open>
  The state invariant of the pallet for real-world assets and its preservation by every
  dispatchable and by the block hook. The invariant contains the consistency checks of
  \<open>do_try_state\<close> and makes them exact: the indexes list neither more nor less than what they
  index, and the participant counters are the numbers of open participations.
\<close>

section \<open>The invariant\<close>

text \<open>What the indexes need of an asset: its owner and its status.\<close>

definition asset_core :: "(nat, asset_info) fmap \<Rightarrow> nat \<Rightarrow> (account_id \<times> rwa_asset_status) option" where
  "asset_core assets aid = map_option (\<lambda>a. (owner a, asset_status a)) (fmlookup assets aid)"

text \<open>The holders of an open participation, and the open participations of an asset.\<close>

definition active_holders :: "(nat \<times> nat, participation) fmap \<Rightarrow> nat \<Rightarrow> nat \<Rightarrow> account_id set" where
  "active_holders ps aid pid = (case fmlookup ps (aid, pid) of
     Some p \<Rightarrow> if counted p then set (holders p) else {} | None \<Rightarrow> {})"

definition members :: "(nat \<times> nat, participation) fmap \<Rightarrow> nat \<Rightarrow> nat" where
  "members ps aid = fmcount (\<lambda>k p. fst k = aid \<and> counted p) ps"

definition is_pending :: "(nat \<times> nat, participation) fmap \<Rightarrow> nat \<Rightarrow> nat \<Rightarrow> bool" where
  "is_pending ps aid pid = (case fmlookup ps (aid, pid) of
     Some p \<Rightarrow> participation_status p = PendingApproval | None \<Rightarrow> False)"

definition owners_inv ::
  "(nat \<Rightarrow> (account_id \<times> rwa_asset_status) option) \<Rightarrow> (account_id, nat list) fmap \<Rightarrow> bool" where
  "owners_inv core oas =
    (\<forall>who. distinct (get_or [] oas who) \<and>
       (\<forall>aid. aid \<in> set (get_or [] oas who) \<longleftrightarrow> (\<exists>st. core aid = Some (who, st) \<and> st \<noteq> Retired)))"

definition parts_inv ::
  "(nat \<Rightarrow> (account_id \<times> rwa_asset_status) option) \<Rightarrow> (nat \<times> nat, participation) fmap \<Rightarrow> (nat, nat) fmap \<Rightarrow> bool" where
  "parts_inv core ps next_ids =
    ((\<forall>aid pid p. fmlookup ps (aid, pid) = Some p \<longrightarrow>
        core aid \<noteq> None \<and> pid < get_or 0 next_ids aid \<and> distinct (holders p) \<and>
        (participation_status p \<noteq> Exited \<longrightarrow> holders p \<noteq> [])) \<and>
     (\<forall>aid. get_or 0 next_ids aid \<le> u32_max))"

definition counts_inv :: "(nat, asset_info) fmap \<Rightarrow> (nat \<times> nat, participation) fmap \<Rightarrow> bool" where
  "counts_inv assets ps = (\<forall>aid a. fmlookup assets aid = Some a \<longrightarrow> participant_count a = members ps aid)"

definition index_inv ::
  "(nat \<times> nat, participation) fmap \<Rightarrow> (nat \<times> account_id, nat) fmap \<Rightarrow> (account_id, nat list) fmap \<Rightarrow> bool" where
  "index_inv ps hi has =
    ((\<forall>aid h pid. fmlookup hi (aid, h) = Some pid \<longleftrightarrow> h \<in> active_holders ps aid pid) \<and>
     (\<forall>h. distinct (get_or [] has h) \<and>
        (\<forall>aid. aid \<in> set (get_or [] has h) \<longleftrightarrow> contains_key hi (aid, h))))"

definition pending_inv ::
  "(nat \<Rightarrow> (account_id \<times> rwa_asset_status) option) \<Rightarrow> (nat \<times> nat, participation) fmap \<Rightarrow> (nat, nat list) fmap \<Rightarrow> bool" where
  "pending_inv core ps pas =
    (\<forall>aid. distinct (get_or [] pas aid) \<and>
       (\<forall>pid. pid \<in> set (get_or [] pas aid) \<longleftrightarrow> is_pending ps aid pid \<and> (\<forall>who. core aid \<noteq> Some (who, Retired))))"

definition sunset_inv ::
  "(nat \<Rightarrow> (account_id \<times> rwa_asset_status) option) \<Rightarrow> (block_number, nat list) fmap \<Rightarrow> bool" where
  "sunset_inv core sas =
    (\<forall>n. distinct (get_or [] sas n) \<and>
       (\<forall>aid. aid \<in> set (get_or [] sas n) \<longleftrightarrow> (\<exists>who. core aid = Some (who, Sunsetting n))))"

definition transfers_inv ::
  "(nat \<Rightarrow> (account_id \<times> rwa_asset_status) option) \<Rightarrow> (nat, account_id) fmap \<Rightarrow> bool" where
  "transfers_inv core pts =
    (\<forall>aid who. fmlookup pts aid = Some who \<longrightarrow> (\<exists>o' st. core aid = Some (o', st) \<and> o' \<noteq> who \<and> st \<noteq> Retired))"

definition rwa_inv :: "'l rwa_state \<Rightarrow> bool" where
  "rwa_inv s =
    ((\<forall>aid. asset_core (rwa_assets s) aid \<noteq> None \<longrightarrow> aid < next_rwa_asset_id s) \<and>
     owners_inv (asset_core (rwa_assets s)) (owner_assets s) \<and>
     parts_inv (asset_core (rwa_assets s)) (participations s) (next_participation_id s) \<and>
     counts_inv (rwa_assets s) (participations s) \<and>
     index_inv (participations s) (holder_index s) (holder_assets s) \<and>
     pending_inv (asset_core (rwa_assets s)) (participations s) (pending_approvals s) \<and>
     (\<forall>aid d. fmlookup (asset_slash_distribution s) aid = Some d \<longrightarrow> total_parts d = permill_accuracy) \<and>
     sunset_inv (asset_core (rwa_assets s)) (sunsetting_assets s) \<and>
     transfers_inv (asset_core (rwa_assets s)) (pending_ownership_transfer s))"

definition rwa_init :: "block_number \<Rightarrow> 'l \<Rightarrow> 'l rwa_state" where
  "rwa_init now l =
    \<lparr>rwa_assets = fmempty, next_rwa_asset_id = 0, participations = fmempty, next_participation_id = fmempty,
     holder_index = fmempty, pending_approvals = fmempty, asset_slash_distribution = fmempty,
     sunsetting_assets = fmempty, owner_assets = fmempty, holder_assets = fmempty,
     pending_ownership_transfer = fmempty, rwa_now = now, rwa_ledger = l, rwa_events = []\<rparr>"

lemma rwa_init_inv: "rwa_inv (rwa_init now l)"
  by (simp add: rwa_inv_def rwa_init_def owners_inv_def parts_inv_def counts_inv_def index_inv_def
      pending_inv_def sunset_inv_def transfers_inv_def asset_core_def active_holders_def is_pending_def)

section \<open>What the helpers change\<close>

lemma rwa_do_transfer_frame:
  "rwa_do_transfer T cur a b v s = Inr s' \<Longrightarrow> \<exists>l. s' = s\<lparr>rwa_ledger := l\<rparr>"
  by (auto simp: rwa_do_transfer_def dispatch_simps split: if_splits intro: exI [of _ "rwa_ledger s"])

lemma rwa_do_burn_frame:
  "rwa_do_burn T cur a v s = Inr s' \<Longrightarrow> \<exists>l. s' = s\<lparr>rwa_ledger := l\<rparr>"
  by (auto simp: rwa_do_burn_def dispatch_simps split: if_splits intro: exI [of _ "rwa_ledger s"])

text \<open>The index maps of a group of holders.\<close>

definition index_all :: "nat \<Rightarrow> nat \<Rightarrow> account_id list \<Rightarrow> (nat \<times> account_id, nat) fmap \<Rightarrow> (nat \<times> account_id, nat) fmap" where
  "index_all aid pid hs hi = fold (\<lambda>h. fmupd (aid, h) pid) hs hi"

definition unindex_all :: "nat \<Rightarrow> account_id list \<Rightarrow> (nat \<times> account_id, nat) fmap \<Rightarrow> (nat \<times> account_id, nat) fmap" where
  "unindex_all aid hs hi = fold (\<lambda>h. fmdrop (aid, h)) hs hi"

definition push_id :: "nat \<Rightarrow> nat \<Rightarrow> nat list \<Rightarrow> nat list" where
  "push_id mx aid ids = (if aid \<in> set ids then ids
     else (case try_push mx aid ids of Some xs \<Rightarrow> xs | None \<Rightarrow> ids))"

definition list_all_holders :: "nat \<Rightarrow> nat \<Rightarrow> account_id list \<Rightarrow> (account_id, nat list) fmap \<Rightarrow> (account_id, nat list) fmap" where
  "list_all_holders mx aid hs has = fold (\<lambda>h m. fmupd h (push_id mx aid (get_or [] m h)) m) hs has"

definition unlist_all_holders :: "nat \<Rightarrow> account_id list \<Rightarrow> (account_id, nat list) fmap \<Rightarrow> (account_id, nat list) fmap" where
  "unlist_all_holders aid hs has = fold (\<lambda>h m. fmupd h (remove1 aid (get_or [] m h)) m) hs has"

lemma add_all_eq:
  "fold (add_holder_index T aid pid) hs s =
    s\<lparr>holder_index := index_all aid pid hs (holder_index s),
      holder_assets := list_all_holders (max_participations_per_holder T) aid hs (holder_assets s)\<rparr>"
  by (induction hs arbitrary: s)
    (simp_all add: index_all_def list_all_holders_def add_holder_index_def push_holder_asset_def push_id_def Let_def)

lemma remove_all_eq:
  "remove_all_holder_indexes aid hs s =
    s\<lparr>holder_index := unindex_all aid hs (holder_index s),
      holder_assets := unlist_all_holders aid hs (holder_assets s)\<rparr>"
  unfolding remove_all_holder_indexes_def
  by (induction hs arbitrary: s)
    (simp_all add: unindex_all_def unlist_all_holders_def remove_single_holder_index_def)

lemma index_all_lookup:
  "fmlookup (index_all aid pid hs hi) (a, h) = (if a = aid \<and> h \<in> set hs then Some pid else fmlookup hi (a, h))"
  unfolding index_all_def by (induction hs arbitrary: hi) auto

lemma unindex_all_lookup:
  "fmlookup (unindex_all aid hs hi) (a, h) = (if a = aid \<and> h \<in> set hs then None else fmlookup hi (a, h))"
  unfolding unindex_all_def by (induction hs arbitrary: hi) auto

lemma list_all_holders_get:
  "distinct hs \<Longrightarrow> get_or [] (list_all_holders mx aid hs has) h =
    (if h \<in> set hs then push_id mx aid (get_or [] has h) else get_or [] has h)"
  unfolding list_all_holders_def by (induction hs arbitrary: has) auto

lemma unlist_all_holders_get:
  "distinct hs \<Longrightarrow> get_or [] (unlist_all_holders aid hs has) h =
    (if h \<in> set hs then remove1 aid (get_or [] has h) else get_or [] has h)"
  unfolding unlist_all_holders_def by (induction hs arbitrary: has) auto

lemma push_id_room [simp]:
  "length ids < mx \<Longrightarrow> set (push_id mx aid ids) = insert aid (set ids)"
  "distinct ids \<Longrightarrow> distinct (push_id mx aid ids)"
  by (auto simp: push_id_def try_push_def)

section \<open>The parts of the invariant under a change of one participation\<close>

definition agree_off :: "'k \<Rightarrow> ('k, 'v) fmap \<Rightarrow> ('k, 'v) fmap \<Rightarrow> bool" where
  "agree_off k m m' = (\<forall>j. j \<noteq> k \<longrightarrow> fmlookup m' j = fmlookup m j)"

lemma agree_off_upd [simp, intro]: "agree_off k m (fmupd k v m)"
  and agree_off_drop [simp, intro]: "agree_off k m (fmdrop k m)"
  and agree_off_refl [simp, intro]: "agree_off k m m"
  by (auto simp: agree_off_def)

lemma active_holders_off:
  "\<lbrakk>agree_off (aid, pid) ps ps'; (a, q) \<noteq> (aid, pid)\<rbrakk> \<Longrightarrow> active_holders ps' a q = active_holders ps a q"
  by (simp add: agree_off_def active_holders_def)

lemma active_holders_upd [simp]:
  "active_holders (fmupd (aid, pid) p ps) aid pid = (if counted p then set (holders p) else {})"
  "active_holders (fmdrop (aid, pid) ps) aid pid = {}"
  by (simp_all add: active_holders_def)

lemma index_inv_add:
  assumes I: "index_inv ps hi has" and off: "agree_off (aid, pid) ps ps'"
    and act: "active_holders ps' aid pid = active_holders ps aid pid \<union> set hs"
    and new: "distinct hs" "\<And>h. h \<in> set hs \<Longrightarrow> \<not> contains_key hi (aid, h) \<and> length (get_or [] has h) < mx"
  shows "index_inv ps' (index_all aid pid hs hi) (list_all_holders mx aid hs has)"
proof -
  have hi: "fmlookup hi (a, h) = Some q \<longleftrightarrow> h \<in> active_holders ps a q" for a h q
    using I by (simp add: index_inv_def)
  have "fmlookup (index_all aid pid hs hi) (a, h) = Some q \<longleftrightarrow> h \<in> active_holders ps' a q" for a h q
  proof (cases "(a, q) = (aid, pid)")
    case True
    then show ?thesis using hi act by (auto simp: index_all_lookup)
  next
    case False
    then show ?thesis
      using hi [of a h q] new(2) [of h] active_holders_off [OF off False]
      by (auto simp: index_all_lookup contains_key_def)
  qed
  moreover have "distinct (get_or [] (list_all_holders mx aid hs has) h) \<and>
      (\<forall>a. a \<in> set (get_or [] (list_all_holders mx aid hs has) h) \<longleftrightarrow> contains_key (index_all aid pid hs hi) (a, h))" for h
    using I new by (auto simp: index_inv_def list_all_holders_get contains_key_def index_all_lookup)
  ultimately show ?thesis by (simp add: index_inv_def)
qed

lemma index_inv_remove:
  assumes I: "index_inv ps hi has" and off: "agree_off (aid, pid) ps ps'"
    and act: "active_holders ps' aid pid = active_holders ps aid pid - set hs"
    and old: "distinct hs" "set hs \<subseteq> active_holders ps aid pid"
  shows "index_inv ps' (unindex_all aid hs hi) (unlist_all_holders aid hs has)"
proof -
  have hi: "fmlookup hi (a, h) = Some q \<longleftrightarrow> h \<in> active_holders ps a q" for a h q
    using I by (simp add: index_inv_def)
  have own: "fmlookup hi (aid, h) = Some pid" if "h \<in> set hs" for h using hi old(2) that by blast
  have "fmlookup (unindex_all aid hs hi) (a, h) = Some q \<longleftrightarrow> h \<in> active_holders ps' a q" for a h q
  proof (cases "(a, q) = (aid, pid)")
    case True
    then show ?thesis using hi act by (auto simp: unindex_all_lookup)
  next
    case False
    then show ?thesis
      using hi [of a h q] own [of h] active_holders_off [OF off False]
      by (auto simp: unindex_all_lookup)
  qed
  moreover have "distinct (get_or [] (unlist_all_holders aid hs has) h) \<and>
      (\<forall>a. a \<in> set (get_or [] (unlist_all_holders aid hs has) h) \<longleftrightarrow> contains_key (unindex_all aid hs hi) (a, h))" for h
    using I old(1) by (auto simp: index_inv_def unlist_all_holders_get contains_key_def unindex_all_lookup)
  ultimately show ?thesis by (simp add: index_inv_def)
qed

lemma index_inv_keep:
  assumes "index_inv ps hi has" "agree_off (aid, pid) ps ps'"
    "active_holders ps' aid pid = active_holders ps aid pid"
  shows "index_inv ps' hi has"
  using index_inv_remove [of ps hi has aid pid ps' "[]"] assms
  by (simp add: unindex_all_def unlist_all_holders_def)

text \<open>The participant counters.\<close>

definition open_at :: "(nat \<times> nat, participation) fmap \<Rightarrow> nat \<Rightarrow> nat \<Rightarrow> bool" where
  "open_at ps aid pid = (case fmlookup ps (aid, pid) of Some p \<Rightarrow> counted p | None \<Rightarrow> False)"

lemma open_at_simps [simp]:
  "open_at (fmupd (aid, pid) p ps) aid pid = counted p" "\<not> open_at (fmdrop (aid, pid) ps) aid pid"
  "fmlookup ps (aid, pid) = Some p \<Longrightarrow> open_at ps aid pid = counted p"
  by (simp_all add: open_at_def)

lemma is_pending_simps [simp]:
  "is_pending (fmupd (aid, pid) p ps) aid pid = (participation_status p = PendingApproval)"
  "\<not> is_pending (fmdrop (aid, pid) ps) aid pid"
  "fmlookup ps (aid, pid) = Some p \<Longrightarrow> is_pending ps aid pid = (participation_status p = PendingApproval)"
  by (simp_all add: is_pending_def)

lemma members_step:
  "agree_off (aid, pid) ps ps' \<Longrightarrow>
     members ps' aid + of_bool (open_at ps aid pid) = members ps aid + of_bool (open_at ps' aid pid)"
  unfolding members_def fmcount_def
  using fmsum_agree [of "(aid, pid)" ps' ps "\<lambda>k p. if fst k = aid \<and> counted p then 1 else 0"]
  by (auto simp: agree_off_def open_at_def opt_nat_def split: option.splits)

lemma members_other:
  "\<lbrakk>agree_off (aid, pid) ps ps'; a \<noteq> aid\<rbrakk> \<Longrightarrow> members ps' a = members ps a"
  unfolding members_def fmcount_def agree_off_def
  by (rule fmsum_eqI) (auto simp: opt_nat_def split: option.splits)

lemma fmcount_card: "fmcount P m = card {k \<in> fmdom' m. P k (the (fmlookup m k))}"
  by (simp add: fmcount_def fmsum_def sum.inter_filter [symmetric])

lemma members_below:
  assumes "parts_inv core ps next_ids" "\<not> open_at ps aid pid" "pid < get_or 0 next_ids aid"
  shows "members ps aid < get_or 0 next_ids aid"
proof -
  let ?K = "{k \<in> fmdom' ps. fst k = aid \<and> counted (the (fmlookup ps k))}"
  have "card ?K = card (snd ` ?K)" by (rule card_image [symmetric]) (auto simp: inj_on_def)
  also have "\<dots> \<le> card ({..<get_or 0 next_ids aid} - {pid})"
    using assms(1,2) by (intro card_mono) (auto simp: parts_inv_def fmlookup_dom'_iff)
  also have "\<dots> < get_or 0 next_ids aid" using assms(3) by simp
  finally show ?thesis by (simp add: members_def fmcount_card)
qed

lemma members_le:
  assumes "parts_inv core ps next_ids"
  shows "members ps aid \<le> get_or 0 next_ids aid"
proof -
  let ?K = "{k \<in> fmdom' ps. fst k = aid \<and> counted (the (fmlookup ps k))}"
  have "card ?K = card (snd ` ?K)" by (rule card_image [symmetric]) (auto simp: inj_on_def)
  also have "\<dots> \<le> card {..<get_or 0 next_ids aid}"
    using assms by (intro card_mono) (auto simp: parts_inv_def fmlookup_dom'_iff)
  finally show ?thesis by (simp add: members_def fmcount_card)
qed

lemma counts_inv_step:
  assumes "counts_inv assets ps" "agree_off (aid, pid) ps ps'" "fmlookup assets aid = Some a"
    and "participant_count a' + of_bool (open_at ps aid pid) = participant_count a + of_bool (open_at ps' aid pid)"
  shows "counts_inv (fmupd aid a' assets) ps'"
  using assms members_step [OF assms(2)] members_other [OF assms(2)] by (auto simp: counts_inv_def)

lemma counts_inv_keep:
  assumes "counts_inv assets ps" "agree_off (aid, pid) ps ps'" "open_at ps' aid pid = open_at ps aid pid"
  shows "counts_inv assets ps'"
proof -
  have "members ps' a = members ps a" for a
    using members_step [OF assms(2)] members_other [OF assms(2), of a] assms(3) by (cases "a = aid") auto
  then show ?thesis using assms(1) by (simp add: counts_inv_def)
qed

text \<open>The records of the participations.\<close>

lemma parts_inv_upd:
  "\<lbrakk>parts_inv core ps next_ids; fmlookup ps (aid, pid) = Some p; distinct (holders p'); holders p' \<noteq> [] \<or> participation_status p' = Exited\<rbrakk> \<Longrightarrow>
     parts_inv core (fmupd (aid, pid) p' ps) next_ids"
  by (auto simp: parts_inv_def)

lemma parts_inv_drop: "parts_inv core ps next_ids \<Longrightarrow> parts_inv core (fmdrop (aid, pid) ps) next_ids"
  by (auto simp: parts_inv_def)

lemma parts_inv_new:
  "\<lbrakk>parts_inv core ps next_ids; core aid \<noteq> None; get_or 0 next_ids aid + 1 \<le> u32_max;
    distinct (holders p); holders p \<noteq> []\<rbrakk> \<Longrightarrow>
     parts_inv core (fmupd (aid, get_or 0 next_ids aid) p ps) (fmupd aid (get_or 0 next_ids aid + 1) next_ids)"
  by (force simp: parts_inv_def)

lemma parts_inv_core:
  "\<lbrakk>parts_inv core ps next_ids; \<And>aid. core aid \<noteq> None \<Longrightarrow> core' aid \<noteq> None\<rbrakk> \<Longrightarrow> parts_inv core' ps next_ids"
  unfolding parts_inv_def by blast

text \<open>The pending lists.\<close>

lemma is_pending_change:
  "\<lbrakk>agree_off (aid, pid) ps ps'; is_pending ps' aid pid = b\<rbrakk> \<Longrightarrow>
     is_pending ps' a q = (if a = aid \<and> q = pid then b else is_pending ps a q)"
  by (auto simp: agree_off_def is_pending_def)

lemma pending_inv_keep:
  assumes "pending_inv core ps pas" "agree_off (aid, pid) ps ps'" "is_pending ps' aid pid = is_pending ps aid pid"
  shows "pending_inv core ps' pas"
proof -
  have "is_pending ps' a q = is_pending ps a q" for a q
    using is_pending_change [OF assms(2,3), of a q] by auto
  then show ?thesis using assms(1) by (simp add: pending_inv_def)
qed

lemma pending_inv_retired:
  assumes "pending_inv core ps pas" "agree_off (aid, pid) ps ps'" "core aid = Some (who, Retired)"
  shows "pending_inv core ps' pas"
proof -
  have "is_pending ps' a q \<and> (\<forall>who. core a \<noteq> Some (who, Retired)) \<longleftrightarrow>
      is_pending ps a q \<and> (\<forall>who. core a \<noteq> Some (who, Retired))" for a q
    using is_pending_change [OF assms(2) refl, of a q] assms(3) by auto
  then show ?thesis using assms(1) by (simp add: pending_inv_def)
qed

lemma pending_inv_remove:
  assumes "pending_inv core ps pas" "agree_off (aid, pid) ps ps'" "\<not> is_pending ps' aid pid"
  shows "pending_inv core ps' (fmupd aid (remove1 pid (get_or [] pas aid)) pas)"
proof -
  have "is_pending ps' a q = (if a = aid \<and> q = pid then False else is_pending ps a q)" for a q
    by (rule is_pending_change [OF assms(2)]) (simp add: assms(3))
  then show ?thesis using assms(1) by (auto simp: pending_inv_def)
qed

lemma pending_inv_add:
  assumes "pending_inv core ps pas" "agree_off (aid, pid) ps ps'" "is_pending ps' aid pid"
    and "\<not> is_pending ps aid pid" "core aid = Some (who, AssetActive)"
  shows "pending_inv core ps' (fmupd aid (get_or [] pas aid @ [pid]) pas)"
proof -
  have "is_pending ps' a q = (if a = aid \<and> q = pid then True else is_pending ps a q)" for a q
    by (rule is_pending_change [OF assms(2)]) (simp add: assms(3))
  then show ?thesis using assms(1,4,5) by (auto simp: pending_inv_def)
qed

section \<open>How a participation is opened, changed and closed\<close>

lemma asset_core_upd: "asset_core (fmupd aid a assets) = (asset_core assets)(aid \<mapsto> (owner a, asset_status a))"
  by (auto simp: asset_core_def fun_eq_iff)

lemma asset_core_same:
  "\<lbrakk>fmlookup assets aid = Some a; owner a' = owner a; asset_status a' = asset_status a\<rbrakk> \<Longrightarrow>
     asset_core (fmupd aid a' assets) = asset_core assets"
  by (auto simp: asset_core_def fun_eq_iff)

lemma asset_core_count [simp]:
  "asset_core (fm_mutate aid (\<lambda>a. a\<lparr>participant_count := f a\<rparr>) assets) = asset_core assets"
  by (auto simp: asset_core_def fun_eq_iff option.map_comp comp_def)

lemma asset_core_Some [simp]:
  "fmlookup assets aid = Some a \<Longrightarrow> asset_core assets aid = Some (owner a, asset_status a)"
  by (simp add: asset_core_def)

lemma rwa_inv_frame [simp]:
  "rwa_inv (s\<lparr>rwa_ledger := l\<rparr>) = rwa_inv s" "rwa_inv (s\<lparr>rwa_now := n\<rparr>) = rwa_inv s" "rwa_inv (emit e s) = rwa_inv s"
  "rwa_inv (s\<lparr>rwa_events := es\<rparr>) = rwa_inv s"
  by (simp_all add: rwa_inv_def emit_def)

lemma rwa_inv_parts:
  assumes "rwa_inv s"
  shows "parts_inv (asset_core (rwa_assets s)) (participations s) (next_participation_id s)"
    "counts_inv (rwa_assets s) (participations s)"
    "index_inv (participations s) (holder_index s) (holder_assets s)"
    "pending_inv (asset_core (rwa_assets s)) (participations s) (pending_approvals s)"
    "owners_inv (asset_core (rwa_assets s)) (owner_assets s)"
    "sunset_inv (asset_core (rwa_assets s)) (sunsetting_assets s)"
    "transfers_inv (asset_core (rwa_assets s)) (pending_ownership_transfer s)"
  using assms by (simp_all add: rwa_inv_def)

lemma participation_facts:
  assumes "rwa_inv s" "fmlookup (participations s) (aid, pid) = Some p"
  shows "\<exists>a. fmlookup (rwa_assets s) aid = Some a" "distinct (holders p)" "participation_status p \<noteq> Exited \<Longrightarrow> holders p \<noteq> []"
    "pid < get_or 0 (next_participation_id s) aid"
  using assms by (auto simp: rwa_inv_def parts_inv_def asset_core_def)

lemma counted_not_exited: "counted p \<Longrightarrow> participation_status p \<noteq> Exited"
  by (auto simp: counted_def is_participating_def)

lemma rwa_inv_close:
  assumes I: "rwa_inv s" and p: "fmlookup (participations s) (aid, pid) = Some p" "counted p"
    and off: "agree_off (aid, pid) (participations s) ps'" and closed: "\<not> open_at ps' aid pid"
    and parts: "parts_inv (asset_core (rwa_assets s)) ps' (next_participation_id s)"
    and pend: "pending_inv (asset_core (rwa_assets s)) ps' pas'"
  shows "rwa_inv (s\<lparr>participations := ps', holder_index := unindex_all aid (holders p) (holder_index s),
    holder_assets := unlist_all_holders aid (holders p) (holder_assets s),
    rwa_assets := fm_mutate aid (\<lambda>a. a\<lparr>participant_count := participant_count a - 1\<rparr>) (rwa_assets s),
    pending_approvals := pas'\<rparr>)"
proof -
  obtain a where a: "fmlookup (rwa_assets s) aid = Some a" using participation_facts(1) [OF I p(1)] by blast
  have "index_inv ps' (unindex_all aid (holders p) (holder_index s))
      (unlist_all_holders aid (holders p) (holder_assets s))"
  proof (rule index_inv_remove [OF rwa_inv_parts(3) [OF I] off])
    show "active_holders ps' aid pid = active_holders (participations s) aid pid - set (holders p)"
      using closed p by (auto simp: active_holders_def open_at_def split: option.splits)
    show "set (holders p) \<subseteq> active_holders (participations s) aid pid" using p by (simp add: active_holders_def)
  qed (rule participation_facts(2) [OF I p(1)])
  moreover have "counts_inv (fm_mutate aid (\<lambda>a. a\<lparr>participant_count := participant_count a - 1\<rparr>) (rwa_assets s)) ps'"
    unfolding fm_mutate_Some [OF a]
  proof (rule counts_inv_step [OF rwa_inv_parts(2) [OF I] off a])
    have "0 < members (participations s) aid" using members_step [OF off] p closed by simp
    then have "0 < participant_count a" using rwa_inv_parts(2) [OF I] a by (simp add: counts_inv_def)
    then show "participant_count (a\<lparr>participant_count := participant_count a - 1\<rparr>) + of_bool (open_at (participations s) aid pid) =
      participant_count a + of_bool (open_at ps' aid pid)" using p closed by simp
  qed
  ultimately show ?thesis using I parts pend by (simp add: rwa_inv_def)
qed

lemma end_participation_eq:
  "end_participation aid pid p st s =
    s\<lparr>participations := fmupd (aid, pid) (p\<lparr>participation_status := st, deposit_held := 0\<rparr>) (participations s),
      holder_index := unindex_all aid (holders p) (holder_index s),
      holder_assets := unlist_all_holders aid (holders p) (holder_assets s),
      rwa_assets := fm_mutate aid (\<lambda>a. a\<lparr>participant_count := participant_count a - 1\<rparr>) (rwa_assets s),
      pending_approvals := pending_approvals s\<rparr>"
  by (simp add: end_participation_def dec_participant_count_def remove_all_eq put_participation_def)

definition final_status :: "participation_status \<Rightarrow> bool" where
  "final_status st = (st \<in> {Expired, Exited, Slashed, Revoked})"

lemma final_not_counted [simp]: "final_status (participation_status p) \<Longrightarrow> \<not> counted p"
  by (auto simp: final_status_def counted_def is_participating_def)

lemma final_statuses [simp]: "final_status Expired" "final_status Exited" "final_status Slashed" "final_status Revoked"
  by (simp_all add: final_status_def)

lemma end_inv:
  assumes I: "rwa_inv s" and p: "fmlookup (participations s) (aid, pid) = Some p" "counted p" and st: "final_status st"
    and pend: "participation_status p = PendingApproval \<longrightarrow> (\<exists>a. fmlookup (rwa_assets s) aid = Some a \<and> asset_status a = Retired)"
  shows "rwa_inv (end_participation aid pid p st s)"
  unfolding end_participation_eq
proof (rule rwa_inv_close [OF I p])
  let ?p' = "p\<lparr>participation_status := st, deposit_held := 0\<rparr>"
  have np: "\<not> counted ?p'" "st \<noteq> PendingApproval" using st by (auto simp: final_status_def)
  then show "\<not> open_at (fmupd (aid, pid) ?p' (participations s)) aid pid" by simp
  show "parts_inv (asset_core (rwa_assets s)) (fmupd (aid, pid) ?p' (participations s)) (next_participation_id s)"
    using parts_inv_upd [OF rwa_inv_parts(1) [OF I] p(1)] participation_facts(2,3) [OF I p(1)] counted_not_exited [OF p(2)] by simp
  show "pending_inv (asset_core (rwa_assets s)) (fmupd (aid, pid) ?p' (participations s)) (pending_approvals s)"
  proof (cases "participation_status p = PendingApproval")
    case True
    with pend show ?thesis using pending_inv_retired [OF rwa_inv_parts(4) [OF I]] by force
  next
    case False
    then show ?thesis using np p by (intro pending_inv_keep [OF rwa_inv_parts(4) [OF I] agree_off_upd]) simp
  qed
qed simp

lemma rwa_inv_open:
  assumes I: "rwa_inv s" and a: "fmlookup (rwa_assets s) aid = Some a"
    and old: "\<not> open_at (participations s) aid pid" and new: "counted p" "distinct (holders p)"
    and free: "\<And>h. h \<in> set (holders p) \<Longrightarrow> \<not> contains_key (holder_index s) (aid, h) \<and> length (get_or [] (holder_assets s) h) < mx"
    and fits: "members (participations s) aid < u32_max"
    and parts: "parts_inv (asset_core (rwa_assets s)) (fmupd (aid, pid) p (participations s)) next_ids"
    and pend: "pending_inv (asset_core (rwa_assets s)) (fmupd (aid, pid) p (participations s)) pas'"
  shows "rwa_inv (s\<lparr>participations := fmupd (aid, pid) p (participations s), next_participation_id := next_ids,
    holder_index := index_all aid pid (holders p) (holder_index s),
    holder_assets := list_all_holders mx aid (holders p) (holder_assets s),
    rwa_assets := fm_mutate aid (\<lambda>a. a\<lparr>participant_count := add32 (participant_count a) 1\<rparr>) (rwa_assets s),
    pending_approvals := pas'\<rparr>)"
proof -
  have "index_inv (fmupd (aid, pid) p (participations s)) (index_all aid pid (holders p) (holder_index s))
      (list_all_holders mx aid (holders p) (holder_assets s))"
  proof (rule index_inv_add [OF rwa_inv_parts(3) [OF I] agree_off_upd _ new(2) free])
    show "active_holders (fmupd (aid, pid) p (participations s)) aid pid =
        active_holders (participations s) aid pid \<union> set (holders p)"
      using old new by (auto simp: active_holders_def open_at_def split: option.splits)
  qed
  moreover have "counts_inv (fm_mutate aid (\<lambda>a. a\<lparr>participant_count := add32 (participant_count a) 1\<rparr>) (rwa_assets s))
      (fmupd (aid, pid) p (participations s))"
    unfolding fm_mutate_Some [OF a]
    using rwa_inv_parts(2) [OF I] a fits old new
    by (intro counts_inv_step [OF rwa_inv_parts(2) [OF I] agree_off_upd a]) (simp add: counts_inv_def)
  ultimately show ?thesis using I parts pend by (simp add: rwa_inv_def)
qed

lemma rwa_inv_update:
  assumes I: "rwa_inv s" and p: "fmlookup (participations s) (aid, pid) = Some p"
    and new: "counted p" "counted p'" "holders p' = holders p"
    and pend: "pending_inv (asset_core (rwa_assets s)) (fmupd (aid, pid) p' (participations s)) pas'"
  shows "rwa_inv (s\<lparr>participations := fmupd (aid, pid) p' (participations s), pending_approvals := pas'\<rparr>)"
proof -
  have "index_inv (fmupd (aid, pid) p' (participations s)) (holder_index s) (holder_assets s)"
    using p new by (intro index_inv_keep [OF rwa_inv_parts(3) [OF I] agree_off_upd]) (simp add: active_holders_def)
  moreover have "counts_inv (rwa_assets s) (fmupd (aid, pid) p' (participations s))"
    using p new by (intro counts_inv_keep [OF rwa_inv_parts(2) [OF I] agree_off_upd]) simp
  moreover have "parts_inv (asset_core (rwa_assets s)) (fmupd (aid, pid) p' (participations s)) (next_participation_id s)"
    using parts_inv_upd [OF rwa_inv_parts(1) [OF I] p] participation_facts(2,3) [OF I p] new counted_not_exited by auto
  ultimately show ?thesis using I pend by (simp add: rwa_inv_def)
qed

lemma put_participation_inv:
  assumes I: "rwa_inv s" and p: "fmlookup (participations s) (aid, pid) = Some p"
    and new: "is_participating (participation_status p)" "is_participating (participation_status p')" "holders p' = holders p"
  shows "rwa_inv (put_participation aid pid p' s)"
proof -
  have c: "counted p" "counted p'" using new by (simp_all add: counted_def)
  have "pending_inv (asset_core (rwa_assets s)) (fmupd (aid, pid) p' (participations s)) (pending_approvals s)"
    using p new by (intro pending_inv_keep [OF rwa_inv_parts(4) [OF I] agree_off_upd])
      (auto simp: is_participating_def)
  from rwa_inv_update [OF I p c new(3) this] show ?thesis by (simp add: put_participation_def)
qed

lemma rwa_inv_holders:
  assumes I: "rwa_inv s" and p: "fmlookup (participations s) (aid, pid) = Some p" "counted p"
    and hs: "distinct hs" "hs \<noteq> []"
    and ind: "index_inv (fmupd (aid, pid) (p\<lparr>holders := hs\<rparr>) (participations s)) hi' has'"
  shows "rwa_inv (s\<lparr>participations := fmupd (aid, pid) (p\<lparr>holders := hs\<rparr>) (participations s),
    holder_index := hi', holder_assets := has'\<rparr>)"
proof -
  have c: "counted (p\<lparr>holders := hs\<rparr>)" using p(2) by (simp add: counted_def)
  have "pending_inv (asset_core (rwa_assets s)) (fmupd (aid, pid) (p\<lparr>holders := hs\<rparr>) (participations s)) (pending_approvals s)"
    using p by (intro pending_inv_keep [OF rwa_inv_parts(4) [OF I] agree_off_upd]) simp
  moreover have "counts_inv (rwa_assets s) (fmupd (aid, pid) (p\<lparr>holders := hs\<rparr>) (participations s))"
    using p c by (intro counts_inv_keep [OF rwa_inv_parts(2) [OF I] agree_off_upd]) simp
  moreover have "parts_inv (asset_core (rwa_assets s)) (fmupd (aid, pid) (p\<lparr>holders := hs\<rparr>) (participations s)) (next_participation_id s)"
    using parts_inv_upd [OF rwa_inv_parts(1) [OF I] p(1)] hs by simp
  ultimately show ?thesis using I ind by (simp add: rwa_inv_def)
qed

end
