(* ===== verification/Rwa_Effects.thy ===== *)
theory Rwa_Effects
  imports Rwa_Inv
begin

text \<open>
  What a successful call of the pallet for real-world assets has done to the state, one lemma per
  dispatchable that touches a participation. The lemmas serve the invariant, the escrow and the
  life cycle alike.
\<close>

section \<open>What a successful call has done\<close>

text \<open>
  A participation is closed and its payer gets an amount back from the escrow. Most of the calls
  that end a participation are instances of this, which serves the invariant here and the escrow
  later.
\<close>

definition pays_back ::
  "'l rwa_config \<Rightarrow> nat \<Rightarrow> nat \<Rightarrow> participation \<Rightarrow> asset_info \<Rightarrow> participation_status \<Rightarrow> balance \<Rightarrow>
     'l rwa_state \<Rightarrow> 'l rwa_state \<Rightarrow> bool" where
  "pays_back T aid pid p a st v s s' =
    (\<exists>s0 e. rwa_do_transfer T (deposit_currency (policy a)) (pallet_account T) (payer p) v s = Inr s0 \<and>
       s' = emit e (end_participation aid pid p st s0))"

lemma is_participating_simps [simp]:
  "is_participating (Participating b e)" "\<not> is_participating PendingApproval" "\<not> is_participating Expired"
  by (simp_all add: is_participating_def)

text \<open>A participation is due when its term is over and it has not been settled.\<close>

definition due :: "participation \<Rightarrow> block_number \<Rightarrow> bool" where
  "due p now = (case participation_status p of Participating _ (Some n) \<Rightarrow> n \<le> now | _ \<Rightarrow> False)"

lemma due_participating: "due p now \<Longrightarrow> is_participating (participation_status p)"
  by (auto simp: due_def is_participating_def split: participation_status.splits option.splits)

lemma settle_inner_False:
  "try_settle_expiry_inner T aid pid p a s = Inr (False, p', s1) \<Longrightarrow> p' = p \<and> s1 = s"
  by (auto simp: try_settle_expiry_inner_def dispatch_simps split: participation_status.splits option.splits if_splits)

lemma settle_cases:
  assumes "try_settle_expiry T aid pid p a s = Inr (settled, p', s1)"
  shows "(\<not> settled \<and> \<not> due p (rwa_now s) \<and> p' = p \<and> s1 = s) \<or>
    (settled \<and> due p (rwa_now s) \<and> is_participating (participation_status p) \<and> p' = p\<lparr>participation_status := Expired, deposit_held := 0\<rparr> \<and>
     pays_back T aid pid p a Expired (deposit_held p) s s1)"
proof -
  obtain s2 where inner: "try_settle_expiry_inner T aid pid p a s = Inr (settled, p', s2)"
    and s1: "s1 = (if settled then put_participation aid pid p' s2 else s2)"
    using assms by (auto simp: try_settle_expiry_def dispatch_simps case_prod_Inr)
  show ?thesis
  proof (cases settled)
    case False
    with inner have "\<not> due p (rwa_now s)"
      by (auto simp: try_settle_expiry_inner_def dispatch_simps due_def split: participation_status.splits option.splits if_splits)
    then show ?thesis using settle_inner_False inner s1 False by simp
  next
    case True
    with inner obtain b n s0 where st: "participation_status p = Participating b (Some n)" "n \<le> rwa_now s"
      and pay: "rwa_do_transfer T (deposit_currency (policy a)) (pallet_account T) (payer p) (deposit_held p) s = Inr s0"
      and p': "p' = p\<lparr>participation_status := Expired, deposit_held := 0\<rparr>"
      and s2: "s2 = emit (ParticipationExpired aid pid (deposit_held p))
        (dec_participant_count aid (remove_all_holder_indexes aid (holders p) s0))"
      by (auto simp: try_settle_expiry_inner_def dispatch_simps
          split: participation_status.splits option.splits if_splits)
    have "s1 = emit (ParticipationExpired aid pid (deposit_held p)) (end_participation aid pid p Expired s0)"
      using True s1 s2 p' by (simp add: end_participation_def emit_def dec_participant_count_def
          remove_all_eq put_participation_def)
    then show ?thesis using True st pay p' by (auto simp: pays_back_def is_participating_def due_def)
  qed
qed

lemma settle_False: "try_settle_expiry T aid pid p a s = Inr (False, p', s1) \<Longrightarrow> p' = p \<and> s1 = s"
  and settle_True: "try_settle_expiry T aid pid p a s = Inr (True, p', s1) \<Longrightarrow>
    is_participating (participation_status p) \<and> pays_back T aid pid p a Expired (deposit_held p) s s1"
  using settle_cases by blast+

lemma exit_participation_Inr:
  assumes "exit_participation T org aid pid s = Inr s'"
  shows "\<exists>p a st. fmlookup (participations s) (aid, pid) = Some p \<and> fmlookup (rwa_assets s) aid = Some a \<and>
    is_participating (participation_status p) \<and> st \<in> {Expired, Exited} \<and> pays_back T aid pid p a st (deposit_held p) s s'"
proof -
  obtain p0 a settled p s1 where 1: "fmlookup (participations s) (aid, pid) = Some p0" "fmlookup (rwa_assets s) aid = Some a"
    "try_settle_expiry T aid pid p0 a s = Inr (settled, p, s1)"
    and 2: "(if settled then Inr s1
      else ensure (is_participating (participation_status p)) (rwa_err InvalidParticipationStatus) (
        try_bind (rwa_do_transfer T (deposit_currency (policy a)) (pallet_account T) (payer p) (deposit_held p) s1) (\<lambda>s2.
        Inr (emit (ParticipationExited aid pid (deposit_held p)) (end_participation aid pid p Exited s2))))) = Inr s'"
    using assms by (auto simp: exit_participation_def dispatch_simps case_prod_Inr)
  from settle_cases [OF 1(3)] 1(1,2) 2 show ?thesis
    by (auto simp: dispatch_simps pays_back_def split: if_splits)
qed

lemma settle_expired_participation_Inr:
  assumes "settle_expired_participation T org aid pid s = Inr s'"
  shows "\<exists>p a. fmlookup (participations s) (aid, pid) = Some p \<and> fmlookup (rwa_assets s) aid = Some a \<and>
    is_participating (participation_status p) \<and> pays_back T aid pid p a Expired (deposit_held p) s s'"
  using assms by (auto simp: settle_expired_participation_def dispatch_simps case_prod_Inr dest!: settle_True)

lemma claim_retired_deposit_Inr:
  assumes "claim_retired_deposit T org aid pid s = Inr s'"
  shows "\<exists>p a. fmlookup (participations s) (aid, pid) = Some p \<and> fmlookup (rwa_assets s) aid = Some a \<and>
    asset_status a = Retired \<and> counted p \<and>
    pays_back T aid pid p a Exited
      (add128 (deposit_held p) (if participation_status p = PendingApproval then entry_fee_paid p else 0)) s s'"
  using assms unfolding claim_retired_deposit_def dispatch_simps pays_back_def counted_def Let_def by blast

lemma revoke_participation_Inr:
  assumes "revoke_participation T org aid pid s = Inr s'"
  shows "\<exists>p a. fmlookup (participations s) (aid, pid) = Some p \<and> fmlookup (rwa_assets s) aid = Some a \<and>
    is_participating (participation_status p) \<and> pays_back T aid pid p a Revoked (deposit_held p) s s'"
  using assms
  by (fastforce simp: revoke_participation_def dispatch_simps case_prod_Inr pays_back_def dest!: settle_False)

lemma slash_participation_Inr:
  assumes "slash_participation T H org aid pid amount reporter s = Inr s'"
  shows "\<exists>p a s2 s3 e. fmlookup (participations s) (aid, pid) = Some p \<and> fmlookup (rwa_assets s) aid = Some a \<and>
    is_participating (participation_status p) \<and> amount \<le> deposit_held p \<and>
    can_slash_participation H aid pid = Inr () \<and>
    do_distribute_slash T (deposit_currency (policy a)) amount aid (beneficiary a) reporter s = Inr s2 \<and>
    rwa_do_transfer T (deposit_currency (policy a)) (pallet_account T) (payer p) (deposit_held p - amount) s2 = Inr s3 \<and>
    s' = emit e (end_participation aid pid p Slashed s3)"
proof -
  obtain p0 a p s1 s2 s3 where 1: "fmlookup (participations s) (aid, pid) = Some p0" "fmlookup (rwa_assets s) aid = Some a"
    "try_settle_expiry T aid pid p0 a s = Inr (False, p, s1)"
    and 2: "is_participating (participation_status p)" "amount \<le> deposit_held p" "can_slash_participation H aid pid = Inr ()"
    "do_distribute_slash T (deposit_currency (policy a)) amount aid (beneficiary a) reporter s1 = Inr s2"
    "(if amount < deposit_held p
       then rwa_do_transfer T (deposit_currency (policy a)) (pallet_account T) (payer p) (deposit_held p - amount) s2
       else Inr s2) = Inr s3"
    "s' = emit (ParticipationSlashed aid pid amount reporter) (end_participation aid pid p Slashed s3)"
    using assms by (auto simp: slash_participation_def dispatch_simps case_prod_Inr Let_def)
  have "rwa_do_transfer T (deposit_currency (policy a)) (pallet_account T) (payer p) (deposit_held p - amount) s2 = Inr s3"
    using 2(5) by (simp add: rwa_do_transfer_def split: if_splits)
  with 1 2 settle_cases [OF 1(3)] show ?thesis by auto
qed

text \<open>A transfer as a change of the ledger.\<close>

definition rwa_pay ::
  "'l rwa_config \<Rightarrow> payment_currency \<Rightarrow> account_id \<Rightarrow> account_id \<Rightarrow> balance \<Rightarrow> 'l \<Rightarrow> 'l dispatch_result" where
  "rwa_pay T cur from to v l =
    (if v = 0 then Inr l
     else (case cur of
         Native \<Rightarrow> native_transfer (rwa_currency T) from to v KeepAlive l
       | Asset i \<Rightarrow> fungibles_transfer (rwa_currency T) i from to v Preserve l))"

lemma rwa_do_transfer_pay:
  "rwa_do_transfer T cur from to v s = Inr s' \<longleftrightarrow> (\<exists>l. rwa_pay T cur from to v (rwa_ledger s) = Inr l \<and> s' = s\<lparr>rwa_ledger := l\<rparr>)"
  by (auto simp: rwa_do_transfer_def rwa_pay_def dispatch_simps)

lemma skip_zero_transfer:
  "(if v \<noteq> 0 then rwa_do_transfer T cur from to v s else Inr s) = rwa_do_transfer T cur from to v s"
  by (simp add: rwa_do_transfer_def)

text \<open>A participation is opened, or removed without a trace.\<close>

definition open_participation ::
  "'l rwa_config \<Rightarrow> nat \<Rightarrow> nat \<Rightarrow> participation \<Rightarrow> 'l rwa_state \<Rightarrow> 'l rwa_state" where
  "open_participation T aid pid p s =
    inc_participant_count aid (fold (add_holder_index T aid pid) (holders p) (put_participation aid pid p s))"

definition reject_one :: "nat \<Rightarrow> nat \<Rightarrow> participation \<Rightarrow> 'l rwa_state \<Rightarrow> 'l rwa_state" where
  "reject_one aid pid p s = dec_participant_count aid (remove_all_holder_indexes aid (holders p)
     (s\<lparr>participations := fmdrop (aid, pid) (participations s)\<rparr>))"

lemmas participation_effects =
  open_participation_def reject_one_def inc_participant_count_def dec_participant_count_def remove_all_eq add_all_eq
  put_participation_def remove_pending_def emit_def

lemma check_holders_Inr:
  "check_holders T aid s hs = Inr () \<longleftrightarrow> (\<forall>h\<in>set hs. \<not> contains_key (holder_index s) (aid, h) \<and>
     length (get_or [] (holder_assets s) h) < max_participations_per_holder T)"
  by (induction hs) (auto simp: dispatch_simps)

lemma rejoin_checks_Inr:
  "check_not_indexed aid s hs = Inr () \<longleftrightarrow> (\<forall>h\<in>set hs. \<not> contains_key (holder_index s) (aid, h))"
  "check_capacity T s hs = Inr () \<longleftrightarrow> (\<forall>h\<in>set hs. length (get_or [] (holder_assets s) h) < max_participations_per_holder T)"
  by (induction hs) (auto simp: dispatch_simps)

lemma check_filter_Inr: "check_filter H aid hs = Inr () \<longleftrightarrow> (\<forall>h\<in>set hs. ensure_eligible H aid h = Inr ())"
  by (induction hs) (auto simp: dispatch_simps)

lemma ensure_asset_owner_or_admin_Inr:
  "ensure_asset_owner_or_admin T org aid s k = Inr r \<Longrightarrow> k = Inr r"
  by (auto simp: ensure_asset_owner_or_admin_def dispatch_simps split: if_splits)

lemma reject_one_order:
  "dec_participant_count aid ((remove_all_holder_indexes aid (holders p) s)
     \<lparr>participations := fmdrop (aid, pid) (participations (remove_all_holder_indexes aid (holders p) s))\<rparr>) = reject_one aid pid p s"
  by (simp add: participation_effects)

lemma reject_participation_Inr:
  assumes "reject_participation T org aid pid s = Inr s'"
  shows "\<exists>p a s0 e. fmlookup (participations s) (aid, pid) = Some p \<and> fmlookup (rwa_assets s) aid = Some a \<and>
    participation_status p = PendingApproval \<and>
    rwa_do_transfer T (deposit_currency (policy a)) (pallet_account T) (payer p) (add128 (deposit_held p) (entry_fee_paid p)) s = Inr s0 \<and>
    s' = emit e (remove_pending aid pid (reject_one aid pid p s0))"
  using ensure_asset_owner_or_admin_Inr [OF assms [unfolded reject_participation_def]]
  unfolding dispatch_simps Let_def reject_one_order by blast

lemma approve_participation_Inr:
  assumes "approve_participation T org aid pid s = Inr s'"
  shows "\<exists>p a s0 st e. fmlookup (participations s) (aid, pid) = Some p \<and> fmlookup (rwa_assets s) aid = Some a \<and>
    asset_status a = AssetActive \<and> participation_status p = PendingApproval \<and> is_participating st \<and>
    rwa_do_transfer T (deposit_currency (policy a)) (pallet_account T) (beneficiary a) (entry_fee_paid p) s = Inr s0 \<and>
    s' = emit e (remove_pending aid pid (put_participation aid pid (p\<lparr>participation_status := st\<rparr>) s0))"
  using ensure_asset_owner_or_admin_Inr [OF assms [unfolded approve_participation_def skip_zero_transfer]]
  unfolding dispatch_simps Let_def using is_participating_simps(1) by blast

lemma transfer_participation_Inr:
  assumes "transfer_participation T org aid pid new_payer s = Inr s'"
  shows "\<exists>p a e. fmlookup (participations s) (aid, pid) = Some p \<and> fmlookup (rwa_assets s) aid = Some a \<and>
    is_participating (participation_status p) \<and> s' = put_participation aid pid (p\<lparr>payer := new_payer\<rparr>) (emit e s)"
  using assms by (fastforce simp: transfer_participation_def dispatch_simps case_prod_Inr dest!: settle_inner_False)

lemma add_holder_Inr:
  assumes "add_holder T H org aid pid h s = Inr s'"
  shows "\<exists>p e. fmlookup (participations s) (aid, pid) = Some p \<and> is_participating (participation_status p) \<and>
    h \<notin> set (holders p) \<and> \<not> contains_key (holder_index s) (aid, h) \<and>
    length (get_or [] (holder_assets s) h) < max_participations_per_holder T \<and>
    length (holders p) < max_group_size T \<and> ensure_eligible H aid h = Inr () \<and>
    s' = put_participation aid pid (p\<lparr>holders := holders p @ [h]\<rparr>) (emit e (add_holder_index T aid pid h s))"
  using assms by (fastforce simp: add_holder_def dispatch_simps case_prod_Inr dest!: settle_inner_False)

lemma remove_holder_Inr:
  assumes "remove_holder T org aid pid h s = Inr s'"
  shows "\<exists>p a e. fmlookup (participations s) (aid, pid) = Some p \<and> fmlookup (rwa_assets s) aid = Some a \<and>
    is_participating (participation_status p) \<and> h \<in> set (holders p) \<and> drop_holder T aid pid p a h e s = Inr s'"
  using assms by (fastforce simp: remove_holder_def dispatch_simps case_prod_Inr dest!: settle_False)

lemma leave_participation_Inr:
  assumes "leave_participation T org aid pid s = Inr s'"
  shows "\<exists>p a h e. fmlookup (participations s) (aid, pid) = Some p \<and> fmlookup (rwa_assets s) aid = Some a \<and>
    is_participating (participation_status p) \<and> h \<in> set (holders p) \<and> drop_holder T aid pid p a h e s = Inr s'"
  using assms by (fastforce simp: leave_participation_def dispatch_simps case_prod_Inr dest!: settle_False)

end
