(* ===== verification/Rwa_Preserve.thy ===== *)
theory Rwa_Preserve
  imports Rwa_Effects
begin

text \<open>
  Every dispatchable of the pallet for real-world assets and its block hook preserve the invariant.
\<close>

section \<open>Requests and renewals\<close>

lemma collect_cases:
  "collect T a who s = Inr s1 \<longleftrightarrow>
    (if requires_approval (policy a)
     then rwa_do_transfer T (deposit_currency (policy a)) who (pallet_account T) (add128 (deposit (policy a)) (entry_fee (policy a))) s = Inr s1
     else \<exists>s0. rwa_do_transfer T (deposit_currency (policy a)) who (pallet_account T) (deposit (policy a)) s = Inr s0 \<and>
       rwa_do_transfer T (deposit_currency (policy a)) who (beneficiary a) (entry_fee (policy a)) s0 = Inr s1)"
  unfolding collect_def Let_def skip_zero_transfer by (simp add: try_bind_Inr)

lemma collect_frame: "collect T a who s = Inr s1 \<Longrightarrow> \<exists>l. s1 = s\<lparr>rwa_ledger := l\<rparr>"
  unfolding collect_cases by (auto dest!: rwa_do_transfer_frame split: if_splits)

definition requested :: "nat \<Rightarrow> asset_info \<Rightarrow> account_id \<Rightarrow> account_id list \<Rightarrow> block_number \<Rightarrow> participation" where
  "requested aid a who hs now =
    \<lparr>for_asset = aid, payer = who, holders = hs,
     participation_status = (if requires_approval (policy a) then PendingApproval
       else Participating now (map_option (add32 now) (max_duration (policy a)))),
     deposit_held = deposit (policy a), entry_fee_paid = entry_fee (policy a)\<rparr>"

lemma requested_simps [simp]:
  "payer (requested aid a who hs now) = who" "holders (requested aid a who hs now) = hs"
  "counted (requested aid a who hs now)" "deposit_held (requested aid a who hs now) = deposit (policy a)"
  "entry_fee_paid (requested aid a who hs now) = entry_fee (policy a)"
  "participation_status (requested aid a who hs now) = PendingApproval \<longleftrightarrow> requires_approval (policy a)"
  by (simp_all add: requested_def counted_def)

lemma enroll_Inr:
  assumes "enroll T aid a who hs s = Inr s'"
    and "requires_approval (policy a) \<longrightarrow> length (get_or [] (pending_approvals s) aid) < max_pending_approvals T"
  shows "get_or 0 (next_participation_id s) aid + 1 \<le> u32_max \<and>
    s' = (open_participation T aid (get_or 0 (next_participation_id s) aid) (requested aid a who hs (rwa_now s))
      (s\<lparr>next_participation_id := fmupd aid (get_or 0 (next_participation_id s) aid + 1) (next_participation_id s),
         pending_approvals := (if requires_approval (policy a)
           then fmupd aid (get_or [] (pending_approvals s) aid @ [get_or 0 (next_participation_id s) aid]) (pending_approvals s)
           else pending_approvals s)\<rparr>))\<lparr>rwa_events := rwa_events s'\<rparr>"
  using assms
  by (cases "requires_approval (policy a)")
    (auto simp: enroll_def requested_def participation_effects try_push_def Let_def dispatch_simps)

lemma request_participation_Inr:
  assumes "request_participation T H org aid hs s = Inr s'"
  shows "\<exists>who a s1. org = Signed who \<and> fmlookup (rwa_assets s) aid = Some a \<and> asset_status a = AssetActive \<and>
    hs \<noteq> [] \<and> distinct hs \<and> check_holders T aid s hs = Inr () \<and> collect T a who s = Inr s1 \<and>
    (requires_approval (policy a) \<longrightarrow> length (get_or [] (pending_approvals s) aid) < max_pending_approvals T) \<and>
    enroll T aid a who hs s1 = Inr s'"
  using assms unfolding request_participation_def dispatch_simps by (metis (full_types) old.unit.exhaust)

text \<open>
  A renewal of an active participation only pays the fee; an expired one, or one that the call has
  just settled, is opened again.
\<close>

definition rejoins ::
  "'l rwa_config \<Rightarrow> nat \<Rightarrow> nat \<Rightarrow> asset_info \<Rightarrow> account_id \<Rightarrow> 'l rwa_state \<Rightarrow> 'l rwa_state \<Rightarrow> bool" where
  "rejoins T aid pid a who s s' =
    (\<exists>p st l1 l2 e. fmlookup (participations s) (aid, pid) = Some p \<and> participation_status p = Expired \<and> is_participating st \<and>
       check_holders T aid s (holders p) = Inr () \<and>
       rwa_pay T (deposit_currency (policy a)) who (pallet_account T) (deposit (policy a)) (rwa_ledger s) = Inr l1 \<and>
       rwa_pay T (deposit_currency (policy a)) who (beneficiary a) (entry_fee (policy a)) l1 = Inr l2 \<and>
       s' = emit e (open_participation T aid pid (p\<lparr>deposit_held := deposit (policy a), participation_status := st\<rparr>)
              (s\<lparr>rwa_ledger := l2\<rparr>)))"

definition renews ::
  "'l rwa_config \<Rightarrow> nat \<Rightarrow> nat \<Rightarrow> asset_info \<Rightarrow> account_id \<Rightarrow> 'l rwa_state \<Rightarrow> 'l rwa_state \<Rightarrow> bool" where
  "renews T aid pid a who s s' =
    (\<exists>p st l e. fmlookup (participations s) (aid, pid) = Some p \<and> is_participating (participation_status p) \<and> is_participating st \<and>
       rwa_pay T (deposit_currency (policy a)) who (beneficiary a) (entry_fee (policy a)) (rwa_ledger s) = Inr l \<and>
       s' = put_participation aid pid (p\<lparr>participation_status := st\<rparr>) (emit e (s\<lparr>rwa_ledger := l\<rparr>)))"

lemma rejoin_Inr:
  assumes "rejoin T aid pid p a who s = Inr (p1, s2)"
  shows "\<exists>l. rwa_pay T (deposit_currency (policy a)) who (pallet_account T) (deposit (policy a)) (rwa_ledger s) = Inr l \<and>
    check_holders T aid s (holders p) = Inr () \<and> p1 = p\<lparr>deposit_held := deposit (policy a)\<rparr> \<and>
    s2 = inc_participant_count aid (fold (add_holder_index T aid pid) (holders p) (s\<lparr>rwa_ledger := l\<rparr>))"
  using assms
  by (auto simp: rejoin_def dispatch_simps rwa_do_transfer_pay rejoin_checks_Inr check_holders_Inr)

lemma renew_tail_Inr:
  assumes p: "fmlookup (participations s) (aid, pid) = Some p"
    and run: "(case participation_status p of
         Participating _ _ \<Rightarrow> Inr (p, s)
       | Expired \<Rightarrow> rejoin T aid pid p a who s
       | _ \<Rightarrow> Inl err) = Inr (p1, s2)"
    and fee: "rwa_do_transfer T (deposit_currency (policy a)) who (beneficiary a) (entry_fee (policy a)) s2 = Inr s3"
    and s': "s' = put_participation aid pid (p1\<lparr>participation_status := Participating now exp\<rparr>) (emit e s3)"
  shows "renews T aid pid a who s s' \<or> rejoins T aid pid a who s s'"
proof (cases "participation_status p = Expired")
  case True
  with run have "rejoin T aid pid p a who s = Inr (p1, s2)" by simp
  from rejoin_Inr [OF this] obtain l where
    l: "rwa_pay T (deposit_currency (policy a)) who (pallet_account T) (deposit (policy a)) (rwa_ledger s) = Inr l"
    and "check_holders T aid s (holders p) = Inr ()" and p1: "p1 = p\<lparr>deposit_held := deposit (policy a)\<rparr>"
    and s2: "s2 = inc_participant_count aid (fold (add_holder_index T aid pid) (holders p) (s\<lparr>rwa_ledger := l\<rparr>))"
    by blast
  moreover from fee obtain l2 where "rwa_pay T (deposit_currency (policy a)) who (beneficiary a) (entry_fee (policy a)) l = Inr l2"
    and s3: "s3 = s2\<lparr>rwa_ledger := l2\<rparr>"
    by (auto simp: rwa_do_transfer_pay s2 participation_effects)
  moreover have "s' = emit e (open_participation T aid pid
      (p\<lparr>deposit_held := deposit (policy a), participation_status := Participating now exp\<rparr>) (s\<lparr>rwa_ledger := l2\<rparr>))"
    unfolding s' s3 s2 p1 by (simp add: participation_effects)
  ultimately have "rejoins T aid pid a who s s'"
    unfolding rejoins_def using p True is_participating_simps(1) by blast
  then show ?thesis ..
next
  case False
  with run have "is_participating (participation_status p)" "p1 = p" "s2 = s"
    by (auto simp: is_participating_def split: participation_status.splits)
  moreover from fee obtain l where "rwa_pay T (deposit_currency (policy a)) who (beneficiary a) (entry_fee (policy a)) (rwa_ledger s2) = Inr l"
    "s3 = s2\<lparr>rwa_ledger := l\<rparr>" by (auto simp: rwa_do_transfer_pay)
  ultimately have "renews T aid pid a who s s'" unfolding renews_def s' using p is_participating_simps(1) by blast
  then show ?thesis ..
qed

lemma renew_participation_Inr:
  assumes "renew_participation T H org aid pid s = Inr s'"
  shows "\<exists>who a s1 p. org = Signed who \<and> fmlookup (rwa_assets s) aid = Some a \<and> asset_status a = AssetActive \<and>
    fmlookup (participations s) (aid, pid) = Some p \<and> payer p = who \<and>
    (s1 = s \<or> due p (rwa_now s) \<and> is_participating (participation_status p) \<and> pays_back T aid pid p a Expired (deposit_held p) s s1) \<and>
    (renews T aid pid a who s1 s' \<or> rejoins T aid pid a who s1 s')"
proof -
  obtain who a p0 b p' s1 p p1 s2 s3 where 1: "org = Signed who" "fmlookup (rwa_assets s) aid = Some a" "asset_status a = AssetActive"
    "fmlookup (participations s) (aid, pid) = Some p0" "payer p0 = who"
    "try_settle_expiry T aid pid p0 a s = Inr (b, p', s1)" "fmlookup (participations s1) (aid, pid) = Some p"
    "(case participation_status p of
         Participating _ _ \<Rightarrow> Inr (p, s1)
       | Expired \<Rightarrow> rejoin T aid pid p a who s1
       | _ \<Rightarrow> Inl (rwa_err InvalidParticipationStatus)) = Inr (p1, s2)"
    "rwa_do_transfer T (deposit_currency (policy a)) who (beneficiary a) (entry_fee (policy a)) s2 = Inr s3"
    "s' = put_participation aid pid (p1\<lparr>participation_status := Participating (rwa_now s)
        (map_option (add32 (rwa_now s)) (max_duration (policy a)))\<rparr>)
      (emit (ParticipationRenewed aid pid (map_option (add32 (rwa_now s)) (max_duration (policy a)))) s3)"
    using assms unfolding renew_participation_def skip_zero_transfer dispatch_simps case_prod_Inr Let_def sum.inject by blast
  show ?thesis using 1(1-5) settle_cases [OF 1(6)] renew_tail_Inr [OF 1(7-10)] by blast
qed

section \<open>Calls on participations\<close>

lemma pays_back_inv:
  assumes pay: "pays_back T aid pid p a st v s s'"
    and p: "rwa_inv s" "fmlookup (participations s) (aid, pid) = Some p" "counted p" "final_status st"
      "participation_status p = PendingApproval \<longrightarrow> (\<exists>a. fmlookup (rwa_assets s) aid = Some a \<and> asset_status a = Retired)"
  shows "rwa_inv s'"
proof -
  obtain s0 e where s0: "rwa_do_transfer T (deposit_currency (policy a)) (pallet_account T) (payer p) v s = Inr s0"
    and s': "s' = emit e (end_participation aid pid p st s0)" using pay by (auto simp: pays_back_def)
  obtain l where "s0 = s\<lparr>rwa_ledger := l\<rparr>" using rwa_do_transfer_frame [OF s0] by blast
  then show ?thesis using end_inv [of s0 aid pid p st] p by (simp add: s')
qed

lemma participating_counted [simp]: "is_participating (participation_status p) \<Longrightarrow> counted p"
  and participating_not_pending: "is_participating (participation_status p) \<Longrightarrow> participation_status p \<noteq> PendingApproval"
  by (auto simp: counted_def is_participating_def)

lemma pays_back_active:
  "\<lbrakk>pays_back T aid pid p a st v s s'; rwa_inv s; fmlookup (participations s) (aid, pid) = Some p;
    is_participating (participation_status p); final_status st\<rbrakk> \<Longrightarrow> rwa_inv s'"
  using pays_back_inv participating_counted participating_not_pending by blast

lemma exit_participation_inv: "\<lbrakk>rwa_inv s; exit_participation T org aid pid s = Inr s'\<rbrakk> \<Longrightarrow> rwa_inv s'"
  using exit_participation_Inr [of T org aid pid s s']
  by (auto elim!: pays_back_active)

lemma settle_expired_participation_inv:
  "\<lbrakk>rwa_inv s; settle_expired_participation T org aid pid s = Inr s'\<rbrakk> \<Longrightarrow> rwa_inv s'"
  using settle_expired_participation_Inr [of T org aid pid s s']
  by (auto elim!: pays_back_active)

lemma revoke_participation_inv: "\<lbrakk>rwa_inv s; revoke_participation T org aid pid s = Inr s'\<rbrakk> \<Longrightarrow> rwa_inv s'"
  using revoke_participation_Inr [of T org aid pid s s']
  by (auto elim!: pays_back_active)

lemma claim_retired_deposit_inv: "\<lbrakk>rwa_inv s; claim_retired_deposit T org aid pid s = Inr s'\<rbrakk> \<Longrightarrow> rwa_inv s'"
  using claim_retired_deposit_Inr [of T org aid pid s s'] by (auto elim!: pays_back_inv)

lemma pay_slash_frame: "pay_slash T cur b r k v s = Inr s' \<Longrightarrow> \<exists>l. s' = s\<lparr>rwa_ledger := l\<rparr>"
  by (auto simp: pay_slash_def split: slash_recipient_kind.splits dest: rwa_do_transfer_frame rwa_do_burn_frame)

lemma distribute_shares_frame:
  "distribute_shares T cur tot b r d rs s = Inr s' \<Longrightarrow> \<exists>l. s' = s\<lparr>rwa_ledger := l\<rparr>"
proof (induction rs arbitrary: d s)
  case Nil
  then show ?case by (auto intro: exI [of _ "rwa_ledger s"])
next
  case (Cons x rs)
  then show ?case by (fastforce simp: Let_def dispatch_simps split: if_splits dest: pay_slash_frame)
qed

lemma do_distribute_slash_frame: "do_distribute_slash T cur tot aid b r s = Inr s' \<Longrightarrow> \<exists>l. s' = s\<lparr>rwa_ledger := l\<rparr>"
  by (auto simp: do_distribute_slash_def split: option.splits list.splits
      dest: distribute_shares_frame rwa_do_transfer_frame simp del: distribute_shares.simps)

lemma slash_participation_inv: "\<lbrakk>rwa_inv s; slash_participation T H org aid pid v r s = Inr s'\<rbrakk> \<Longrightarrow> rwa_inv s'"
proof -
  assume I: "rwa_inv s" and "slash_participation T H org aid pid v r s = Inr s'"
  from slash_participation_Inr [OF this(2)] obtain p and a :: asset_info and s2 s3 e where
    p: "fmlookup (participations s) (aid, pid) = Some p" "is_participating (participation_status p)"
    and s2: "do_distribute_slash T (deposit_currency (policy a)) v aid (beneficiary a) r s = Inr s2"
    and s3: "rwa_do_transfer T (deposit_currency (policy a)) (pallet_account T) (payer p) (deposit_held p - v) s2 = Inr s3"
    and s': "s' = emit e (end_participation aid pid p Slashed s3)" by blast
  obtain l where "s3 = s\<lparr>rwa_ledger := l\<rparr>"
    using do_distribute_slash_frame [OF s2] rwa_do_transfer_frame [OF s3] by auto
  then show "rwa_inv s'" using end_inv [of s3 aid pid p Slashed] I p participating_not_pending [OF p(2)] by (simp add: s')
qed

lemma request_participation_inv:
  assumes I: "rwa_inv s" and run: "request_participation T H org aid hs s = Inr s'"
  shows "rwa_inv s'"
proof -
  from request_participation_Inr [OF run] obtain who a s1 where
    a: "fmlookup (rwa_assets s) aid = Some a" "asset_status a = AssetActive" and hs: "hs \<noteq> []" "distinct hs"
    and free: "check_holders T aid s hs = Inr ()" and s1: "collect T a who s = Inr s1"
    and cap: "requires_approval (policy a) \<longrightarrow> length (get_or [] (pending_approvals s) aid) < max_pending_approvals T"
    and en: "enroll T aid a who hs s1 = Inr s'" by blast
  obtain l where l: "s1 = s\<lparr>rwa_ledger := l\<rparr>" using collect_frame [OF s1] by blast
  let ?pid = "get_or 0 (next_participation_id s) aid" and ?p = "requested aid a who hs (rwa_now s)"
  let ?pas = "if requires_approval (policy a) then fmupd aid (get_or [] (pending_approvals s) aid @ [?pid]) (pending_approvals s)
    else pending_approvals s"
  have new: "fmlookup (participations s) (aid, ?pid) = None"
  proof (cases "fmlookup (participations s) (aid, ?pid)")
    case (Some q)
    then show ?thesis using participation_facts(4) [OF I Some] by simp
  qed simp
  have fits: "?pid + 1 \<le> u32_max" and s': "s' = (open_participation T aid ?pid ?p
      (s1\<lparr>next_participation_id := fmupd aid (?pid + 1) (next_participation_id s), pending_approvals := ?pas\<rparr>))\<lparr>rwa_events := rwa_events s'\<rparr>"
    using enroll_Inr [OF en] cap unfolding l by (simp_all cong: if_cong)
  have "rwa_inv (s\<lparr>participations := fmupd (aid, ?pid) ?p (participations s),
    next_participation_id := fmupd aid (?pid + 1) (next_participation_id s),
    holder_index := index_all aid ?pid (holders ?p) (holder_index s),
    holder_assets := list_all_holders (max_participations_per_holder T) aid (holders ?p) (holder_assets s),
    rwa_assets := fm_mutate aid (\<lambda>a. a\<lparr>participant_count := add32 (participant_count a) 1\<rparr>) (rwa_assets s),
    pending_approvals := ?pas\<rparr>)"
  proof (rule rwa_inv_open [OF I a(1)])
    show "\<not> open_at (participations s) aid ?pid" using new by (simp add: open_at_def)
    show "members (participations s) aid < u32_max"
      using members_le [OF rwa_inv_parts(1) [OF I], of aid] fits by simp
    show "parts_inv (asset_core (rwa_assets s)) (fmupd (aid, ?pid) ?p (participations s))
        (fmupd aid (?pid + 1) (next_participation_id s))"
      by (rule parts_inv_new [OF rwa_inv_parts(1) [OF I]]) (use a fits hs in simp_all)
    show "pending_inv (asset_core (rwa_assets s)) (fmupd (aid, ?pid) ?p (participations s)) ?pas"
    proof (cases "requires_approval (policy a)")
      case True
      then show ?thesis using new a
        by (simp add: is_pending_def pending_inv_add [OF rwa_inv_parts(4) [OF I] agree_off_upd])
    next
      case False
      then show ?thesis using new
        by (simp add: is_pending_def pending_inv_keep [OF rwa_inv_parts(4) [OF I] agree_off_upd])
    qed
  qed (use hs free in \<open>auto simp: check_holders_Inr\<close>)
  then show ?thesis by (subst s') (simp add: participation_effects l rwa_inv_def)
qed

lemma rejoins_inv:
  assumes I: "rwa_inv s" and a: "fmlookup (rwa_assets s) aid = Some a" and run: "rejoins T aid pid a' who s s'"
  shows "rwa_inv s'"
proof -
  from run obtain p st l2 e where p: "fmlookup (participations s) (aid, pid) = Some p" "participation_status p = Expired"
    and st: "is_participating st" and free: "check_holders T aid s (holders p) = Inr ()"
    and s': "s' = emit e (open_participation T aid pid (p\<lparr>deposit_held := deposit (policy a'), participation_status := st\<rparr>) (s\<lparr>rwa_ledger := l2\<rparr>))"
    unfolding rejoins_def by blast
  let ?p = "p\<lparr>deposit_held := deposit (policy a'), participation_status := st\<rparr>"
  note facts = participation_facts [OF I p(1)]
  have c: "counted ?p" using st by simp
  have old: "\<not> open_at (participations s) aid pid" using p by simp
  have ne: "holders p \<noteq> []" using facts(3) p(2) by simp
  have "rwa_inv (s\<lparr>participations := fmupd (aid, pid) ?p (participations s), next_participation_id := next_participation_id s,
    holder_index := index_all aid pid (holders ?p) (holder_index s),
    holder_assets := list_all_holders (max_participations_per_holder T) aid (holders ?p) (holder_assets s),
    rwa_assets := fm_mutate aid (\<lambda>a. a\<lparr>participant_count := add32 (participant_count a) 1\<rparr>) (rwa_assets s),
    pending_approvals := pending_approvals s\<rparr>)"
  proof (rule rwa_inv_open [OF I a old c])
    show "members (participations s) aid < u32_max"
      using members_below [OF rwa_inv_parts(1) [OF I] old facts(4)] rwa_inv_parts(1) [OF I]
      by (auto simp: parts_inv_def intro: less_le_trans)
    show "parts_inv (asset_core (rwa_assets s)) (fmupd (aid, pid) ?p (participations s)) (next_participation_id s)"
      using parts_inv_upd [OF rwa_inv_parts(1) [OF I] p(1), of ?p] facts(2) ne by simp
    show "pending_inv (asset_core (rwa_assets s)) (fmupd (aid, pid) ?p (participations s)) (pending_approvals s)"
      by (rule pending_inv_keep [OF rwa_inv_parts(4) [OF I] agree_off_upd]) (use p st in auto)
  qed (use free facts(2) in \<open>auto simp: check_holders_Inr\<close>)
  then show ?thesis unfolding s' by (simp add: participation_effects rwa_inv_def)
qed

lemma renews_inv: "\<lbrakk>rwa_inv s; renews T aid pid a who s s'\<rbrakk> \<Longrightarrow> rwa_inv s'"
  unfolding renews_def by (auto simp: emit_def intro!: put_participation_inv)

lemma pays_back_asset:
  assumes "pays_back T aid pid p a st v s s'" "fmlookup (rwa_assets s) aid = Some b"
  shows "fmlookup (rwa_assets s') aid = Some (b\<lparr>participant_count := participant_count b - 1\<rparr>)"
  using assms by (auto simp: pays_back_def end_participation_eq emit_def dest!: rwa_do_transfer_frame)

lemma renew_participation_inv: "\<lbrakk>rwa_inv s; renew_participation T H org aid pid s = Inr s'\<rbrakk> \<Longrightarrow> rwa_inv s'"
proof -
  assume I: "rwa_inv s" and "renew_participation T H org aid pid s = Inr s'"
  from renew_participation_Inr [OF this(2)] obtain who a s1 p where a: "fmlookup (rwa_assets s) aid = Some a"
    and p: "fmlookup (participations s) (aid, pid) = Some p"
    and settle: "s1 = s \<or> due p (rwa_now s) \<and> is_participating (participation_status p) \<and> pays_back T aid pid p a Expired (deposit_held p) s s1"
    and renew: "renews T aid pid a who s1 s' \<or> rejoins T aid pid a who s1 s'" by blast
  have "rwa_inv s1 \<and> (\<exists>b. fmlookup (rwa_assets s1) aid = Some b)"
    using settle I a p pays_back_active [of T aid pid p a Expired "deposit_held p" s s1] pays_back_asset by (meson final_statuses(1))
  then show "rwa_inv s'" using renew rejoins_inv renews_inv by blast
qed

lemma approve_participation_inv: "\<lbrakk>rwa_inv s; approve_participation T org aid pid s = Inr s'\<rbrakk> \<Longrightarrow> rwa_inv s'"
proof -
  assume I: "rwa_inv s" and "approve_participation T org aid pid s = Inr s'"
  from approve_participation_Inr [OF this(2)] obtain p and a :: asset_info and s0 st e where
    p: "fmlookup (participations s) (aid, pid) = Some p" "participation_status p = PendingApproval" "is_participating st"
    and pay: "rwa_do_transfer T (deposit_currency (policy a)) (pallet_account T) (beneficiary a) (entry_fee_paid p) s = Inr s0"
    and s': "s' = emit e (remove_pending aid pid (put_participation aid pid (p\<lparr>participation_status := st\<rparr>) s0))" by blast
  obtain l where l: "s0 = s\<lparr>rwa_ledger := l\<rparr>" using rwa_do_transfer_frame [OF pay] by blast
  let ?p = "p\<lparr>participation_status := st\<rparr>"
  have "counted p" "counted ?p" using p by (simp_all add: counted_def)
  moreover have "pending_inv (asset_core (rwa_assets s)) (fmupd (aid, pid) ?p (participations s))
      (fmupd aid (remove1 pid (get_or [] (pending_approvals s) aid)) (pending_approvals s))"
    by (rule pending_inv_remove [OF rwa_inv_parts(4) [OF I] agree_off_upd]) (use p in auto)
  ultimately have "rwa_inv (s\<lparr>participations := fmupd (aid, pid) ?p (participations s),
      pending_approvals := fmupd aid (remove1 pid (get_or [] (pending_approvals s) aid)) (pending_approvals s)\<rparr>)"
    using rwa_inv_update [OF I p(1), of ?p] by simp
  then show "rwa_inv s'" unfolding s' l by (simp add: participation_effects rwa_inv_def)
qed

lemma reject_one_inv:
  assumes I: "rwa_inv s" and p: "fmlookup (participations s) (aid, pid) = Some p" "participation_status p = PendingApproval"
  shows "rwa_inv (remove_pending aid pid (reject_one aid pid p s))"
proof -
  have c: "counted p" using p(2) by (simp add: counted_def)
  have "rwa_inv (s\<lparr>participations := fmdrop (aid, pid) (participations s),
    holder_index := unindex_all aid (holders p) (holder_index s),
    holder_assets := unlist_all_holders aid (holders p) (holder_assets s),
    rwa_assets := fm_mutate aid (\<lambda>a. a\<lparr>participant_count := participant_count a - 1\<rparr>) (rwa_assets s),
    pending_approvals := fmupd aid (remove1 pid (get_or [] (pending_approvals s) aid)) (pending_approvals s)\<rparr>)"
    by (rule rwa_inv_close [OF I p(1) c])
      (simp_all add: parts_inv_drop rwa_inv_parts [OF I] pending_inv_remove [OF rwa_inv_parts(4) [OF I] agree_off_drop])
  then show ?thesis by (simp add: participation_effects)
qed

lemma reject_participation_inv: "\<lbrakk>rwa_inv s; reject_participation T org aid pid s = Inr s'\<rbrakk> \<Longrightarrow> rwa_inv s'"
  by (auto dest!: reject_participation_Inr rwa_do_transfer_frame intro!: reject_one_inv)

lemma transfer_participation_inv: "\<lbrakk>rwa_inv s; transfer_participation T org aid pid who s = Inr s'\<rbrakk> \<Longrightarrow> rwa_inv s'"
  by (auto simp: emit_def dest!: transfer_participation_Inr intro!: put_participation_inv)

lemma add_holder_inv: "\<lbrakk>rwa_inv s; add_holder T H org aid pid h s = Inr s'\<rbrakk> \<Longrightarrow> rwa_inv s'"
proof -
  assume I: "rwa_inv s" and "add_holder T H org aid pid h s = Inr s'"
  from add_holder_Inr [OF this(2)] obtain p e where p: "fmlookup (participations s) (aid, pid) = Some p"
      "is_participating (participation_status p)" "h \<notin> set (holders p)"
    and free: "\<not> contains_key (holder_index s) (aid, h)" "length (get_or [] (holder_assets s) h) < max_participations_per_holder T"
    and s': "s' = put_participation aid pid (p\<lparr>holders := holders p @ [h]\<rparr>) (emit e (add_holder_index T aid pid h s))"
    by blast
  let ?p = "p\<lparr>holders := holders p @ [h]\<rparr>"
  have c: "counted p" "counted ?p" using p(2) by (simp_all add: counted_def)
  have "index_inv (fmupd (aid, pid) ?p (participations s)) (index_all aid pid [h] (holder_index s))
      (list_all_holders (max_participations_per_holder T) aid [h] (holder_assets s))"
    by (rule index_inv_add [OF rwa_inv_parts(3) [OF I] agree_off_upd])
      (use p c free in \<open>auto simp: active_holders_def\<close>)
  moreover have "add_holder_index T aid pid h s = fold (add_holder_index T aid pid) [h] s" by simp
  ultimately show "rwa_inv s'"
    unfolding s' add_all_eq put_participation_def emit_def
    using rwa_inv_holders [OF I p(1) c(1), of "holders p @ [h]"] participation_facts(2) [OF I p(1)] p(3)
    by (simp add: rwa_inv_def add_all_eq)
qed

lemma drop_holder_Inr:
  assumes "drop_holder T aid pid p a h ev s = Inr s'"
  shows "(remove1 h (holders p) = [] \<and> (\<exists>s0 e. rwa_do_transfer T (deposit_currency (policy a)) (pallet_account T) (payer p) (deposit_held p) s = Inr s0 \<and>
      s' = emit e (s0\<lparr>participations := fmupd (aid, pid) (p\<lparr>holders := [], participation_status := Exited, deposit_held := 0\<rparr>) (participations s0),
        holder_index := unindex_all aid [h] (holder_index s0), holder_assets := unlist_all_holders aid [h] (holder_assets s0),
        rwa_assets := fm_mutate aid (\<lambda>a. a\<lparr>participant_count := participant_count a - 1\<rparr>) (rwa_assets s0),
        pending_approvals := pending_approvals s0\<rparr>))) \<or>
    (remove1 h (holders p) \<noteq> [] \<and> (\<exists>e. s' = emit e (s\<lparr>participations := fmupd (aid, pid) (p\<lparr>holders := remove1 h (holders p)\<rparr>) (participations s),
        holder_index := unindex_all aid [h] (holder_index s), holder_assets := unlist_all_holders aid [h] (holder_assets s)\<rparr>)))"
proof (cases "remove1 h (holders p) = []")
  case True
  with assms obtain l where l: "rwa_pay T (deposit_currency (policy a)) (pallet_account T) (payer p) (deposit_held p) (rwa_ledger s) = Inr l"
    and s': "s' = emit (ParticipationExited aid pid (deposit_held p)) ((s\<lparr>rwa_ledger := l\<rparr>)
      \<lparr>participations := fmupd (aid, pid) (p\<lparr>holders := [], participation_status := Exited, deposit_held := 0\<rparr>) (participations s),
        holder_index := unindex_all aid [h] (holder_index s), holder_assets := unlist_all_holders aid [h] (holder_assets s),
        rwa_assets := fm_mutate aid (\<lambda>a. a\<lparr>participant_count := participant_count a - 1\<rparr>) (rwa_assets s),
        pending_approvals := pending_approvals s\<rparr>)"
    by (auto simp: drop_holder_def dispatch_simps rwa_do_transfer_pay remove_single_holder_index_def unindex_all_def
        unlist_all_holders_def dec_participant_count_def put_participation_def Let_def emit_def)
  have "rwa_do_transfer T (deposit_currency (policy a)) (pallet_account T) (payer p) (deposit_held p) s = Inr (s\<lparr>rwa_ledger := l\<rparr>)"
    using l by (simp add: rwa_do_transfer_pay)
  with True show ?thesis unfolding s'
    by (intro disjI1 conjI exI [of _ "s\<lparr>rwa_ledger := l\<rparr>"] exI [of _ "ParticipationExited aid pid (deposit_held p)"]) simp_all
next
  case False
  with assms show ?thesis
    by (intro disjI2 conjI exI [of _ ev])
      (auto simp: drop_holder_def remove_single_holder_index_def unindex_all_def unlist_all_holders_def put_participation_def
        emit_def Let_def)
qed

lemma drop_holder_inv:
  assumes I: "rwa_inv s" and p: "fmlookup (participations s) (aid, pid) = Some p" "is_participating (participation_status p)"
    "h \<in> set (holders p)" and run: "drop_holder T aid pid p a h ev s = Inr s'"
  shows "rwa_inv s'"
proof (cases "remove1 h (holders p) = []")
  case True
  then have hs: "holders p = [h]" using p(3) by (cases "holders p") (auto split: if_splits)
  obtain s0 e where pay: "rwa_do_transfer T (deposit_currency (policy a)) (pallet_account T) (payer p) (deposit_held p) s = Inr s0"
    and s': "s' = emit e (s0\<lparr>participations := fmupd (aid, pid) (p\<lparr>holders := [], participation_status := Exited, deposit_held := 0\<rparr>) (participations s0),
        holder_index := unindex_all aid (holders p) (holder_index s0), holder_assets := unlist_all_holders aid (holders p) (holder_assets s0),
        rwa_assets := fm_mutate aid (\<lambda>a. a\<lparr>participant_count := participant_count a - 1\<rparr>) (rwa_assets s0),
        pending_approvals := pending_approvals s0\<rparr>)"
    using drop_holder_Inr [OF run] True unfolding hs by blast
  obtain l where l: "s0 = s\<lparr>rwa_ledger := l\<rparr>" using rwa_do_transfer_frame [OF pay] by blast
  let ?p = "p\<lparr>holders := [], participation_status := Exited, deposit_held := 0\<rparr>"
  have I0: "rwa_inv s0" and p0: "fmlookup (participations s0) (aid, pid) = Some p" using I p by (simp_all add: l)
  have "rwa_inv (s0\<lparr>participations := fmupd (aid, pid) ?p (participations s0),
        holder_index := unindex_all aid (holders p) (holder_index s0), holder_assets := unlist_all_holders aid (holders p) (holder_assets s0),
        rwa_assets := fm_mutate aid (\<lambda>a. a\<lparr>participant_count := participant_count a - 1\<rparr>) (rwa_assets s0),
        pending_approvals := pending_approvals s0\<rparr>)"
  proof (rule rwa_inv_close [OF I0 p0 participating_counted [OF p(2)]])
    show "parts_inv (asset_core (rwa_assets s0)) (fmupd (aid, pid) ?p (participations s0)) (next_participation_id s0)"
      by (rule parts_inv_upd [OF rwa_inv_parts(1) [OF I0] p0]) simp_all
    show "pending_inv (asset_core (rwa_assets s0)) (fmupd (aid, pid) ?p (participations s0)) (pending_approvals s0)"
      by (rule pending_inv_keep [OF rwa_inv_parts(4) [OF I0] agree_off_upd])
        (use p0 participating_not_pending [OF p(2)] in simp)
  qed simp_all
  then show ?thesis by (simp add: s')
next
  case False
  then obtain e where s': "s' = emit e (s\<lparr>participations := fmupd (aid, pid) (p\<lparr>holders := remove1 h (holders p)\<rparr>) (participations s),
        holder_index := unindex_all aid [h] (holder_index s), holder_assets := unlist_all_holders aid [h] (holder_assets s)\<rparr>)"
    using drop_holder_Inr [OF run] by blast
  note d = participation_facts(2) [OF I p(1)]
  have c: "counted p" "counted (p\<lparr>holders := remove1 h (holders p)\<rparr>)" using p(2) by (simp_all add: counted_def)
  have "index_inv (fmupd (aid, pid) (p\<lparr>holders := remove1 h (holders p)\<rparr>) (participations s))
      (unindex_all aid [h] (holder_index s)) (unlist_all_holders aid [h] (holder_assets s))"
    by (rule index_inv_remove [OF rwa_inv_parts(3) [OF I] agree_off_upd])
      (use p c d in \<open>auto simp: active_holders_def\<close>)
  then show ?thesis
    unfolding s' using rwa_inv_holders [OF I p(1) c(1) _ False] d by (simp add: distinct_remove1)
qed

lemma remove_holder_inv: "\<lbrakk>rwa_inv s; remove_holder T org aid pid h s = Inr s'\<rbrakk> \<Longrightarrow> rwa_inv s'"
  and leave_participation_inv: "\<lbrakk>rwa_inv s; leave_participation T org aid pid s = Inr s'\<rbrakk> \<Longrightarrow> rwa_inv s'"
  using drop_holder_inv by (auto dest!: remove_holder_Inr leave_participation_Inr)

text \<open>
  The loop of the batch rejection, for a property of the state and of the pending requests that are
  left: each rejection removes one of them.
\<close>

lemma reject_all_rule:
  assumes pending: "\<And>L s pid. \<lbrakk>Q L s; pid \<in> set L\<rbrakk> \<Longrightarrow> is_pending (participations s) aid pid"
    and step: "\<And>L s pid p s0. \<lbrakk>Q L s; pid \<in> set L; fmlookup (participations s) (aid, pid) = Some p; participation_status p = PendingApproval;
        rwa_do_transfer T (deposit_currency (policy a)) (pallet_account T) (payer p) (add128 (deposit_held p) (entry_fee_paid p)) s = Inr s0\<rbrakk>
      \<Longrightarrow> Q (remove1 pid L) (reject_one aid pid p s0)"
  shows "\<lbrakk>Q L s; set pids \<subseteq> set L; distinct pids; distinct L; reject_all T aid a pids s = (ret, n, s')\<rbrakk> \<Longrightarrow>
    \<exists>L'. Q L' s' \<and> set L' = set L - (set pids - set ret) \<and> distinct ret \<and> set ret \<subseteq> set pids"
proof (induction pids arbitrary: L s ret n s')
  case Nil
  then show ?case by auto
next
  case (Cons pid pids)
  from Cons.prems(1,2) pending have "is_pending (participations s) aid pid" by simp
  then obtain p where p: "fmlookup (participations s) (aid, pid) = Some p" "participation_status p = PendingApproval"
    by (auto simp: is_pending_def split: option.splits)
  show ?case
  proof (cases "rwa_do_transfer T (deposit_currency (policy a)) (pallet_account T) (payer p) (add128 (deposit_held p) (entry_fee_paid p)) s")
    case (Inl err)
    obtain ret' n' where run: "reject_all T aid a pids s = (ret', n', s')" "ret = pid # ret'"
      using Cons.prems(5) p Inl by (auto split: prod.splits)
    from Cons.IH [OF Cons.prems(1) _ _ _ run(1)] Cons.prems(2,3,4) run(2) show ?thesis by auto
  next
    case (Inr s0)
    obtain n' where run: "reject_all T aid a pids (reject_one aid pid p s0) = (ret, n', s')"
      using Cons.prems(5) p Inr by (auto simp: reject_one_def Let_def split: prod.splits)
    have "Q (remove1 pid L) (reject_one aid pid p s0)" using step Cons.prems(1,2) p Inr by simp
    from Cons.IH [OF this _ _ _ run] Cons.prems(2,3,4) obtain L' where "Q L' s'"
      "set L' = set L - {pid} - (set pids - set ret)" "distinct ret" "set ret \<subseteq> set pids" by auto
    with Cons.prems(3) show ?thesis by (intro exI [of _ L']) auto
  qed
qed

lemma fmupd_twice: "fmupd k v (fmupd k w m) = fmupd k v m"
  by (rule fmap_ext) simp

lemma pending_list_facts:
  assumes "rwa_inv (s\<lparr>pending_approvals := fmupd aid L pas\<rparr>)"
  shows "distinct L" "pid \<in> set L \<Longrightarrow> is_pending (participations s) aid pid"
proof -
  have "pending_inv (asset_core (rwa_assets s)) (participations s) (fmupd aid L pas)" using assms by (simp add: rwa_inv_def)
  then have "distinct (get_or [] (fmupd aid L pas) aid)" "pid \<in> set (get_or [] (fmupd aid L pas) aid) \<Longrightarrow> is_pending (participations s) aid pid"
    unfolding pending_inv_def by blast+
  then show "distinct L" "pid \<in> set L \<Longrightarrow> is_pending (participations s) aid pid" by simp_all
qed

lemma pending_list_set:
  assumes "rwa_inv (s\<lparr>pending_approvals := fmupd aid L pas\<rparr>)" "distinct L'" "set L' = set L"
  shows "rwa_inv (s\<lparr>pending_approvals := fmupd aid L' pas\<rparr>)"
proof -
  have "pending_inv core ps (fmupd aid L' pas) = pending_inv core ps (fmupd aid L pas)" if "distinct L" for core ps
    using assms(2,3) that unfolding pending_inv_def by (intro iff_allI) auto
  then show ?thesis using assms(1) pending_list_facts(1) [OF assms(1)] by (simp add: rwa_inv_def)
qed

lemma pending_list_drop:
  assumes "rwa_inv (s\<lparr>pending_approvals := fmupd aid [] pas\<rparr>)"
  shows "rwa_inv (s\<lparr>pending_approvals := fmdrop aid pas\<rparr>)"
  using assms by (simp add: rwa_inv_def pending_inv_def)

lemma reject_all_inv:
  assumes "rwa_inv (s\<lparr>pending_approvals := fmupd aid L (pending_approvals s)\<rparr>)" "reject_all T aid a L s = (ret, n, s')"
  shows "rwa_inv (s'\<lparr>pending_approvals := fmupd aid ret (pending_approvals s')\<rparr>)"
proof -
  let ?Q = "\<lambda>L s. rwa_inv (s\<lparr>pending_approvals := fmupd aid L (pending_approvals s)\<rparr>)"
  have "\<exists>L'. ?Q L' s' \<and> set L' = set L - (set L - set ret) \<and> distinct ret \<and> set ret \<subseteq> set L"
  proof (rule reject_all_rule [where Q = ?Q, OF _ _ assms(1) _ _ _ assms(2)])
    fix L s pid p s0
    assume I: "?Q L s" and p: "fmlookup (participations s) (aid, pid) = Some p" "participation_status p = PendingApproval"
      and "rwa_do_transfer T (deposit_currency (policy a)) (pallet_account T) (payer p) (add128 (deposit_held p) (entry_fee_paid p)) s = Inr s0"
    then obtain l where l: "s0 = s\<lparr>rwa_ledger := l\<rparr>" using rwa_do_transfer_frame by blast
    from reject_one_inv [OF I, of aid pid p] p show "?Q (remove1 pid L) (reject_one aid pid p s0)"
      by (simp add: l participation_effects fmupd_twice rwa_inv_def)
  qed (use pending_list_facts [OF assms(1)] in \<open>auto intro: pending_list_facts\<close>)
  then obtain L' where "?Q L' s'" "set ret = set L'" "distinct ret" by auto
  then show ?thesis using pending_list_set by blast
qed

lemma batch_reject_pending_inv: "\<lbrakk>rwa_inv s; batch_reject_pending T org aid s = Inr s'\<rbrakk> \<Longrightarrow> rwa_inv s'"
proof -
  assume I: "rwa_inv s" and run: "batch_reject_pending T org aid s = Inr s'"
  obtain a ret n s1 where loop: "reject_all T aid a (get_or [] (pending_approvals s) aid) s = (ret, n, s1)"
    and s': "s' = emit (BatchPendingRejected aid n) (s1\<lparr>pending_approvals := (if ret = [] then fmdrop aid (pending_approvals s1)
      else fmupd aid ret (pending_approvals s1))\<rparr>)"
    using ensure_asset_owner_or_admin_Inr [OF run [unfolded batch_reject_pending_def]]
    by (auto simp: dispatch_simps case_prod_Inr Let_def)
  have "rwa_inv (s\<lparr>pending_approvals := fmupd aid (get_or [] (pending_approvals s) aid) (pending_approvals s)\<rparr>)"
    using I by (simp add: rwa_inv_def pending_inv_def)
  from reject_all_inv [OF this loop] show "rwa_inv s'" using pending_list_drop by (auto simp: s')
qed

end
