(* ===== verification/Rwa_System.thy ===== *)
theory Rwa_System
  imports Rwa_Preserve
begin

text \<open>
  The calls on the assets themselves and the block hook preserve the invariant, and the pallet as a
  transition system: calls by any origin with any answers of the filter and of the life-cycle guard,
  calls that fail and are rolled back, new blocks with their hook, and everything else on the chain,
  which is only required not to take funds from the account of the pallet.
\<close>

section \<open>Changes of an asset\<close>

lemma members_none: "(\<And>pid. fmlookup ps (aid, pid) = None) \<Longrightarrow> members ps aid = 0"
  unfolding members_def fmcount_def by (subst fmsum_zero_iff) auto

lemma counts_inv_same:
  "\<lbrakk>counts_inv assets ps; fmlookup assets aid = Some a; participant_count a' = participant_count a\<rbrakk> \<Longrightarrow>
     counts_inv (fmupd aid a' assets) ps"
  by (auto simp: counts_inv_def)

lemma put_asset_same_inv:
  assumes "rwa_inv s" "fmlookup (rwa_assets s) aid = Some a" "owner a' = owner a" "asset_status a' = asset_status a"
    "participant_count a' = participant_count a"
  shows "rwa_inv (put_asset aid a' s)"
  using assms counts_inv_same [of "rwa_assets s" "participations s" aid a a']
  by (simp add: rwa_inv_def put_asset_def asset_core_same)

definition plain_status :: "rwa_asset_status \<Rightarrow> bool" where
  "plain_status st = (st \<in> {AssetActive, AssetInactive, AssetPaused})"

lemma owners_inv_status:
  "\<lbrakk>owners_inv core oas; core aid = Some (who, st); st \<noteq> Retired; st' \<noteq> Retired\<rbrakk> \<Longrightarrow>
     owners_inv (core(aid \<mapsto> (who, st'))) oas"
  by (auto simp: owners_inv_def)

lemma pending_inv_status:
  assumes "pending_inv core ps pas" "core aid = Some (who, st)" "st \<noteq> Retired" "st' \<noteq> Retired"
  shows "pending_inv (core(aid \<mapsto> (who', st'))) ps pas"
proof -
  have "(\<forall>w. (core(aid \<mapsto> (who', st'))) b \<noteq> Some (w, Retired)) = (\<forall>w. core b \<noteq> Some (w, Retired))" for b
    using assms(2-4) by auto
  then show ?thesis using assms(1) by (simp add: pending_inv_def del: fun_upd_apply)
qed

lemma transfers_inv_status:
  "\<lbrakk>transfers_inv core pts; core aid = Some (who, st); st' \<noteq> Retired\<rbrakk> \<Longrightarrow> transfers_inv (core(aid \<mapsto> (who, st'))) pts"
  unfolding transfers_inv_def by (metis fun_upd_apply option.inject prod.inject)

lemma sunset_inv_off:
  "\<lbrakk>sunset_inv core sas; core aid = Some (who, st); \<And>n. st \<noteq> Sunsetting n; \<And>n. st' \<noteq> Sunsetting n\<rbrakk> \<Longrightarrow>
     sunset_inv (core(aid \<mapsto> (who', st'))) sas"
  by (auto simp: sunset_inv_def)

lemma rwa_inv_status:
  assumes I: "rwa_inv s" and a: "fmlookup (rwa_assets s) aid = Some a" "asset_status a \<noteq> Retired" "st \<noteq> Retired"
    and sun: "sunset_inv ((asset_core (rwa_assets s))(aid \<mapsto> (owner a, st))) sas"
  shows "rwa_inv (s\<lparr>rwa_assets := fmupd aid (a\<lparr>asset_status := st\<rparr>) (rwa_assets s), sunsetting_assets := sas\<rparr>)"
proof -
  note core = asset_core_Some [OF a(1)]
  have "counts_inv (fmupd aid (a\<lparr>asset_status := st\<rparr>) (rwa_assets s)) (participations s)"
    by (rule counts_inv_same [OF rwa_inv_parts(2) [OF I] a(1)]) simp
  moreover have "parts_inv ((asset_core (rwa_assets s))(aid \<mapsto> (owner a, st))) (participations s) (next_participation_id s)"
    by (rule parts_inv_core [OF rwa_inv_parts(1) [OF I]]) auto
  ultimately show ?thesis
    using I sun owners_inv_status [OF rwa_inv_parts(5) [OF I] core a(2,3)] pending_inv_status [OF rwa_inv_parts(4) [OF I] core a(2,3)]
      transfers_inv_status [OF rwa_inv_parts(7) [OF I] core a(3)] core
    by (auto simp: rwa_inv_def asset_core_upd)
qed

lemma put_status_inv:
  assumes I: "rwa_inv s" and a: "fmlookup (rwa_assets s) aid = Some a" "plain_status (asset_status a)" "plain_status st"
  shows "rwa_inv (put_asset aid (a\<lparr>asset_status := st\<rparr>) s)"
proof -
  have "sunset_inv ((asset_core (rwa_assets s))(aid \<mapsto> (owner a, st))) (sunsetting_assets s)"
    by (rule sunset_inv_off [OF rwa_inv_parts(6) [OF I] asset_core_Some [OF a(1)]]) (use a in \<open>auto simp: plain_status_def\<close>)
  from rwa_inv_status [OF I a(1) _ _ this] a show ?thesis by (auto simp: put_asset_def plain_status_def)
qed

lemmas asset_calls = update_asset_policy_def deactivate_asset_def reactivate_asset_def pause_asset_def unpause_asset_def
  update_beneficiary_def update_metadata_def

lemma status_calls_inv:
  "\<lbrakk>rwa_inv s; deactivate_asset T org aid s = Inr s'\<rbrakk> \<Longrightarrow> rwa_inv s'"
  "\<lbrakk>rwa_inv s; reactivate_asset T org aid s = Inr s'\<rbrakk> \<Longrightarrow> rwa_inv s'"
  "\<lbrakk>rwa_inv s; pause_asset T org aid s = Inr s'\<rbrakk> \<Longrightarrow> rwa_inv s'"
  "\<lbrakk>rwa_inv s; unpause_asset T org aid s = Inr s'\<rbrakk> \<Longrightarrow> rwa_inv s'"
  by (auto simp: asset_calls dispatch_simps intro!: put_status_inv) (auto simp: plain_status_def)

lemma field_calls_inv:
  "\<lbrakk>rwa_inv s; update_asset_policy T org aid pol s = Inr s'\<rbrakk> \<Longrightarrow> rwa_inv s'"
  "\<lbrakk>rwa_inv s; update_beneficiary T org aid b s = Inr s'\<rbrakk> \<Longrightarrow> rwa_inv s'"
  "\<lbrakk>rwa_inv s; update_metadata T org aid meta s = Inr s'\<rbrakk> \<Longrightarrow> rwa_inv s'"
  by (auto simp: asset_calls dispatch_simps emit_def intro!: put_asset_same_inv dest!: ensure_asset_owner_or_admin_Inr)

lemma sunset_inv_schedule:
  assumes "sunset_inv core sas" "core aid = Some (who, st)" "\<And>n. st \<noteq> Sunsetting n"
  shows "sunset_inv (core(aid \<mapsto> (who, Sunsetting n))) (fmupd n (get_or [] sas n @ [aid]) sas)"
  using assms by (auto simp: sunset_inv_def)

lemma sunset_asset_inv: "\<lbrakk>rwa_inv s; sunset_asset T org aid n s = Inr s'\<rbrakk> \<Longrightarrow> rwa_inv s'"
proof -
  assume I: "rwa_inv s" and "sunset_asset T org aid n s = Inr s'"
  then obtain a where a: "fmlookup (rwa_assets s) aid = Some a" "asset_status a \<in> {AssetActive, AssetInactive}"
    and s': "s' = emit (AssetSunsetting aid n) (s\<lparr>rwa_assets := fmupd aid (a\<lparr>asset_status := Sunsetting n\<rparr>) (rwa_assets s),
      sunsetting_assets := fmupd n (get_or [] (sunsetting_assets s) n @ [aid]) (sunsetting_assets s)\<rparr>)"
    by (auto simp: sunset_asset_def dispatch_simps put_asset_def try_push_def Let_def)
  have "sunset_inv ((asset_core (rwa_assets s))(aid \<mapsto> (owner a, Sunsetting n)))
      (fmupd n (get_or [] (sunsetting_assets s) n @ [aid]) (sunsetting_assets s))"
    by (rule sunset_inv_schedule [OF rwa_inv_parts(6) [OF I] asset_core_Some [OF a(1)]]) (use a in auto)
  from rwa_inv_status [OF I a(1) _ _ this] a show "rwa_inv s'" by (auto simp: s')
qed

text \<open>Retirement.\<close>

lemma owners_inv_retire:
  assumes "owners_inv core oas" "core aid = Some (who, st)" "st \<noteq> Retired"
  shows "owners_inv (core(aid \<mapsto> (who, Retired))) (fmupd who (remove1 aid (get_or [] oas who)) oas)"
  using assms by (auto simp: owners_inv_def)

lemma pending_inv_retire:
  assumes "pending_inv core ps pas"
  shows "pending_inv (core(aid \<mapsto> (who, Retired))) ps (fmdrop aid pas)"
  using assms by (auto simp: pending_inv_def)

lemma transfers_inv_retire: "transfers_inv core pts \<Longrightarrow> transfers_inv (core(aid \<mapsto> x)) (fmdrop aid pts)"
  by (auto simp: transfers_inv_def split: if_splits)

lemma finish_retirement_eq:
  "finish_retirement T aid a s = emit (AssetRetired aid (registration_deposit a))
    (s\<lparr>rwa_ledger := snd (native_unreserve (rwa_currency T) (owner a) (registration_deposit a) (rwa_ledger s)),
       owner_assets := fmupd (owner a) (remove1 aid (get_or [] (owner_assets s) (owner a))) (owner_assets s),
       pending_ownership_transfer := fmdrop aid (pending_ownership_transfer s),
       asset_slash_distribution := fmdrop aid (asset_slash_distribution s),
       pending_approvals := fmdrop aid (pending_approvals s),
       rwa_assets := fmupd aid (a\<lparr>asset_status := Retired\<rparr>) (rwa_assets s)\<rparr>)"
  by (simp add: finish_retirement_def remove_from_owner_assets_def Let_def)

lemma finish_retirement_inv:
  assumes I: "rwa_inv s" and a: "fmlookup (rwa_assets s) aid = Some a" "asset_status a \<noteq> Retired"
    and sun: "sunset_inv ((asset_core (rwa_assets s))(aid \<mapsto> (owner a, Retired))) sas"
  shows "rwa_inv (finish_retirement T aid a (s\<lparr>sunsetting_assets := sas\<rparr>))"
proof -
  note core = asset_core_Some [OF a(1)]
  have "counts_inv (fmupd aid (a\<lparr>asset_status := Retired\<rparr>) (rwa_assets s)) (participations s)"
    by (rule counts_inv_same [OF rwa_inv_parts(2) [OF I] a(1)]) simp
  moreover have "parts_inv ((asset_core (rwa_assets s))(aid \<mapsto> (owner a, Retired))) (participations s) (next_participation_id s)"
    by (rule parts_inv_core [OF rwa_inv_parts(1) [OF I]]) auto
  ultimately show ?thesis
    unfolding finish_retirement_eq
    using I sun core owners_inv_retire [OF rwa_inv_parts(5) [OF I] core a(2)] pending_inv_retire [OF rwa_inv_parts(4) [OF I]]
      transfers_inv_retire [OF rwa_inv_parts(7) [OF I]]
    by (auto simp: rwa_inv_def asset_core_upd emit_def)
qed

lemma sunset_inv_unschedule:
  assumes "sunset_inv core sas" "core aid = Some (who, Sunsetting n)"
  shows "sunset_inv (core(aid \<mapsto> (who, Retired))) (fmupd n (remove1 aid (get_or [] sas n)) sas)"
  using assms by (auto simp: sunset_inv_def)

lemma retire_unscheduled_inv:
  assumes I: "rwa_inv s" and a: "fmlookup (rwa_assets s) aid = Some a" "asset_status a \<noteq> Retired"
  shows "rwa_inv (finish_retirement T aid a (case asset_status a of Sunsetting n \<Rightarrow> unschedule aid n s | _ \<Rightarrow> s))"
proof (cases "\<exists>n. asset_status a = Sunsetting n")
  case True
  then obtain n where n: "asset_status a = Sunsetting n" by blast
  have "sunset_inv ((asset_core (rwa_assets s))(aid \<mapsto> (owner a, Retired)))
      (fmupd n (remove1 aid (get_or [] (sunsetting_assets s) n)) (sunsetting_assets s))"
    by (rule sunset_inv_unschedule [OF rwa_inv_parts(6) [OF I]]) (simp add: a(1) n)
  from finish_retirement_inv [OF I a this] show ?thesis by (simp add: n unschedule_def)
next
  case False
  have "sunset_inv ((asset_core (rwa_assets s))(aid \<mapsto> (owner a, Retired))) (sunsetting_assets s)"
    by (rule sunset_inv_off [OF rwa_inv_parts(6) [OF I] asset_core_Some [OF a(1)]]) (use False in auto)
  from finish_retirement_inv [OF I a this] False show ?thesis
    by (cases "asset_status a") auto
qed

lemma force_retire_asset_inv: "\<lbrakk>rwa_inv s; force_retire_asset T H org aid s = Inr s'\<rbrakk> \<Longrightarrow> rwa_inv s'"
  by (auto simp: force_retire_asset_def dispatch_simps Let_def intro!: retire_unscheduled_inv)

lemma sunsetting_Inr:
  "(case st of Sunsetting n \<Rightarrow> Inr n | _ \<Rightarrow> Inl err) = Inr m \<longleftrightarrow> st = Sunsetting m"
  by (cases st) simp_all

lemma retire_asset_inv: "\<lbrakk>rwa_inv s; retire_asset T org aid s = Inr s'\<rbrakk> \<Longrightarrow> rwa_inv s'"
proof -
  assume I: "rwa_inv s" and "retire_asset T org aid s = Inr s'"
  then obtain a n where a: "fmlookup (rwa_assets s) aid = Some a" "asset_status a = Sunsetting n"
    and s': "s' = finish_retirement T aid a (unschedule aid n s)"
    by (auto simp: retire_asset_def dispatch_simps sunsetting_Inr)
  then show "rwa_inv s'" using retire_unscheduled_inv [OF I a(1), of T] by simp
qed

text \<open>Registration and ownership.\<close>

lemma owners_inv_new:
  assumes "owners_inv core oas" "core aid = None" "st \<noteq> Retired"
  shows "owners_inv (core(aid \<mapsto> (who, st))) (fmupd who (get_or [] oas who @ [aid]) oas)"
  using assms by (auto simp: owners_inv_def)

lemma owners_inv_move:
  assumes "owners_inv core oas" "core aid = Some (who, st)" "st \<noteq> Retired" "new \<noteq> who"
  shows "owners_inv (core(aid \<mapsto> (new, st)))
    (fmupd new (get_or [] oas new @ [aid]) (fmupd who (remove1 aid (get_or [] oas who)) oas))"
  using assms by (auto simp: owners_inv_def)

definition new_asset ::
  "'l rwa_config \<Rightarrow> account_id \<Rightarrow> account_id \<Rightarrow> asset_policy \<Rightarrow> nat list \<Rightarrow> block_number \<Rightarrow> asset_info" where
  "new_asset T who b pol meta now =
    \<lparr>owner = who, beneficiary = b, asset_status = AssetActive, policy = pol, metadata = meta, participant_count = 0,
     registration_deposit = asset_registration_deposit T, registered_at = now\<rparr>"

lemma new_asset_simps [simp]:
  "owner (new_asset T who b pol meta now) = who" "asset_status (new_asset T who b pol meta now) = AssetActive"
  "participant_count (new_asset T who b pol meta now) = 0"
  by (simp_all add: new_asset_def)

lemma register_asset_Inr:
  assumes "register_asset T org b pol meta s = Inr s'"
  shows "\<exists>who l. org = Signed who \<and> native_reserve (rwa_currency T) who (asset_registration_deposit T) (rwa_ledger s) = Inr l \<and>
    next_rwa_asset_id s + 1 \<le> u32_max \<and> min_participation_deposit T \<le> deposit pol \<and>
    s' = emit (AssetRegistered (next_rwa_asset_id s) who b) (s\<lparr>rwa_assets := fmupd (next_rwa_asset_id s) (new_asset T who b pol meta (rwa_now s)) (rwa_assets s),
         rwa_ledger := l, next_rwa_asset_id := next_rwa_asset_id s + 1,
         owner_assets := fmupd who (get_or [] (owner_assets s) who @ [next_rwa_asset_id s]) (owner_assets s)\<rparr>)"
  using assms
  by (auto simp: register_asset_def new_asset_def dispatch_simps put_asset_def try_push_def Let_def emit_def)

lemma register_asset_inv: "\<lbrakk>rwa_inv s; register_asset T org b pol meta s = Inr s'\<rbrakk> \<Longrightarrow> rwa_inv s'"
proof -
  assume I: "rwa_inv s" and run: "register_asset T org b pol meta s = Inr s'"
  let ?aid = "next_rwa_asset_id s" and ?core = "asset_core (rwa_assets s)"
  have none: "?core ?aid = None" using I unfolding rwa_inv_def by (metis less_irrefl)
  have nop: "fmlookup (participations s) (?aid, pid) = None" for pid
    using rwa_inv_parts(1) [OF I] none unfolding parts_inv_def by (metis option.exhaust)
  obtain who l e where s': "s' = emit e (s\<lparr>rwa_assets := fmupd ?aid (new_asset T who b pol meta (rwa_now s)) (rwa_assets s),
         rwa_ledger := l, next_rwa_asset_id := ?aid + 1,
         owner_assets := fmupd who (get_or [] (owner_assets s) who @ [?aid]) (owner_assets s)\<rparr>)"
    using register_asset_Inr [OF run] by blast
  have "counts_inv (fmupd ?aid (new_asset T who b pol meta (rwa_now s)) (rwa_assets s)) (participations s)"
    using rwa_inv_parts(2) [OF I] members_none [OF nop] by (simp add: counts_inv_def)
  moreover have "pending_inv (?core(?aid \<mapsto> (who, AssetActive))) (participations s) (pending_approvals s)"
    using rwa_inv_parts(4) [OF I] none by (auto simp: pending_inv_def)
  moreover have "sunset_inv (?core(?aid \<mapsto> (who, AssetActive))) (sunsetting_assets s)"
    using rwa_inv_parts(6) [OF I] none by (auto simp: sunset_inv_def)
  moreover have "transfers_inv (?core(?aid \<mapsto> (who, AssetActive))) (pending_ownership_transfer s)"
    using rwa_inv_parts(7) [OF I] none unfolding transfers_inv_def by (metis fun_upd_apply option.distinct(1))
  moreover have "parts_inv (?core(?aid \<mapsto> (who, AssetActive))) (participations s) (next_participation_id s)"
    by (rule parts_inv_core [OF rwa_inv_parts(1) [OF I]]) simp
  ultimately show "rwa_inv s'"
    unfolding s' using I owners_inv_new [OF rwa_inv_parts(5) [OF I] none, of AssetActive who]
    by (auto simp: rwa_inv_def asset_core_upd less_Suc_eq emit_def)
qed

lemma accept_ownership_Inr:
  assumes "accept_ownership T org aid s = Inr s'"
  shows "\<exists>who a l. org = Signed who \<and> fmlookup (pending_ownership_transfer s) aid = Some who \<and> fmlookup (rwa_assets s) aid = Some a \<and>
    asset_status a \<noteq> Retired \<and> length (get_or [] (owner_assets s) who) < max_assets_per_owner T \<and>
    native_reserve (rwa_currency T) who (registration_deposit a)
      (snd (native_unreserve (rwa_currency T) (owner a) (registration_deposit a) (rwa_ledger s))) = Inr l \<and>
    (owner a \<noteq> who \<longrightarrow> s' = emit (OwnershipTransferred aid (owner a) who) (s\<lparr>rwa_assets := fmupd aid (a\<lparr>owner := who\<rparr>) (rwa_assets s), rwa_ledger := l,
         owner_assets := fmupd who (get_or [] (owner_assets s) who @ [aid])
           (fmupd (owner a) (remove1 aid (get_or [] (owner_assets s) (owner a))) (owner_assets s)),
         pending_ownership_transfer := fmdrop aid (pending_ownership_transfer s)\<rparr>))"
  using assms
  by (auto simp: accept_ownership_def dispatch_simps put_asset_def remove_from_owner_assets_def try_push_def Let_def emit_def)

lemma accept_ownership_inv: "\<lbrakk>rwa_inv s; accept_ownership T org aid s = Inr s'\<rbrakk> \<Longrightarrow> rwa_inv s'"
proof -
  assume I: "rwa_inv s" and run: "accept_ownership T org aid s = Inr s'"
  from accept_ownership_Inr [OF run] obtain who a l where
    pend: "fmlookup (pending_ownership_transfer s) aid = Some who" and a: "fmlookup (rwa_assets s) aid = Some a" "asset_status a \<noteq> Retired"
    and s': "owner a \<noteq> who \<longrightarrow> s' = emit (OwnershipTransferred aid (owner a) who) (s\<lparr>rwa_assets := fmupd aid (a\<lparr>owner := who\<rparr>) (rwa_assets s), rwa_ledger := l,
         owner_assets := fmupd who (get_or [] (owner_assets s) who @ [aid])
           (fmupd (owner a) (remove1 aid (get_or [] (owner_assets s) (owner a))) (owner_assets s)),
         pending_ownership_transfer := fmdrop aid (pending_ownership_transfer s)\<rparr>)" by blast
  let ?core = "asset_core (rwa_assets s)"
  note core = asset_core_Some [OF a(1)]
  have ne: "who \<noteq> owner a" using rwa_inv_parts(7) [OF I] pend core by (fastforce simp: transfers_inv_def)
  have "counts_inv (fmupd aid (a\<lparr>owner := who\<rparr>) (rwa_assets s)) (participations s)"
    by (rule counts_inv_same [OF rwa_inv_parts(2) [OF I] a(1)]) simp
  moreover have "parts_inv (?core(aid \<mapsto> (who, asset_status a))) (participations s) (next_participation_id s)"
    by (rule parts_inv_core [OF rwa_inv_parts(1) [OF I]]) simp
  moreover have "sunset_inv (?core(aid \<mapsto> (who, asset_status a))) (sunsetting_assets s)"
    using rwa_inv_parts(6) [OF I] core by (auto simp: sunset_inv_def)
  ultimately show "rwa_inv s'"
    using s' ne I core owners_inv_move [OF rwa_inv_parts(5) [OF I] core a(2) ne] pending_inv_status [OF rwa_inv_parts(4) [OF I] core a(2,2)]
      transfers_inv_retire [OF rwa_inv_parts(7) [OF I]]
    by (auto simp: rwa_inv_def asset_core_upd emit_def)
qed

lemma transfer_calls_inv:
  "\<lbrakk>rwa_inv s; transfer_ownership T org aid who s = Inr s'\<rbrakk> \<Longrightarrow> rwa_inv s'"
  "\<lbrakk>rwa_inv s; cancel_ownership_transfer T org aid s = Inr s'\<rbrakk> \<Longrightarrow> rwa_inv s'"
  by (auto simp: transfer_ownership_def cancel_ownership_transfer_def dispatch_simps rwa_inv_def transfers_inv_def emit_def split: if_splits)

lemma set_slash_distribution_inv: "\<lbrakk>rwa_inv s; set_slash_distribution T org aid d s = Inr s'\<rbrakk> \<Longrightarrow> rwa_inv s'"
  by (auto simp: set_slash_distribution_def dispatch_simps rwa_inv_def emit_def split: if_splits dest!: ensure_asset_owner_or_admin_Inr)

lemmas rwa_call_invs =
  register_asset_inv field_calls_inv status_calls_inv sunset_asset_inv force_retire_asset_inv retire_asset_inv
  request_participation_inv approve_participation_inv reject_participation_inv exit_participation_inv
  renew_participation_inv settle_expired_participation_inv claim_retired_deposit_inv add_holder_inv remove_holder_inv
  leave_participation_inv set_slash_distribution_inv slash_participation_inv revoke_participation_inv
  transfer_calls_inv accept_ownership_inv transfer_participation_inv batch_reject_pending_inv

theorem rwa_dispatch_inv: "\<lbrakk>rwa_dispatch T H org call s = Inr s'; rwa_inv s\<rbrakk> \<Longrightarrow> rwa_inv s'"
  by (cases call) (simp_all only: rwa_dispatch.simps, (rule rwa_call_invs, assumption, assumption)+)

text \<open>The block hook.\<close>

lemma sunset_inv_next:
  assumes "sunset_inv core (fmupd n (aid # ids) sas)"
  shows "\<exists>who. core aid = Some (who, Sunsetting n)" "sunset_inv (core(aid \<mapsto> (who, Retired))) (fmupd n ids sas)"
proof -
  have get: "get_or [] (fmupd n xs sas) m = (if m = n then xs else get_or [] sas m)" for xs m by simp
  note all = assms [unfolded sunset_inv_def get, rule_format]
  have n: "distinct (aid # ids)" "b \<in> set (aid # ids) \<longleftrightarrow> (\<exists>who. core b = Some (who, Sunsetting n))" for b
    using all [of n] by simp_all
  have off: "distinct (get_or [] sas m)" "b \<in> set (get_or [] sas m) \<longleftrightarrow> (\<exists>who. core b = Some (who, Sunsetting m))" if "m \<noteq> n" for b m
    using all [of m] that by simp_all
  show "\<exists>who. core aid = Some (who, Sunsetting n)" using n(2) [of aid] by simp
  then show "sunset_inv (core(aid \<mapsto> (who, Retired))) (fmupd n ids sas)"
    using n off by (auto simp: sunset_inv_def)
qed

lemma retire_all_inv:
  "rwa_inv (s\<lparr>sunsetting_assets := fmupd n ids (sunsetting_assets s)\<rparr>) \<Longrightarrow>
     rwa_inv ((fold (retire_scheduled T) ids s)\<lparr>sunsetting_assets := fmupd n [] (sunsetting_assets s)\<rparr>) \<and>
     sunsetting_assets (fold (retire_scheduled T) ids s) = sunsetting_assets s"
proof (induction ids arbitrary: s)
  case (Cons aid ids)
  let ?s = "s\<lparr>sunsetting_assets := fmupd n (aid # ids) (sunsetting_assets s)\<rparr>"
  have sun: "sunset_inv (asset_core (rwa_assets s)) (fmupd n (aid # ids) (sunsetting_assets s))"
    using rwa_inv_parts(6) [OF Cons.prems] by simp
  obtain a where a: "fmlookup (rwa_assets s) aid = Some a" "asset_status a = Sunsetting n"
    using sunset_inv_next(1) [OF sun] by (auto simp: asset_core_def)
  have step: "retire_scheduled T aid s = finish_retirement T aid a s" using a by (simp add: retire_scheduled_def)
  have "rwa_inv (finish_retirement T aid a (?s\<lparr>sunsetting_assets := fmupd n ids (sunsetting_assets s)\<rparr>))"
    by (rule finish_retirement_inv [OF Cons.prems]) (use a sunset_inv_next(2) [OF sun] in simp_all)
  then have "rwa_inv ((finish_retirement T aid a s)\<lparr>sunsetting_assets := fmupd n ids (sunsetting_assets (finish_retirement T aid a s))\<rparr>)"
    by (simp add: finish_retirement_eq emit_def rwa_inv_def)
  from Cons.IH [OF this] show ?case by (simp add: step finish_retirement_eq emit_def)
qed simp

lemma fmupd_drop: "fmupd k v (fmdrop k m) = fmupd k v m"
  by (rule fmap_ext) simp

lemma sunset_inv_empty: "sunset_inv core (fmupd n [] (fmdrop n sas)) = sunset_inv core (fmdrop n sas)"
proof -
  have "get_or [] (fmupd n [] (fmdrop n sas)) m = get_or [] (fmdrop n sas) m" for m by simp
  then show ?thesis by (simp only: sunset_inv_def)
qed

lemma on_initialize_inv: "rwa_inv s \<Longrightarrow> rwa_inv (on_initialize T n s)"
proof -
  assume I: "rwa_inv s"
  let ?s = "s\<lparr>sunsetting_assets := fmdrop n (sunsetting_assets s)\<rparr>" and ?ids = "get_or [] (sunsetting_assets s) n"
  have "rwa_inv (?s\<lparr>sunsetting_assets := fmupd n ?ids (sunsetting_assets ?s)\<rparr>)"
    using I by (simp add: fmupd_drop rwa_inv_def sunset_inv_def)
  from retire_all_inv [OF this, of T] have "rwa_inv ((on_initialize T n s)\<lparr>sunsetting_assets := fmupd n [] (fmdrop n (sunsetting_assets s))\<rparr>)"
    and eq: "sunsetting_assets (on_initialize T n s) = fmdrop n (sunsetting_assets s)"
    by (simp_all add: on_initialize_def)
  then show ?thesis by (simp add: rwa_inv_def eq sunset_inv_empty)
qed

end
