(* ===== verification/Rwa_Life.thy ===== *)
theory Rwa_Life
  imports Rwa_System
begin

text \<open>
  The life cycle of an asset: what a call may change of it, and what a new block does to the assets
  whose sunset has come. The checks of \<open>do_try_state\<close> follow from the invariant.
\<close>

section \<open>The life cycle of an asset\<close>

definition status_may_become :: "block_number \<Rightarrow> rwa_asset_status \<Rightarrow> rwa_asset_status \<Rightarrow> bool" where
  "status_may_become now a b = (a = b \<or> (case a of
     AssetActive \<Rightarrow> b \<in> {AssetInactive, AssetPaused, Retired} \<or> (\<exists>n>now. b = Sunsetting n)
   | AssetInactive \<Rightarrow> b \<in> {AssetActive, AssetPaused, Retired} \<or> (\<exists>n>now. b = Sunsetting n)
   | AssetPaused \<Rightarrow> b \<in> {AssetActive, Retired}
   | Sunsetting _ \<Rightarrow> b = Retired
   | Retired \<Rightarrow> False))"

definition asset_evolves :: "block_number \<Rightarrow> asset_info \<Rightarrow> asset_info \<Rightarrow> bool" where
  "asset_evolves now a b =
    (status_may_become now (asset_status a) (asset_status b) \<and>
     deposit_currency (policy b) = deposit_currency (policy a) \<and> deposit (policy b) = deposit (policy a) \<and>
     registration_deposit b = registration_deposit a \<and> registered_at b = registered_at a \<and>
     (asset_status a = Retired \<longrightarrow> b = a\<lparr>participant_count := participant_count b\<rparr>))"

lemma asset_evolves_refl [simp]: "asset_evolves now a a"
  by (simp add: asset_evolves_def status_may_become_def)

lemma asset_evolves_count [simp]: "asset_evolves now a (a\<lparr>participant_count := n\<rparr>)"
  by (simp add: asset_evolves_def status_may_become_def)

text \<open>Calls on participations change nothing of the assets but the participant counters.\<close>

definition counts_only :: "(nat, asset_info) fmap \<Rightarrow> (nat, asset_info) fmap \<Rightarrow> bool" where
  "counts_only as as' = (\<forall>aid. map_option (\<lambda>a. a\<lparr>participant_count := 0\<rparr>) (fmlookup as' aid) =
     map_option (\<lambda>a. a\<lparr>participant_count := 0\<rparr>) (fmlookup as aid))"

lemma counts_only_simps [simp]:
  "counts_only as as" "counts_only as (fm_mutate aid (\<lambda>a. a\<lparr>participant_count := f a\<rparr>) as)"
  by (auto simp: counts_only_def option.map_comp comp_def)

lemma counts_only_trans: "\<lbrakk>counts_only as bs; counts_only bs cs\<rbrakk> \<Longrightarrow> counts_only as cs"
  by (simp add: counts_only_def)

text \<open>How a call changes the assets: old ones evolve and a new one is active.\<close>

definition assets_evolve :: "block_number \<Rightarrow> (nat, asset_info) fmap \<Rightarrow> (nat, asset_info) fmap \<Rightarrow> bool" where
  "assets_evolve now as as' = (\<forall>aid. case fmlookup as aid of
     Some a \<Rightarrow> (\<exists>b. fmlookup as' aid = Some b \<and> asset_evolves now a b)
   | None \<Rightarrow> (\<forall>b. fmlookup as' aid = Some b \<longrightarrow> asset_status b = AssetActive))"

lemma assets_evolve_refl [simp]: "assets_evolve now as as"
  by (simp add: assets_evolve_def split: option.splits)

lemma assets_evolve_upd [simp]: "fmlookup as aid = Some a \<Longrightarrow> assets_evolve now as (fmupd aid b as) = asset_evolves now a b"
  by (auto simp: assets_evolve_def split: option.splits)

lemma assets_evolve_Some:
  "\<lbrakk>assets_evolve now as as'; fmlookup as aid = Some a\<rbrakk> \<Longrightarrow> \<exists>b. fmlookup as' aid = Some b \<and> asset_evolves now a b"
  unfolding assets_evolve_def by (drule spec [of _ aid]) simp

lemma assets_evolve_None:
  "\<lbrakk>assets_evolve now as as'; fmlookup as aid = None; fmlookup as' aid = Some b\<rbrakk> \<Longrightarrow> asset_status b = AssetActive"
  unfolding assets_evolve_def by (drule spec [of _ aid]) simp

lemma counts_only_evolve: "counts_only as as' \<Longrightarrow> assets_evolve now as as'"
  unfolding assets_evolve_def
proof (intro allI, split option.split, intro conjI impI allI)
  fix aid a assume "counts_only as as'" "fmlookup as aid = Some a"
  then obtain b where b: "fmlookup as' aid = Some b" "b\<lparr>participant_count := 0\<rparr> = a\<lparr>participant_count := 0\<rparr>"
    unfolding counts_only_def by (metis (no_types, lifting) map_option_eq_Some)
  then have "b = a\<lparr>participant_count := participant_count b\<rparr>"
    by (metis asset_info.surjective asset_info.update_convs(6))
  then show "\<exists>b. fmlookup as' aid = Some b \<and> asset_evolves now a b" using b(1) asset_evolves_count by metis
next
  fix aid b assume "counts_only as as'" "fmlookup as aid = None" "fmlookup as' aid = Some b"
  then show "asset_status b = AssetActive" by (auto simp: counts_only_def dest!: spec [of _ aid])
qed

lemma end_participation_counts [simp]: "counts_only (rwa_assets s) (rwa_assets (end_participation aid pid p st s))"
  and open_participation_counts [simp]: "counts_only (rwa_assets s) (rwa_assets (open_participation T aid pid p s))"
  and reject_one_counts [simp]: "counts_only (rwa_assets s) (rwa_assets (reject_one aid pid p s))"
  by (simp_all add: end_participation_eq participation_effects)

lemma emit_assets [simp]: "rwa_assets (emit e s) = rwa_assets s" "rwa_now (emit e s) = rwa_now s"
  by (simp_all add: emit_def)

lemma transfer_assets: "rwa_do_transfer T cur a b v s = Inr s0 \<Longrightarrow> rwa_assets s0 = rwa_assets s \<and> rwa_now s0 = rwa_now s"
  by (auto dest!: rwa_do_transfer_frame)

lemma pays_back_counts: "pays_back T aid pid p a st v s s' \<Longrightarrow> counts_only (rwa_assets s) (rwa_assets s') \<and> rwa_now s' = rwa_now s"
  by (auto simp: pays_back_def end_participation_eq dest!: rwa_do_transfer_frame)

lemma renews_counts: "renews T aid pid a who s s' \<Longrightarrow> counts_only (rwa_assets s) (rwa_assets s') \<and> rwa_now s' = rwa_now s"
  and rejoins_counts: "rejoins T aid pid a who s s' \<Longrightarrow> counts_only (rwa_assets s) (rwa_assets s') \<and> rwa_now s' = rwa_now s"
  by (auto simp: renews_def rejoins_def participation_effects)

lemma drop_holder_counts: "drop_holder T aid pid p a h e s = Inr s' \<Longrightarrow> counts_only (rwa_assets s) (rwa_assets s') \<and> rwa_now s' = rwa_now s"
  by (drule drop_holder_Inr) (auto dest!: rwa_do_transfer_frame)

lemma reject_all_counts: "reject_all T aid a pids s = (ret, n, s') \<Longrightarrow> counts_only (rwa_assets s) (rwa_assets s') \<and> rwa_now s' = rwa_now s"
proof (induction pids arbitrary: s ret n s')
  case (Cons pid pids)
  have rest: "counts_only (rwa_assets s1) (rwa_assets s') \<and> rwa_now s' = rwa_now s1"
    if "reject_all T aid a pids s1 = (r, k, s')" for s1 r k using Cons.IH that by blast
  have one: "counts_only (rwa_assets s) (rwa_assets (reject_one aid pid p s0)) \<and> rwa_now (reject_one aid pid p s0) = rwa_now s"
    if "rwa_do_transfer T cur x y v s = Inr s0" for p s0 cur x y v
    using transfer_assets [OF that] reject_one_counts [of s0 aid pid p] by (simp add: participation_effects)
  from Cons.prems show ?case
    by (auto simp: Let_def simp flip: reject_one_def split: option.splits if_splits sum.splits prod.splits
        dest!: rest intro: counts_only_trans dest: one)
qed simp

lemma request_participation_counts:
  assumes "request_participation T H org aid hs s = Inr s'"
  shows "counts_only (rwa_assets s) (rwa_assets s') \<and> rwa_now s' = rwa_now s"
proof -
  from request_participation_Inr [OF assms] obtain who a s1 where s1: "collect T a who s = Inr s1"
    and cap: "requires_approval (policy a) \<longrightarrow> length (get_or [] (pending_approvals s) aid) < max_pending_approvals T"
    and en: "enroll T aid a who hs s1 = Inr s'" by blast
  obtain l where l: "s1 = s\<lparr>rwa_ledger := l\<rparr>" using collect_frame [OF s1] by blast
  let ?s = "\<lambda>s'. (open_participation T aid (get_or 0 (next_participation_id s1) aid) (requested aid a who hs (rwa_now s1))
      (s1\<lparr>next_participation_id := fmupd aid (get_or 0 (next_participation_id s1) aid + 1) (next_participation_id s1),
         pending_approvals := (if requires_approval (policy a)
           then fmupd aid (get_or [] (pending_approvals s1) aid @ [get_or 0 (next_participation_id s1) aid]) (pending_approvals s1)
           else pending_approvals s1)\<rparr>))\<lparr>rwa_events := rwa_events s'\<rparr>"
  have "s' = ?s s'" using enroll_Inr [OF en] cap by (simp add: l)
  moreover have "counts_only (rwa_assets s) (rwa_assets (?s x)) \<and> rwa_now (?s x) = rwa_now s" for x
    by (simp add: l participation_effects)
  ultimately show ?thesis by metis
qed

lemma participation_calls_counts:
  "approve_participation T org aid pid s = Inr s' \<Longrightarrow> counts_only (rwa_assets s) (rwa_assets s') \<and> rwa_now s' = rwa_now s"
  "reject_participation T org aid pid s = Inr s' \<Longrightarrow> counts_only (rwa_assets s) (rwa_assets s') \<and> rwa_now s' = rwa_now s"
  "transfer_participation T org aid pid who s = Inr s' \<Longrightarrow> counts_only (rwa_assets s) (rwa_assets s') \<and> rwa_now s' = rwa_now s"
  "add_holder T H org aid pid h s = Inr s' \<Longrightarrow> counts_only (rwa_assets s) (rwa_assets s') \<and> rwa_now s' = rwa_now s"
  by (auto dest!: approve_participation_Inr reject_participation_Inr transfer_participation_Inr add_holder_Inr transfer_assets
      simp: participation_effects add_holder_index_def push_holder_asset_def Let_def)

lemma ending_calls_counts:
  "exit_participation T org aid pid s = Inr s' \<Longrightarrow> counts_only (rwa_assets s) (rwa_assets s') \<and> rwa_now s' = rwa_now s"
  "settle_expired_participation T org aid pid s = Inr s' \<Longrightarrow> counts_only (rwa_assets s) (rwa_assets s') \<and> rwa_now s' = rwa_now s"
  "claim_retired_deposit T org aid pid s = Inr s' \<Longrightarrow> counts_only (rwa_assets s) (rwa_assets s') \<and> rwa_now s' = rwa_now s"
  "revoke_participation T org aid pid s = Inr s' \<Longrightarrow> counts_only (rwa_assets s) (rwa_assets s') \<and> rwa_now s' = rwa_now s"
  by (blast dest!: exit_participation_Inr settle_expired_participation_Inr claim_retired_deposit_Inr revoke_participation_Inr
      dest: pays_back_counts)+

lemma slash_participation_counts:
  "slash_participation T H org aid pid v r s = Inr s' \<Longrightarrow> counts_only (rwa_assets s) (rwa_assets s') \<and> rwa_now s' = rwa_now s"
  by (auto dest!: slash_participation_Inr do_distribute_slash_frame rwa_do_transfer_frame simp: end_participation_eq)

lemma holder_calls_counts:
  "remove_holder T org aid pid h s = Inr s' \<Longrightarrow> counts_only (rwa_assets s) (rwa_assets s') \<and> rwa_now s' = rwa_now s"
  "leave_participation T org aid pid s = Inr s' \<Longrightarrow> counts_only (rwa_assets s) (rwa_assets s') \<and> rwa_now s' = rwa_now s"
  by (blast dest!: remove_holder_Inr leave_participation_Inr dest: drop_holder_counts)+

lemma renew_participation_counts:
  "renew_participation T H org aid pid s = Inr s' \<Longrightarrow> counts_only (rwa_assets s) (rwa_assets s') \<and> rwa_now s' = rwa_now s"
  using renew_participation_Inr [of T H org aid pid s s'] renews_counts rejoins_counts pays_back_counts counts_only_trans
  by metis

lemma batch_reject_pending_counts:
  "batch_reject_pending T org aid s = Inr s' \<Longrightarrow> counts_only (rwa_assets s) (rwa_assets s') \<and> rwa_now s' = rwa_now s"
  by (auto simp: batch_reject_pending_def dispatch_simps case_prod_Inr Let_def dest!: ensure_asset_owner_or_admin_Inr reject_all_counts)

lemmas counting_calls = request_participation_counts participation_calls_counts ending_calls_counts slash_participation_counts
  holder_calls_counts renew_participation_counts batch_reject_pending_counts

lemma counting_evolves:
  "counts_only (rwa_assets s) (rwa_assets s') \<and> rwa_now s' = rwa_now s \<Longrightarrow>
     assets_evolve (rwa_now s) (rwa_assets s) (rwa_assets s') \<and> rwa_now s' = rwa_now s"
  using counts_only_evolve by blast

lemma asset_status_calls_evolve:
  "update_asset_policy T org b pol s = Inr s' \<Longrightarrow> assets_evolve (rwa_now s) (rwa_assets s) (rwa_assets s') \<and> rwa_now s' = rwa_now s"
  "deactivate_asset T org b s = Inr s' \<Longrightarrow> assets_evolve (rwa_now s) (rwa_assets s) (rwa_assets s') \<and> rwa_now s' = rwa_now s"
  "reactivate_asset T org b s = Inr s' \<Longrightarrow> assets_evolve (rwa_now s) (rwa_assets s) (rwa_assets s') \<and> rwa_now s' = rwa_now s"
  "pause_asset T org b s = Inr s' \<Longrightarrow> assets_evolve (rwa_now s) (rwa_assets s) (rwa_assets s') \<and> rwa_now s' = rwa_now s"
  "unpause_asset T org b s = Inr s' \<Longrightarrow> assets_evolve (rwa_now s) (rwa_assets s) (rwa_assets s') \<and> rwa_now s' = rwa_now s"
  "sunset_asset T org b n s = Inr s' \<Longrightarrow> assets_evolve (rwa_now s) (rwa_assets s) (rwa_assets s') \<and> rwa_now s' = rwa_now s"
  by (auto simp: asset_calls sunset_asset_def dispatch_simps put_asset_def Let_def asset_evolves_def status_may_become_def)

lemma owner_calls_evolve:
  "update_beneficiary T org b x s = Inr s' \<Longrightarrow> assets_evolve (rwa_now s) (rwa_assets s) (rwa_assets s') \<and> rwa_now s' = rwa_now s"
  "update_metadata T org b meta s = Inr s' \<Longrightarrow> assets_evolve (rwa_now s) (rwa_assets s) (rwa_assets s') \<and> rwa_now s' = rwa_now s"
  "set_slash_distribution T org b d s = Inr s' \<Longrightarrow> assets_evolve (rwa_now s) (rwa_assets s) (rwa_assets s') \<and> rwa_now s' = rwa_now s"
  "transfer_ownership T org b who s = Inr s' \<Longrightarrow> assets_evolve (rwa_now s) (rwa_assets s) (rwa_assets s') \<and> rwa_now s' = rwa_now s"
  "cancel_ownership_transfer T org b s = Inr s' \<Longrightarrow> assets_evolve (rwa_now s) (rwa_assets s) (rwa_assets s') \<and> rwa_now s' = rwa_now s"
  "accept_ownership T org b s = Inr s' \<Longrightarrow> assets_evolve (rwa_now s) (rwa_assets s) (rwa_assets s') \<and> rwa_now s' = rwa_now s"
  by (auto simp: asset_calls set_slash_distribution_def transfer_ownership_def cancel_ownership_transfer_def accept_ownership_def
      dispatch_simps put_asset_def remove_from_owner_assets_def Let_def asset_evolves_def status_may_become_def
      dest!: ensure_asset_owner_or_admin_Inr)

lemma unschedule_frame [simp]: "rwa_assets (unschedule aid n s) = rwa_assets s" "rwa_now (unschedule aid n s) = rwa_now s"
  "rwa_assets (case st of Sunsetting m \<Rightarrow> unschedule aid m s | _ \<Rightarrow> s) = rwa_assets s"
  "rwa_now (case st of Sunsetting m \<Rightarrow> unschedule aid m s | _ \<Rightarrow> s) = rwa_now s"
  by (simp_all add: unschedule_def split: rwa_asset_status.splits)

lemma retired_evolves: "asset_status a \<noteq> Retired \<Longrightarrow> asset_evolves now a (a\<lparr>asset_status := Retired\<rparr>)"
  by (cases "asset_status a") (auto simp: asset_evolves_def status_may_become_def)

lemma retiring_calls_evolve:
  "force_retire_asset T H org b s = Inr s' \<Longrightarrow> assets_evolve (rwa_now s) (rwa_assets s) (rwa_assets s') \<and> rwa_now s' = rwa_now s"
  "retire_asset T org b s = Inr s' \<Longrightarrow> assets_evolve (rwa_now s) (rwa_assets s) (rwa_assets s') \<and> rwa_now s' = rwa_now s"
  by (auto simp: force_retire_asset_def retire_asset_def dispatch_simps sunsetting_Inr finish_retirement_eq Let_def
      intro!: retired_evolves)

lemma register_asset_evolves:
  assumes "rwa_inv s" "register_asset T org b pol meta s = Inr s'"
  shows "assets_evolve (rwa_now s) (rwa_assets s) (rwa_assets s') \<and> rwa_now s' = rwa_now s"
proof -
  have "fmlookup (rwa_assets s) (next_rwa_asset_id s) = None"
    using assms(1) unfolding rwa_inv_def asset_core_def by (metis less_irrefl option.map_disc_iff)
  then show ?thesis using register_asset_Inr [OF assms(2)] by (auto simp: assets_evolve_def split: option.splits if_splits)
qed

theorem rwa_dispatch_evolves:
  assumes "rwa_dispatch T H org call s = Inr s'" "rwa_inv s"
  shows "assets_evolve (rwa_now s) (rwa_assets s) (rwa_assets s') \<and> rwa_now s' = rwa_now s"
  using assms(1)
  by (cases call)
    (simp_all only: rwa_dispatch.simps,
      (rule register_asset_evolves [OF assms(2)] asset_status_calls_evolve owner_calls_evolve retiring_calls_evolve
        counting_calls [THEN counting_evolves], assumption)+)

section \<open>New blocks\<close>

lemma retire_scheduled_assets:
  assumes "fmlookup (rwa_assets s) aid = Some a"
  shows "fmlookup (rwa_assets (retire_scheduled T c s)) aid = Some (if aid = c then a\<lparr>asset_status := Retired\<rparr> else a)"
  using assms by (auto simp: retire_scheduled_def finish_retirement_eq split: option.splits)

lemma retire_all_assets:
  "fmlookup (rwa_assets s) aid = Some a \<Longrightarrow>
    fmlookup (rwa_assets (fold (retire_scheduled T) ids s)) aid = Some (if aid \<in> set ids then a\<lparr>asset_status := Retired\<rparr> else a)"
proof (induction ids arbitrary: s a)
  case (Cons c ids)
  from Cons.IH [OF retire_scheduled_assets [OF Cons.prems, of T c]] show ?case by simp
qed simp

lemma retire_all_frame:
  "fmlookup (rwa_assets s) aid = None \<Longrightarrow> fmlookup (rwa_assets (fold (retire_scheduled T) ids s)) aid = None"
  "rwa_now (fold (retire_scheduled T) ids s) = rwa_now s"
  by (induction ids arbitrary: s) (auto simp: retire_scheduled_def finish_retirement_eq split: option.splits)

text \<open>The hook of a block retires exactly the assets whose sunset falls on it.\<close>

lemma on_initialize_assets:
  assumes "rwa_inv s"
  shows "fmlookup (rwa_assets (on_initialize T n s)) aid =
    map_option (\<lambda>a. if asset_status a = Sunsetting n then a\<lparr>asset_status := Retired\<rparr> else a) (fmlookup (rwa_assets s) aid)"
proof (cases "fmlookup (rwa_assets s) aid")
  case None
  then show ?thesis by (simp add: on_initialize_def retire_all_frame)
next
  case (Some a)
  have "aid \<in> set (get_or [] (sunsetting_assets s) n) \<longleftrightarrow> asset_status a = Sunsetting n"
    using rwa_inv_parts(6) [OF assms] Some by (simp add: sunset_inv_def)
  then show ?thesis using retire_all_assets [of "s\<lparr>sunsetting_assets := fmdrop n (sunsetting_assets s)\<rparr>" aid a] Some
    by (simp add: on_initialize_def)
qed

section \<open>The transition system\<close>

inductive rwa_step ::
  "'l rwa_config \<Rightarrow> ('l \<Rightarrow> 'l \<Rightarrow> bool) \<Rightarrow> (origin \<Rightarrow> rwa_call \<Rightarrow> 'l rwa_state \<Rightarrow> bool) \<Rightarrow> 'l rwa_state \<Rightarrow> 'l rwa_state \<Rightarrow> bool"
  for T env ok where
  rwa_call: "\<lbrakk>rwa_dispatch T H org call s = Inr s'; ok org call s\<rbrakk> \<Longrightarrow> rwa_step T env ok s s'"
| rwa_failed: "rwa_dispatch T H org call s = Inl e \<Longrightarrow> rwa_step T env ok s s"
| rwa_block: "rwa_step T env ok s (on_initialize T (rwa_now s + 1) (s\<lparr>rwa_now := rwa_now s + 1\<rparr>))"
| rwa_elsewhere: "env (rwa_ledger s) l \<Longrightarrow> rwa_step T env ok s (s\<lparr>rwa_ledger := l\<rparr>)"

definition rwa_start :: "('l \<Rightarrow> bool) \<Rightarrow> 'l rwa_state \<Rightarrow> bool" where
  "rwa_start J s = (\<exists>now l. J l \<and> s = rwa_init now l)"

text \<open>No sunset is overdue.\<close>

definition sunsets_ahead :: "'l rwa_state \<Rightarrow> bool" where
  "sunsets_ahead s = (\<forall>aid a n. fmlookup (rwa_assets s) aid = Some a \<longrightarrow> asset_status a = Sunsetting n \<longrightarrow> rwa_now s < n)"

lemma sunsets_ahead_call:
  assumes "assets_evolve (rwa_now s) (rwa_assets s) (rwa_assets s') \<and> rwa_now s' = rwa_now s" "sunsets_ahead s"
  shows "sunsets_ahead s'"
  unfolding sunsets_ahead_def
proof (intro allI impI)
  fix aid b n assume b: "fmlookup (rwa_assets s') aid = Some b" "asset_status b = Sunsetting n"
  obtain a where a: "fmlookup (rwa_assets s) aid = Some a"
    using assets_evolve_None [OF conjunct1 [OF assms(1)]] b by (cases "fmlookup (rwa_assets s) aid") auto
  then have "asset_evolves (rwa_now s) a b" using assets_evolve_Some [OF conjunct1 [OF assms(1)] a] b by auto
  then show "rwa_now s' < n"
    using assms a b by (auto simp: asset_evolves_def status_may_become_def sunsets_ahead_def split: rwa_asset_status.splits)
qed

lemma sunsets_ahead_block:
  assumes "rwa_inv s" "sunsets_ahead s"
  shows "sunsets_ahead (on_initialize T (rwa_now s + 1) (s\<lparr>rwa_now := rwa_now s + 1\<rparr>))"
proof -
  let ?s = "s\<lparr>rwa_now := rwa_now s + 1\<rparr>"
  have now: "rwa_now (on_initialize T (rwa_now s + 1) ?s) = rwa_now s + 1" by (simp add: on_initialize_def retire_all_frame)
  have "rwa_now s + 1 < n" if "fmlookup (rwa_assets (on_initialize T (rwa_now s + 1) ?s)) aid = Some b" "asset_status b = Sunsetting n" for aid b n
  proof -
    have "fmlookup (rwa_assets s) aid = Some b \<and> asset_status b \<noteq> Sunsetting (rwa_now s + 1)"
      using that on_initialize_assets [of ?s T "rwa_now s + 1" aid] assms(1)
      by (cases "fmlookup (rwa_assets s) aid") (auto split: if_splits)
    then have "rwa_now s < n" "n \<noteq> rwa_now s + 1" using assms(2) that(2) by (auto simp: sunsets_ahead_def)
    then show ?thesis by simp
  qed
  then show ?thesis unfolding sunsets_ahead_def now by blast
qed

lemma rwa_step_inv:
  assumes I: "rwa_inv s \<and> sunsets_ahead s" and "rwa_step T env ok s s'"
  shows "rwa_inv s' \<and> sunsets_ahead s'"
  using assms(2)
proof cases
  case (rwa_call H org call)
  then show ?thesis using I rwa_dispatch_inv sunsets_ahead_call rwa_dispatch_evolves by metis
next
  case rwa_block
  then show ?thesis using I sunsets_ahead_block [of s T] by (simp add: on_initialize_inv)
next
  case (rwa_elsewhere l)
  then show ?thesis using I by (simp add: sunsets_ahead_def)
qed (use I in simp)

lemma rwa_reachable_inv:
  assumes "reachable (rwa_start J) (rwa_step T env ok) s"
  shows "rwa_inv s \<and> sunsets_ahead s"
  using assms
proof (rule reachable_invariant)
  fix s :: "'a rwa_state" assume "rwa_start J s"
  then show "rwa_inv s \<and> sunsets_ahead s"
    by (auto simp: rwa_start_def rwa_init_inv) (simp add: sunsets_ahead_def rwa_init_def)
qed (rule rwa_step_inv)

section \<open>The consistency checks\<close>

lemma fmpred_iff_lookup: "fmpred P m \<longleftrightarrow> (\<forall>k v. fmlookup m k = Some v \<longrightarrow> P k v)"
  by (auto simp: fmpred_iff)

lemma fold_add32: "acc \<le> u32_max \<Longrightarrow> fold (\<lambda>r acc. add32 acc (share r)) d acc = min u32_max (acc + sum_list (map share d))"
  by (induction d arbitrary: acc) (auto simp: sat_add_def min_def)

lemma fold_permill:
  "acc \<le> permill_accuracy \<Longrightarrow>
     fold (\<lambda>r acc. permill_from_parts (add32 acc (share r))) d acc = min permill_accuracy (acc + sum_list (map share d))"
proof (induction d arbitrary: acc)
  case (Cons r d)
  have "permill_from_parts (add32 acc (share r)) = min permill_accuracy (acc + share r)"
    by (simp add: permill_from_parts_def sat_add_def permill_accuracy_def u32_max_def min_def)
  then show ?case using Cons by (auto simp: min_def)
qed simp

lemma total_parts_sum: "total_parts d = permill_accuracy \<longleftrightarrow> sum_list (map share d) = permill_accuracy"
  using fold_add32 [of 0 d] by (auto simp: total_parts_def min_def permill_accuracy_def u32_max_def split: if_splits)

lemma owner_entry:
  assumes "rwa_inv s" "fmlookup (owner_assets s) who = Some ids" "aid \<in> set ids"
  shows "\<exists>a. fmlookup (rwa_assets s) aid = Some a \<and> owner a = who \<and> asset_status a \<noteq> Retired"
proof -
  have "aid \<in> set (get_or [] (owner_assets s) who)" using assms(2,3) by simp
  then show ?thesis using rwa_inv_parts(5) [OF assms(1)] unfolding owners_inv_def asset_core_def by auto
qed

lemma index_entry:
  assumes "rwa_inv s" "fmlookup (holder_index s) (aid, h) = Some pid"
  shows "\<exists>p. fmlookup (participations s) (aid, pid) = Some p \<and> counted p \<and> h \<in> set (holders p)"
proof -
  have "h \<in> active_holders (participations s) aid pid" using rwa_inv_parts(3) [OF assms(1)] assms(2) unfolding index_inv_def by blast
  then show ?thesis by (auto simp: active_holders_def split: option.splits if_splits)
qed

lemma holder_entry:
  assumes "rwa_inv s" "fmlookup (holder_assets s) h = Some ids" "aid \<in> set ids"
  shows "contains_key (holder_index s) (aid, h)"
proof -
  have "aid \<in> set (get_or [] (holder_assets s) h)" using assms(2,3) by simp
  then show ?thesis using rwa_inv_parts(3) [OF assms(1)] unfolding index_inv_def by blast
qed

lemma pending_entry:
  assumes "rwa_inv s" "fmlookup (pending_approvals s) aid = Some pids" "pid \<in> set pids"
  shows "\<exists>p. fmlookup (participations s) (aid, pid) = Some p \<and> participation_status p = PendingApproval"
proof -
  have "pid \<in> set (get_or [] (pending_approvals s) aid)" using assms(2,3) by simp
  then have "is_pending (participations s) aid pid" using rwa_inv_parts(4) [OF assms(1)] unfolding pending_inv_def by blast
  then show ?thesis by (auto simp: is_pending_def split: option.splits)
qed

lemma sunset_entry:
  assumes "rwa_inv s" "fmlookup (sunsetting_assets s) n = Some ids" "aid \<in> set ids"
  shows "\<exists>a. fmlookup (rwa_assets s) aid = Some a \<and> asset_status a = Sunsetting n"
proof -
  have "aid \<in> set (get_or [] (sunsetting_assets s) n)" using assms(2,3) by simp
  then show ?thesis using rwa_inv_parts(6) [OF assms(1)] unfolding sunset_inv_def asset_core_def by auto
qed

lemma transfer_entry:
  assumes "rwa_inv s" "fmlookup (pending_ownership_transfer s) aid = Some who"
  shows "\<exists>a. fmlookup (rwa_assets s) aid = Some a \<and> owner a \<noteq> who \<and> asset_status a \<noteq> Retired"
  using rwa_inv_parts(7) [OF assms(1)] assms(2) unfolding transfers_inv_def asset_core_def by fastforce

lemma check_parts_ok:
  assumes "rwa_inv s"
  shows "check_owner_assets s = Inr ()" "check_indexes s = Inr ()" "check_pending s = Inr ()"
    "check_sunsetting s = Inr ()" "check_transfers s = Inr ()"
  unfolding check_owner_assets_def check_indexes_def check_pending_def check_sunsetting_def check_transfers_def dispatch_simps
    fmpred_iff_lookup list_all_iff contains_key_def
  by (auto dest: owner_entry [OF assms] index_entry [OF assms] holder_entry [OF assms, unfolded contains_key_def] pending_entry [OF assms]
      sunset_entry [OF assms] transfer_entry [OF assms])

theorem rwa_try_state_ok:
  assumes "rwa_inv s"
  shows "rwa_try_state s = Inr ()"
proof -
  have count: "members (participations s) aid mod (u32_max + 1) = participant_count a" if "fmlookup (rwa_assets s) aid = Some a" for aid a
  proof -
    have "members (participations s) aid \<le> u32_max"
      using members_le [OF rwa_inv_parts(1) [OF assms], of aid] rwa_inv_parts(1) [OF assms]
      by (auto simp: parts_inv_def intro: order_trans)
    then show ?thesis using rwa_inv_parts(2) [OF assms] that by (simp add: counts_inv_def)
  qed
  have "aid < next_rwa_asset_id s" if "fmlookup (rwa_assets s) aid = Some a" for aid a
    using assms that by (simp add: rwa_inv_def asset_core_def)
  moreover have "fold (\<lambda>r acc. permill_from_parts (add32 acc (share r))) d 0 = permill_accuracy"
    if "fmlookup (asset_slash_distribution s) aid = Some d" for aid d
    using assms that fold_permill [of 0 d] by (simp add: rwa_inv_def total_parts_sum)
  ultimately show ?thesis
    using count check_parts_ok [OF assms] unfolding rwa_try_state_def members_def
    by (simp add: fmpred_iff_lookup ensure_def)
qed

end
