(* ===== verification/Rwa_Escrow.thy ===== *)
theory Rwa_Escrow
  imports Rwa_Life Payments
begin

text \<open>
  The escrow of the pallet for real-world assets: its account holds, in every currency, the deposits
  of the open participations and the fees of the requests that are not yet approved. The proofs are
  over the contract \<open>payments\<close> of the currency parameters.
\<close>

section \<open>What the pallet owes\<close>

definition held :: "participation \<Rightarrow> balance" where
  "held p = (if counted p then deposit_held p + (if participation_status p = PendingApproval then entry_fee_paid p else 0) else 0)"

definition held_in :: "(nat, asset_info) fmap \<Rightarrow> payment_currency \<Rightarrow> nat \<times> nat \<Rightarrow> participation \<Rightarrow> balance" where
  "held_in assets cur k p = (case fmlookup assets (fst k) of
     Some a \<Rightarrow> if deposit_currency (policy a) = cur then held p else 0 | None \<Rightarrow> 0)"

definition escrow :: "(nat, asset_info) fmap \<Rightarrow> (nat \<times> nat, participation) fmap \<Rightarrow> payment_currency \<Rightarrow> balance" where
  "escrow assets ps cur = fmsum (held_in assets cur) ps"

definition escrow_covered :: "'l rwa_config \<Rightarrow> 'l rwa_state \<Rightarrow> bool" where
  "escrow_covered T s =
    (\<forall>cur. escrow (rwa_assets s) (participations s) cur \<le> pay_balance (rwa_currency T) (rwa_ledger s) cur (pallet_account T))"

definition owners_outside :: "'l rwa_config \<Rightarrow> 'l rwa_state \<Rightarrow> bool" where
  "owners_outside T s = (\<forall>aid a. fmlookup (rwa_assets s) aid = Some a \<longrightarrow> owner a \<noteq> pallet_account T)"

text \<open>
  The amounts of a slash: every recipient but the last gets the rounded share, the last one what is
  left. A slash is exact when the rounded shares fit the amount, and safe when a burn cannot take the
  account below the minimum balance of the currency.
\<close>

fun share_amounts :: "balance \<Rightarrow> balance \<Rightarrow> slash_recipient list \<Rightarrow> balance list" where
  "share_amounts tot distributed [] = []"
| "share_amounts tot distributed (r # rs) =
     (let v = (if rs = [] then tot - distributed else permill_mul (share r) tot) in
      v # share_amounts tot (add128 distributed v) rs)"

definition slash_safe :: "'l rwa_config \<Rightarrow> ('l \<Rightarrow> nat \<Rightarrow> balance) \<Rightarrow> nat \<Rightarrow> balance \<Rightarrow> 'l rwa_state \<Rightarrow> bool" where
  "slash_safe T amin aid amount s =
    (case (fmlookup (rwa_assets s) aid, fmlookup (asset_slash_distribution s) aid) of
       (Some a, Some d) \<Rightarrow>
         sum_list (share_amounts amount 0 d) \<le> amount \<and>
         ((\<exists>r\<in>set d. slash_kind r = ToBurn) \<longrightarrow>
           pay_minimum (rwa_currency T) amin (rwa_ledger s) (deposit_currency (policy a)) + amount
             \<le> pay_balance (rwa_currency T) (rwa_ledger s) (deposit_currency (policy a)) (pallet_account T))
     | _ \<Rightarrow> True)"

text \<open>
  The calls for which the escrow is exact: nobody signs for the account of the pallet, a request or
  a renewal finds room in the counters of the asset it pays with, and a slash is exact and safe.
\<close>

definition rwa_call_ok ::
  "'l rwa_config \<Rightarrow> ('l \<Rightarrow> nat \<Rightarrow> bool) \<Rightarrow> ('l \<Rightarrow> nat \<Rightarrow> balance) \<Rightarrow> origin \<Rightarrow> rwa_call \<Rightarrow> 'l rwa_state \<Rightarrow> bool" where
  "rwa_call_ok T room amin org call s =
    (org \<noteq> Signed (pallet_account T) \<and>
     (case call of
        RequestParticipation aid _ \<Rightarrow> (case fmlookup (rwa_assets s) aid of
          Some a \<Rightarrow> deposit (policy a) + entry_fee (policy a) \<le> u128_max \<and>
            pay_room room (rwa_ledger s) (deposit_currency (policy a)) | None \<Rightarrow> True)
      | RenewParticipation aid pid \<Rightarrow> (case fmlookup (rwa_assets s) aid of
          Some a \<Rightarrow> pay_room room (rwa_ledger s) (deposit_currency (policy a)) \<and>
            (deposit_currency (policy a) = Native \<or>
             effective_participation_status aid pid s = map_option participation_status (fmlookup (participations s) (aid, pid)))
          | None \<Rightarrow> True)
      | SlashParticipation aid _ amount _ \<Rightarrow> slash_safe T amin aid amount s
      | _ \<Rightarrow> True))"

lemma held_simps [simp]:
  "is_participating (participation_status p) \<Longrightarrow> held p = deposit_held p"
  "\<not> counted p \<Longrightarrow> held p = 0"
  by (auto simp: held_def is_participating_def counted_def)

lemma held_pending: "participation_status p = PendingApproval \<Longrightarrow> held p = deposit_held p + entry_fee_paid p"
  by (simp add: held_def counted_def)

lemma held_ge: "counted p \<Longrightarrow> add128 (deposit_held p) (if participation_status p = PendingApproval then entry_fee_paid p else 0) \<le> held p"
  using sat_add_le_sum by (simp add: held_def)

lemma escrow_step:
  assumes "agree_off (aid, pid) ps ps'" "fmlookup assets aid = Some a"
  shows "escrow assets ps' cur + (if cur = deposit_currency (policy a) then opt_nat held (fmlookup ps (aid, pid)) else 0) =
    escrow assets ps cur + (if cur = deposit_currency (policy a) then opt_nat held (fmlookup ps' (aid, pid)) else 0)"
  using fmsum_agree [of "(aid, pid)" ps' ps "held_in assets cur"] assms
  by (auto simp: escrow_def agree_off_def held_in_def opt_nat_def split: option.splits if_splits)

lemma escrow_assets:
  assumes "\<And>aid pid p. fmlookup ps (aid, pid) = Some p \<Longrightarrow> \<exists>a. fmlookup assets aid = Some a"
    and "assets_evolve now assets assets'"
  shows "escrow assets' ps cur = escrow assets ps cur"
  unfolding escrow_def
proof (rule fmsum_cong)
  fix k p assume "fmlookup ps k = Some p"
  then obtain a where a: "fmlookup assets (fst k) = Some a" using assms(1) by (metis surjective_pairing)
  then obtain b where "fmlookup assets' (fst k) = Some b" "deposit_currency (policy b) = deposit_currency (policy a)"
    using assets_evolve_Some [OF assms(2) a] by (auto simp: asset_evolves_def)
  then show "held_in assets' cur k p = held_in assets cur k p" using a by (simp add: held_in_def)
qed

text \<open>How the balances of an account move: what it gains covers what it newly owes.\<close>

definition account_moves ::
  "'l currencies \<Rightarrow> account_id \<Rightarrow> payment_currency \<Rightarrow> balance \<Rightarrow> balance \<Rightarrow> 'l \<Rightarrow> 'l \<Rightarrow> bool" where
  "account_moves K acct c old new l l' =
    (\<forall>cur. pay_balance K l cur acct + (if cur = c then new else 0) \<le> pay_balance K l' cur acct + (if cur = c then old else 0))"

lemma account_moves_refl [simp]: "new \<le> old \<Longrightarrow> account_moves K acct c old new l l"
  by (simp add: account_moves_def)

lemma account_moves_trans:
  assumes "account_moves K acct c o1 n1 l l1" "account_moves K acct c o2 n2 l1 l2"
  shows "account_moves K acct c (o1 + o2) (n1 + n2) l l2"
  unfolding account_moves_def
proof
  fix cur
  show "pay_balance K l cur acct + (if cur = c then n1 + n2 else 0) \<le> pay_balance K l2 cur acct + (if cur = c then o1 + o2 else 0)"
    using assms [unfolded account_moves_def, rule_format, of cur] by (simp split: if_splits)
qed

lemma account_moves_weaken:
  assumes "account_moves K acct c o1 n1 l l'" "o1 + n2 \<le> o2 + n1"
  shows "account_moves K acct c o2 n2 l l'"
  unfolding account_moves_def
proof
  fix cur
  show "pay_balance K l cur acct + (if cur = c then n2 else 0) \<le> pay_balance K l' cur acct + (if cur = c then o2 else 0)"
    using assms(1) [unfolded account_moves_def, rule_format, of cur] assms(2) by (simp split: if_splits)
qed

text \<open>A call on one participation keeps the escrow covered when the account moves with what is held.\<close>

lemma escrow_covered_step:
  assumes "rwa_inv s" "escrow_covered T s" "fmlookup (rwa_assets s) aid = Some a"
    and "agree_off (aid, pid) (participations s) (participations s')"
    and "assets_evolve now (rwa_assets s) (rwa_assets s')"
    and "account_moves (rwa_currency T) (pallet_account T) (deposit_currency (policy a))
      (opt_nat held (fmlookup (participations s) (aid, pid))) (opt_nat held (fmlookup (participations s') (aid, pid)))
      (rwa_ledger s) (rwa_ledger s')"
  shows "escrow_covered T s'"
  unfolding escrow_covered_def
proof
  fix cur
  have exists: "\<exists>b. fmlookup (rwa_assets s) c = Some b" if "fmlookup (participations s') (c, q) = Some p" for c q p
    using assms(3,4) that participation_facts(1) [OF assms(1)] by (cases "(c, q) = (aid, pid)") (auto simp: agree_off_def)
  have "escrow (rwa_assets s') (participations s') cur = escrow (rwa_assets s) (participations s') cur"
    by (rule escrow_assets [OF exists assms(5)])
  then show "escrow (rwa_assets s') (participations s') cur \<le> pay_balance (rwa_currency T) (rwa_ledger s') cur (pallet_account T)"
    using escrow_step [OF assms(4,3), of cur] assms(2) [unfolded escrow_covered_def, rule_format, of cur]
      assms(6) [unfolded account_moves_def, rule_format, of cur]
    by (simp split: if_splits)
qed

lemma escrow_covered_assets:
  assumes "rwa_inv s" "escrow_covered T s" "participations s' = participations s"
    and "assets_evolve now (rwa_assets s) (rwa_assets s')"
    and "account_moves (rwa_currency T) (pallet_account T) c 0 0 (rwa_ledger s) (rwa_ledger s')"
  shows "escrow_covered T s'"
  unfolding escrow_covered_def
proof
  fix cur
  have "escrow (rwa_assets s') (participations s') cur = escrow (rwa_assets s) (participations s) cur"
    unfolding assms(3) by (rule escrow_assets [OF participation_facts(1) [OF assms(1)] assms(4)])
  then show "escrow (rwa_assets s') (participations s') cur \<le> pay_balance (rwa_currency T) (rwa_ledger s') cur (pallet_account T)"
    using assms(2) [unfolded escrow_covered_def, rule_format, of cur] assms(5) [unfolded account_moves_def, rule_format, of cur]
    by (simp split: if_splits)
qed

lemma escrow_covered_frame [simp]:
  "escrow_covered T (s\<lparr>pending_approvals := x\<rparr>) = escrow_covered T s" "escrow_covered T (emit e s) = escrow_covered T s"
  "rwa_ledger (emit e s) = rwa_ledger s" "participations (emit e s) = participations s"
  by (simp_all add: escrow_covered_def emit_def)

lemma quiet_calls_frame:
  "update_asset_policy T org aid pol s = Inr s' \<Longrightarrow> participations s' = participations s \<and> rwa_ledger s' = rwa_ledger s"
  "deactivate_asset T org aid s = Inr s' \<Longrightarrow> participations s' = participations s \<and> rwa_ledger s' = rwa_ledger s"
  "reactivate_asset T org aid s = Inr s' \<Longrightarrow> participations s' = participations s \<and> rwa_ledger s' = rwa_ledger s"
  "pause_asset T org aid s = Inr s' \<Longrightarrow> participations s' = participations s \<and> rwa_ledger s' = rwa_ledger s"
  "unpause_asset T org aid s = Inr s' \<Longrightarrow> participations s' = participations s \<and> rwa_ledger s' = rwa_ledger s"
  "sunset_asset T org aid n s = Inr s' \<Longrightarrow> participations s' = participations s \<and> rwa_ledger s' = rwa_ledger s"
  "update_beneficiary T org aid x s = Inr s' \<Longrightarrow> participations s' = participations s \<and> rwa_ledger s' = rwa_ledger s"
  "update_metadata T org aid meta s = Inr s' \<Longrightarrow> participations s' = participations s \<and> rwa_ledger s' = rwa_ledger s"
  "set_slash_distribution T org aid d s = Inr s' \<Longrightarrow> participations s' = participations s \<and> rwa_ledger s' = rwa_ledger s"
  "transfer_ownership T org aid who s = Inr s' \<Longrightarrow> participations s' = participations s \<and> rwa_ledger s' = rwa_ledger s"
  "cancel_ownership_transfer T org aid s = Inr s' \<Longrightarrow> participations s' = participations s \<and> rwa_ledger s' = rwa_ledger s"
  by (auto simp: asset_calls sunset_asset_def set_slash_distribution_def transfer_ownership_def cancel_ownership_transfer_def
      dispatch_simps put_asset_def Let_def dest!: ensure_asset_owner_or_admin_Inr)

lemma retire_all_parts: "participations (fold (retire_scheduled T) ids s) = participations s"
  by (induction ids arbitrary: s) (auto simp: retire_scheduled_def finish_retirement_eq split: option.splits)

text \<open>Owners are signers, or owned the asset before.\<close>

definition owners_signed :: "origin \<Rightarrow> (nat, asset_info) fmap \<Rightarrow> (nat, asset_info) fmap \<Rightarrow> bool" where
  "owners_signed org as as' = (\<forall>aid b. fmlookup as' aid = Some b \<longrightarrow>
     (\<exists>a. fmlookup as aid = Some a \<and> owner a = owner b) \<or> org = Signed (owner b))"

lemma owners_signed_refl [simp]: "owners_signed org as as"
  by (auto simp: owners_signed_def)

lemma owners_signed_upd [simp]:
  "fmlookup as aid = Some a \<Longrightarrow> owner b = owner a \<or> org = Signed (owner b) \<Longrightarrow> owners_signed org as (fmupd aid b as)"
  by (auto simp: owners_signed_def)

lemma counts_only_owners: "counts_only as as' \<Longrightarrow> owners_signed org as as'"
  unfolding owners_signed_def
proof (intro allI impI disjI1)
  fix aid b assume "counts_only as as'" "fmlookup as' aid = Some b"
  then obtain a where a: "fmlookup as aid = Some a" "b\<lparr>participant_count := 0\<rparr> = a\<lparr>participant_count := 0\<rparr>"
    unfolding counts_only_def by (metis (no_types, lifting) map_option_eq_Some)
  then have "owner b = owner a" by (metis asset_info.select_convs(1) asset_info.surjective asset_info.update_convs(6))
  then show "\<exists>a. fmlookup as aid = Some a \<and> owner a = owner b" using a(1) by auto
qed

lemma owner_calls_signed:
  "update_asset_policy T org aid pol s = Inr s' \<Longrightarrow> owners_signed org (rwa_assets s) (rwa_assets s')"
  "deactivate_asset T org aid s = Inr s' \<Longrightarrow> owners_signed org (rwa_assets s) (rwa_assets s')"
  "reactivate_asset T org aid s = Inr s' \<Longrightarrow> owners_signed org (rwa_assets s) (rwa_assets s')"
  "pause_asset T org aid s = Inr s' \<Longrightarrow> owners_signed org (rwa_assets s) (rwa_assets s')"
  "unpause_asset T org aid s = Inr s' \<Longrightarrow> owners_signed org (rwa_assets s) (rwa_assets s')"
  "sunset_asset T org aid n s = Inr s' \<Longrightarrow> owners_signed org (rwa_assets s) (rwa_assets s')"
  "update_beneficiary T org aid x s = Inr s' \<Longrightarrow> owners_signed org (rwa_assets s) (rwa_assets s')"
  "update_metadata T org aid meta s = Inr s' \<Longrightarrow> owners_signed org (rwa_assets s) (rwa_assets s')"
  "set_slash_distribution T org aid d s = Inr s' \<Longrightarrow> owners_signed org (rwa_assets s) (rwa_assets s')"
  "transfer_ownership T org aid who s = Inr s' \<Longrightarrow> owners_signed org (rwa_assets s) (rwa_assets s')"
  "cancel_ownership_transfer T org aid s = Inr s' \<Longrightarrow> owners_signed org (rwa_assets s) (rwa_assets s')"
  "accept_ownership T org aid s = Inr s' \<Longrightarrow> owners_signed org (rwa_assets s) (rwa_assets s')"
  "force_retire_asset T H org aid s = Inr s' \<Longrightarrow> owners_signed org (rwa_assets s) (rwa_assets s')"
  "retire_asset T org aid s = Inr s' \<Longrightarrow> owners_signed org (rwa_assets s) (rwa_assets s')"
  by (auto simp: asset_calls sunset_asset_def set_slash_distribution_def transfer_ownership_def cancel_ownership_transfer_def
      accept_ownership_def force_retire_asset_def retire_asset_def sunsetting_Inr finish_retirement_eq remove_from_owner_assets_def
      dispatch_simps put_asset_def Let_def dest!: ensure_asset_owner_or_admin_Inr)

lemma register_asset_signed: "register_asset T org b pol meta s = Inr s' \<Longrightarrow> owners_signed org (rwa_assets s) (rwa_assets s')"
  by (auto dest!: register_asset_Inr simp: owners_signed_def split: if_splits)

lemma rwa_dispatch_signed: "rwa_dispatch T H org call s = Inr s' \<Longrightarrow> owners_signed org (rwa_assets s) (rwa_assets s')"
  by (cases call)
    (simp_all only: rwa_dispatch.simps,
      (rule register_asset_signed owner_calls_signed counting_calls [THEN conjunct1, THEN counts_only_owners], assumption)+)

lemma owners_outside_call:
  "\<lbrakk>rwa_dispatch T H org call s = Inr s'; owners_outside T s; org \<noteq> Signed (pallet_account T)\<rbrakk> \<Longrightarrow> owners_outside T s'"
  using rwa_dispatch_signed [of T H org call s s'] by (fastforce simp: owners_outside_def owners_signed_def)

text \<open>The rest of the chain keeps what the account of the pallet holds.\<close>

definition rwa_env :: "'l currencies \<Rightarrow> ('l \<Rightarrow> bool) \<Rightarrow> account_id \<Rightarrow> 'l \<Rightarrow> 'l \<Rightarrow> bool" where
  "rwa_env C J acct l l' = (J l' \<and> (\<forall>cur. pay_balance C l cur acct \<le> pay_balance C l' cur acct))"

section \<open>Payments of the pallet\<close>

definition rwa_burn :: "'l rwa_config \<Rightarrow> payment_currency \<Rightarrow> account_id \<Rightarrow> balance \<Rightarrow> 'l \<Rightarrow> 'l dispatch_result" where
  "rwa_burn T cur who v l =
    (if v = 0 then Inr l
     else (case cur of
         Native \<Rightarrow> try_bind (native_withdraw (rwa_currency T) who v KeepAlive l)
           (\<lambda>(imbalance, l). Inr (native_drop_imbalance (rwa_currency T) imbalance l))
       | Asset i \<Rightarrow> fungibles_burn (rwa_currency T) i who v Expendable Exact l))"

lemma rwa_do_burn_pay:
  "rwa_do_burn T cur who v s = Inr s' \<longleftrightarrow> (\<exists>l. rwa_burn T cur who v (rwa_ledger s) = Inr l \<and> s' = s\<lparr>rwa_ledger := l\<rparr>)"
  by (auto simp: rwa_do_burn_def rwa_burn_def dispatch_simps)

lemma enroll_fields:
  assumes "enroll T aid a who hs s = Inr s'"
  shows "participations s' = fmupd (aid, get_or 0 (next_participation_id s) aid) (requested aid a who hs (rwa_now s)) (participations s)"
    "rwa_ledger s' = rwa_ledger s"
  using assms
  by (cases "requires_approval (policy a)"; auto simp: enroll_def requested_def participation_effects Let_def dispatch_simps)+

context payments
begin

lemma rwa_pay_effect:
  assumes K: "rwa_currency T = K" and i: "inv l" and t: "rwa_pay T cur a b v l = Inr l'"
  shows "inv l' \<and> ledger_le K amin cur a l l' \<and> pay_balance K l cur a \<le> pay_balance K l' cur a + v \<and>
    (a \<noteq> b \<longrightarrow> pay_room room l cur \<longrightarrow> pay_balance K l' cur b = pay_balance K l cur b + v)"
proof (cases "v = 0")
  case True
  then show ?thesis using i t by (simp add: rwa_pay_def)
next
  case v: False
  show ?thesis
  proof (cases cur)
    case Native
    with t K v have "native_transfer K a b v KeepAlive l = Inr l'" by (simp add: rwa_pay_def)
    from native_transfer_effect [OF i this] show ?thesis by (simp add: Native pay_balance_def)
  next
    case (Asset aid)
    with t K v have "fungibles_transfer K aid a b v Preserve l = Inr l'" by (simp add: rwa_pay_def)
    from fungibles_transfer_effect [OF i v this] show ?thesis by (simp add: Asset pay_balance_def pay_room_def)
  qed
qed

lemma rwa_burn_effect:
  assumes K: "rwa_currency T = K" and i: "inv l" and t: "rwa_burn T cur a v l = Inr l'"
    and safe: "pay_minimum K amin l cur + v \<le> pay_balance K l cur a"
  shows "inv l' \<and> ledger_le K amin cur a l l' \<and> pay_balance K l cur a \<le> pay_balance K l' cur a + v"
proof (cases "v = 0")
  case True
  then show ?thesis using i t by (simp add: rwa_burn_def)
next
  case v: False
  have "inv l' \<and> ledger_le K amin cur a l l' \<and> debits K amin cur a v l l'"
  proof (cases cur)
    case Native
    with t K v obtain imb l1 where "native_withdraw K a v KeepAlive l = Inr (imb, l1)" "l' = native_drop_imbalance K imb l1"
      by (auto simp: rwa_burn_def dispatch_simps case_prod_Inr)
    from native_burn_effect [OF i v this] show ?thesis by (simp add: Native)
  next
    case (Asset aid)
    with t K v have "fungibles_burn K aid a v Expendable Exact l = Inr l'" by (simp add: rwa_burn_def)
    from fungibles_burn_effect [OF i v this] show ?thesis by (simp add: Asset)
  qed
  then show ?thesis using safe by (auto simp: debits_def)
qed

lemma ledger_le_moves:
  assumes "ledger_le K amin cur a l l'" "pay_balance K l cur a \<le> pay_balance K l' cur a + v"
  shows "account_moves K acct cur v 0 l l'"
  using assms by (cases "acct = a") (auto simp: account_moves_def ledger_le_def intro: trans_le_add1)

lemma pay_from_escrow:
  assumes "rwa_currency T = K" "inv l" "rwa_pay T cur acct b v l = Inr l'"
  shows "inv l' \<and> account_moves K acct cur v 0 l l'"
  using rwa_pay_effect [OF assms] ledger_le_moves by blast

lemma pay_into_escrow:
  assumes "rwa_currency T = K" "inv l" "rwa_pay T cur who acct v l = Inr l'" "who \<noteq> acct" "pay_room room l cur"
  shows "inv l' \<and> account_moves K acct cur 0 v l l'"
  using rwa_pay_effect [OF assms(1-3)] assms(4,5) by (auto simp: account_moves_def ledger_le_def)

lemma pay_elsewhere:
  assumes "rwa_currency T = K" "inv l" "rwa_pay T cur who b v l = Inr l'" "who \<noteq> acct"
  shows "inv l' \<and> account_moves K acct c 0 0 l l'"
  using rwa_pay_effect [OF assms(1-3)] assms(4) by (auto simp: account_moves_def ledger_le_def)

lemma reserve_elsewhere:
  assumes "inv l" "native_reserve K who v l = Inr l'" "who \<noteq> acct"
  shows "inv l' \<and> account_moves K acct c 0 0 l l'"
  using native_reserve_inv [OF assms(1,2)] native_reserve_other [OF assms(1,2), of acct] native_reserve_assets [OF assms(2)] assms(3)
  by (auto simp: account_moves_def pay_balance_def split: payment_currency.splits)

lemma unreserve_elsewhere:
  assumes "inv l" "who \<noteq> acct"
  shows "inv (snd (native_unreserve K who v l)) \<and> account_moves K acct c 0 0 l (snd (native_unreserve K who v l))"
proof -
  obtain r l' where u: "native_unreserve K who v l = (r, l')" by (metis surj_pair)
  show ?thesis
    using native_unreserve_inv [OF assms(1) u] native_unreserve_other [OF assms(1) u, of acct] native_unreserve_assets [OF u] assms(2)
    by (auto simp: u account_moves_def pay_balance_def split: payment_currency.splits)
qed

lemma pay_slash_effect:
  assumes K: "rwa_currency T = K" and i: "inv (rwa_ledger s)" and t: "pay_slash T cur b r k v s = Inr s'"
    and safe: "k = ToBurn \<Longrightarrow> pay_minimum K amin (rwa_ledger s) cur + v \<le> pay_balance K (rwa_ledger s) cur (pallet_account T)"
  shows "inv (rwa_ledger s') \<and> ledger_le K amin cur (pallet_account T) (rwa_ledger s) (rwa_ledger s') \<and>
    pay_balance K (rwa_ledger s) cur (pallet_account T) \<le> pay_balance K (rwa_ledger s') cur (pallet_account T) + v"
proof (cases "k = ToBurn")
  case True
  then obtain l where l: "rwa_burn T cur (pallet_account T) v (rwa_ledger s) = Inr l" and s': "s' = s\<lparr>rwa_ledger := l\<rparr>"
    using t by (auto simp: pay_slash_def rwa_do_burn_pay)
  show ?thesis using rwa_burn_effect [OF K i l safe [OF True]] by (simp add: s')
next
  case False
  then obtain to l where "rwa_pay T cur (pallet_account T) to v (rwa_ledger s) = Inr l" and s': "s' = s\<lparr>rwa_ledger := l\<rparr>"
    using t by (auto simp: pay_slash_def rwa_do_transfer_pay split: slash_recipient_kind.splits)
  then show ?thesis using rwa_pay_effect [OF K i] by (simp add: s')
qed

lemma distribute_shares_effect:
  assumes K: "rwa_currency T = K"
  shows "\<lbrakk>distribute_shares T cur tot b r d rs s = Inr s'; d \<le> u128_max; inv (rwa_ledger s);
    (\<exists>x\<in>set rs. slash_kind x = ToBurn) \<Longrightarrow> pay_minimum K amin (rwa_ledger s) cur + sum_list (share_amounts tot d rs)
      \<le> pay_balance K (rwa_ledger s) cur (pallet_account T)\<rbrakk> \<Longrightarrow>
    inv (rwa_ledger s') \<and> ledger_le K amin cur (pallet_account T) (rwa_ledger s) (rwa_ledger s') \<and>
    pay_balance K (rwa_ledger s) cur (pallet_account T)
      \<le> pay_balance K (rwa_ledger s') cur (pallet_account T) + sum_list (share_amounts tot d rs)"
proof (induction rs arbitrary: d s)
  case Nil
  then show ?case by simp
next
  case (Cons x rs)
  let ?P = "pallet_account T"
  define v where "v = (if rs = [] then tot - d else permill_mul (share x) tot)"
  have sums: "sum_list (share_amounts tot d (x # rs)) = v + sum_list (share_amounts tot (add128 d v) rs)"
    by (simp add: v_def Let_def)
  show ?case
  proof (cases "v = 0")
    case True
    have "add128 d v = d" using True Cons.prems(2) by simp
    moreover have "distribute_shares T cur tot b r d rs s = Inr s'" using Cons.prems(1) True by (simp add: v_def Let_def split: if_splits)
    ultimately show ?thesis using Cons.IH [of d s] Cons.prems sums True by auto
  next
    case False
    then obtain s1 where pay: "pay_slash T cur b r (slash_kind x) v s = Inr s1"
      and rest: "distribute_shares T cur tot b r (add128 d v) rs s1 = Inr s'"
      using Cons.prems(1) by (auto simp: v_def [symmetric] Let_def dispatch_simps)
    have 1: "inv (rwa_ledger s1) \<and> ledger_le K amin cur ?P (rwa_ledger s) (rwa_ledger s1) \<and>
        pay_balance K (rwa_ledger s) cur ?P \<le> pay_balance K (rwa_ledger s1) cur ?P + v"
      by (rule pay_slash_effect [OF K Cons.prems(3) pay]) (use Cons.prems(4) sums in auto)
    then have "pay_minimum K amin (rwa_ledger s1) cur = pay_minimum K amin (rwa_ledger s) cur"
      by (auto simp: ledger_le_def pay_minimum_def split: payment_currency.splits)
    then have "inv (rwa_ledger s') \<and> ledger_le K amin cur ?P (rwa_ledger s1) (rwa_ledger s') \<and>
      pay_balance K (rwa_ledger s1) cur ?P \<le> pay_balance K (rwa_ledger s') cur ?P + sum_list (share_amounts tot (add128 d v) rs)"
      using 1 Cons.prems(4) sums by (intro Cons.IH [OF rest]) auto
    then show ?thesis using 1 sums ledger_le_trans by fastforce
  qed
qed

lemma do_distribute_slash_effect:
  assumes K: "rwa_currency T = K" and a: "fmlookup (rwa_assets s) aid = Some a" and i: "inv (rwa_ledger s)"
    and run: "do_distribute_slash T (deposit_currency (policy a)) v aid b r s = Inr s'" and safe: "slash_safe T amin aid v s"
  shows "inv (rwa_ledger s') \<and> account_moves K (pallet_account T) (deposit_currency (policy a)) v 0 (rwa_ledger s) (rwa_ledger s')"
proof (cases "fmlookup (asset_slash_distribution s) aid = None \<or> fmlookup (asset_slash_distribution s) aid = Some []")
  case True
  with run have "rwa_do_transfer T (deposit_currency (policy a)) (pallet_account T) b v s = Inr s'"
    by (auto simp: do_distribute_slash_def)
  then show ?thesis using pay_from_escrow [OF K i] by (auto simp: rwa_do_transfer_pay)
next
  case False
  then obtain d where d: "fmlookup (asset_slash_distribution s) aid = Some d" "d \<noteq> []" by auto
  then have run': "distribute_shares T (deposit_currency (policy a)) v b r 0 d s = Inr s'"
    using run by (auto simp: do_distribute_slash_def neq_Nil_conv)
  have le: "sum_list (share_amounts v 0 d) \<le> v" and burn: "(\<exists>x\<in>set d. slash_kind x = ToBurn) \<Longrightarrow>
      pay_minimum K amin (rwa_ledger s) (deposit_currency (policy a)) + v
        \<le> pay_balance K (rwa_ledger s) (deposit_currency (policy a)) (pallet_account T)"
    using safe a d K by (auto simp: slash_safe_def)
  have "inv (rwa_ledger s') \<and> ledger_le K amin (deposit_currency (policy a)) (pallet_account T) (rwa_ledger s) (rwa_ledger s') \<and>
    pay_balance K (rwa_ledger s) (deposit_currency (policy a)) (pallet_account T)
      \<le> pay_balance K (rwa_ledger s') (deposit_currency (policy a)) (pallet_account T) + sum_list (share_amounts v 0 d)"
    by (rule distribute_shares_effect [OF K run' _ i]) (use burn le in auto)
  then show ?thesis using le by (auto intro: ledger_le_moves)
qed

lemma pays_back_escrow:
  assumes K: "rwa_currency T = K" and s: "rwa_inv s" "escrow_covered T s" "inv (rwa_ledger s)"
    and a: "fmlookup (rwa_assets s) aid = Some a" and p: "fmlookup (participations s) (aid, pid) = Some p" "v \<le> held p"
    and st: "final_status st" and run: "pays_back T aid pid p a st v s s'"
  shows "inv (rwa_ledger s') \<and> escrow_covered T s'"
proof -
  obtain l e where l: "rwa_pay T (deposit_currency (policy a)) (pallet_account T) (payer p) v (rwa_ledger s) = Inr l"
    and s': "s' = emit e (end_participation aid pid p st (s\<lparr>rwa_ledger := l\<rparr>))"
    using run by (auto simp: pays_back_def rwa_do_transfer_pay)
  note pay = pay_from_escrow [OF K s(3) l]
  have "escrow_covered T s'"
  proof (rule escrow_covered_step [OF s(1,2) a])
    show "agree_off (aid, pid) (participations s) (participations s')" by (simp add: s' emit_def end_participation_eq)
    show "assets_evolve (rwa_now s) (rwa_assets s) (rwa_assets s')"
      using pays_back_counts [OF run] counting_evolves by blast
    show "account_moves (rwa_currency T) (pallet_account T) (deposit_currency (policy a)) (opt_nat held (fmlookup (participations s) (aid, pid)))
        (opt_nat held (fmlookup (participations s') (aid, pid))) (rwa_ledger s) (rwa_ledger s')"
      using pay p st K by (auto simp: s' emit_def end_participation_eq intro: account_moves_weaken)
  qed
  then show ?thesis using pay by (simp add: s' emit_def end_participation_eq)
qed

lemma ending_calls_escrow:
  assumes K: "rwa_currency T = K" and s: "rwa_inv s" "escrow_covered T s" "inv (rwa_ledger s)"
  shows "exit_participation T org aid pid s = Inr s' \<Longrightarrow> inv (rwa_ledger s') \<and> escrow_covered T s'"
    "settle_expired_participation T org aid pid s = Inr s' \<Longrightarrow> inv (rwa_ledger s') \<and> escrow_covered T s'"
    "revoke_participation T org aid pid s = Inr s' \<Longrightarrow> inv (rwa_ledger s') \<and> escrow_covered T s'"
    "claim_retired_deposit T org aid pid s = Inr s' \<Longrightarrow> inv (rwa_ledger s') \<and> escrow_covered T s'"
  by (auto dest!: exit_participation_Inr settle_expired_participation_Inr revoke_participation_Inr claim_retired_deposit_Inr
      intro!: held_ge dest: pays_back_escrow [OF K s, rotated 4])

text \<open>
  One participation changes, the ledger moves accordingly: the rule that the remaining calls use.
\<close>

lemma escrow_by_record:
  assumes "rwa_currency T = K" "rwa_inv s" "escrow_covered T s" "inv (rwa_ledger s')"
    and "fmlookup (rwa_assets s) aid = Some a" "counts_only (rwa_assets s) (rwa_assets s')"
    and "agree_off (aid, pid) (participations s) (participations s')"
    and "opt_nat held (fmlookup (participations s) (aid, pid)) = old" "opt_nat held (fmlookup (participations s') (aid, pid)) = new"
    and "account_moves K (pallet_account T) (deposit_currency (policy a)) old new (rwa_ledger s) (rwa_ledger s')"
  shows "inv (rwa_ledger s') \<and> escrow_covered T s'"
  using escrow_covered_step [OF assms(2,3,5,7) counts_only_evolve [OF assms(6)]] assms(1,4,8-10) by blast

lemma slash_participation_escrow:
  assumes K: "rwa_currency T = K" and s: "rwa_inv s" "escrow_covered T s" "inv (rwa_ledger s)"
    and safe: "slash_safe T amin aid v s" and run: "slash_participation T H org aid pid v r s = Inr s'"
  shows "inv (rwa_ledger s') \<and> escrow_covered T s'"
proof -
  from slash_participation_Inr [OF run] obtain p a s2 s3 e where
    p: "fmlookup (participations s) (aid, pid) = Some p" "is_participating (participation_status p)" "v \<le> deposit_held p"
    and a: "fmlookup (rwa_assets s) aid = Some a"
    and s2: "do_distribute_slash T (deposit_currency (policy a)) v aid (beneficiary a) r s = Inr s2"
    and s3: "rwa_do_transfer T (deposit_currency (policy a)) (pallet_account T) (payer p) (deposit_held p - v) s2 = Inr s3"
    and s': "s' = emit e (end_participation aid pid p Slashed s3)" by blast
  note 1 = do_distribute_slash_effect [OF K a s(3) s2 safe]
  obtain l2 where l2: "s2 = s\<lparr>rwa_ledger := l2\<rparr>" using do_distribute_slash_frame [OF s2] by blast
  obtain l3 where l3: "rwa_pay T (deposit_currency (policy a)) (pallet_account T) (payer p) (deposit_held p - v) l2 = Inr l3"
    and s3': "s3 = s\<lparr>rwa_ledger := l3\<rparr>" using s3 by (auto simp: rwa_do_transfer_pay l2)
  have 2: "inv l3 \<and> account_moves K (pallet_account T) (deposit_currency (policy a)) (deposit_held p - v) 0 l2 l3"
    using pay_from_escrow [OF K _ l3] 1 by (simp add: l2)
  have m1: "account_moves K (pallet_account T) (deposit_currency (policy a)) v 0 (rwa_ledger s) l2" using 1 by (simp add: l2)
  show ?thesis
  proof (rule escrow_by_record [OF K s(1,2) _ a, where pid = pid and old = "deposit_held p" and new = 0])
    show "account_moves K (pallet_account T) (deposit_currency (policy a)) (deposit_held p) 0 (rwa_ledger s) (rwa_ledger s')"
      using account_moves_trans [OF m1 conjunct2 [OF 2]] p(3) by (simp add: s' s3' end_participation_eq emit_def)
  qed (use 2 p in \<open>simp_all add: s' s3' emit_def end_participation_eq\<close>)
qed

lemma approve_participation_escrow:
  assumes K: "rwa_currency T = K" and s: "rwa_inv s" "escrow_covered T s" "inv (rwa_ledger s)"
    and run: "approve_participation T org aid pid s = Inr s'"
  shows "inv (rwa_ledger s') \<and> escrow_covered T s'"
proof -
  from approve_participation_Inr [OF run] obtain p a s0 st e where
    a: "fmlookup (rwa_assets s) aid = Some a" and
    p: "fmlookup (participations s) (aid, pid) = Some p" "participation_status p = PendingApproval" "is_participating st"
    and pay: "rwa_do_transfer T (deposit_currency (policy a)) (pallet_account T) (beneficiary a) (entry_fee_paid p) s = Inr s0"
    and s': "s' = emit e (remove_pending aid pid (put_participation aid pid (p\<lparr>participation_status := st\<rparr>) s0))" by blast
  obtain l where l: "rwa_pay T (deposit_currency (policy a)) (pallet_account T) (beneficiary a) (entry_fee_paid p) (rwa_ledger s) = Inr l"
    and s0: "s0 = s\<lparr>rwa_ledger := l\<rparr>" using pay by (auto simp: rwa_do_transfer_pay)
  note 1 = pay_from_escrow [OF K s(3) l]
  show ?thesis
  proof (rule escrow_by_record [OF K s(1,2) _ a, where pid = pid and old = "deposit_held p + entry_fee_paid p" and new = "deposit_held p"])
    show "account_moves K (pallet_account T) (deposit_currency (policy a)) (deposit_held p + entry_fee_paid p) (deposit_held p)
        (rwa_ledger s) (rwa_ledger s')"
      using account_moves_weaken [OF conjunct2 [OF 1]] by (simp add: s' s0 participation_effects)
  qed (use 1 p in \<open>simp_all add: s' s0 participation_effects held_pending\<close>)
qed

lemma reject_one_escrow:
  assumes K: "rwa_currency T = K" and s: "rwa_inv s" "escrow_covered T s" "inv (rwa_ledger s)"
    and a: "fmlookup (rwa_assets s) aid = Some a" "deposit_currency (policy a) = cur"
    and p: "fmlookup (participations s) (aid, pid) = Some p" "participation_status p = PendingApproval"
    and pay: "rwa_do_transfer T cur (pallet_account T) (payer p) (add128 (deposit_held p) (entry_fee_paid p)) s = Inr s0"
  shows "inv (rwa_ledger (reject_one aid pid p s0)) \<and> escrow_covered T (reject_one aid pid p s0)"
proof -
  obtain l where l: "rwa_pay T cur (pallet_account T) (payer p) (add128 (deposit_held p) (entry_fee_paid p)) (rwa_ledger s) = Inr l"
    and s0: "s0 = s\<lparr>rwa_ledger := l\<rparr>" using pay by (auto simp: rwa_do_transfer_pay)
  note 1 = pay_from_escrow [OF K s(3) l]
  have le: "add128 (deposit_held p) (entry_fee_paid p) \<le> deposit_held p + entry_fee_paid p" by (rule sat_add_le_sum)
  show ?thesis
  proof (rule escrow_by_record [OF K s(1,2) _ a(1), where pid = pid and old = "deposit_held p + entry_fee_paid p" and new = 0])
    show "account_moves K (pallet_account T) (deposit_currency (policy a)) (deposit_held p + entry_fee_paid p) 0
        (rwa_ledger s) (rwa_ledger (reject_one aid pid p s0))"
      using account_moves_weaken [OF conjunct2 [OF 1]] le by (simp add: a(2) s0 participation_effects)
  qed (use 1 p in \<open>simp_all add: s0 participation_effects held_pending\<close>)
qed

lemma reject_participation_escrow:
  assumes K: "rwa_currency T = K" and s: "rwa_inv s" "escrow_covered T s" "inv (rwa_ledger s)"
    and run: "reject_participation T org aid pid s = Inr s'"
  shows "inv (rwa_ledger s') \<and> escrow_covered T s'"
  using reject_participation_Inr [OF run] reject_one_escrow [OF K s _ refl]
  by (auto simp: remove_pending_def)

lemma reject_all_escrow:
  assumes K: "rwa_currency T = K" and s: "rwa_inv (s\<lparr>pending_approvals := fmupd aid L (pending_approvals s)\<rparr>)" "escrow_covered T s" "inv (rwa_ledger s)"
    and a: "fmlookup (rwa_assets s) aid = Some a" and run: "reject_all T aid a L s = (ret, n, s')"
  shows "inv (rwa_ledger s') \<and> escrow_covered T s'"
proof -
  let ?w = "\<lambda>L s. s\<lparr>pending_approvals := fmupd aid L (pending_approvals s)\<rparr>"
  let ?Q = "\<lambda>L s. rwa_inv (?w L s) \<and> inv (rwa_ledger s) \<and> escrow_covered T s \<and>
    (\<exists>b. fmlookup (rwa_assets s) aid = Some b \<and> deposit_currency (policy b) = deposit_currency (policy a))"
  have "\<exists>L'. ?Q L' s' \<and> set L' = set L - (set L - set ret) \<and> distinct ret \<and> set ret \<subseteq> set L"
  proof (rule reject_all_rule [where Q = ?Q, OF _ _ _ _ _ _ run])
    fix L s pid p s0
    assume Q: "?Q L s" and p: "fmlookup (participations s) (aid, pid) = Some p" "participation_status p = PendingApproval"
      and pay: "rwa_do_transfer T (deposit_currency (policy a)) (pallet_account T) (payer p) (add128 (deposit_held p) (entry_fee_paid p)) s = Inr s0"
    obtain b where b: "fmlookup (rwa_assets s) aid = Some b" "deposit_currency (policy b) = deposit_currency (policy a)" using Q by blast
    obtain l where l: "rwa_pay T (deposit_currency (policy a)) (pallet_account T) (payer p) (add128 (deposit_held p) (entry_fee_paid p)) (rwa_ledger s) = Inr l"
      and s0: "s0 = s\<lparr>rwa_ledger := l\<rparr>" using pay by (auto simp: rwa_do_transfer_pay)
    have pay': "rwa_do_transfer T (deposit_currency (policy a)) (pallet_account T) (payer p) (add128 (deposit_held p) (entry_fee_paid p)) (?w L s) =
        Inr ((?w L s)\<lparr>rwa_ledger := l\<rparr>)" using l by (simp add: rwa_do_transfer_pay)
    have "inv (rwa_ledger (reject_one aid pid p ((?w L s)\<lparr>rwa_ledger := l\<rparr>))) \<and> escrow_covered T (reject_one aid pid p ((?w L s)\<lparr>rwa_ledger := l\<rparr>))"
      by (rule reject_one_escrow [OF K _ _ _ _ b(2) _ p(2) pay']) (use Q b p in simp_all)
    then have "inv (rwa_ledger (reject_one aid pid p s0)) \<and> escrow_covered T (reject_one aid pid p s0)"
      by (simp add: s0 participation_effects escrow_covered_def)
    moreover have "rwa_inv (?w (remove1 pid L) (reject_one aid pid p s0))"
      using reject_one_inv [of "?w L s" aid pid p] Q p by (simp add: s0 participation_effects fmupd_twice rwa_inv_def)
    moreover have "\<exists>c. fmlookup (rwa_assets (reject_one aid pid p s0)) aid = Some c \<and> deposit_currency (policy c) = deposit_currency (policy a)"
      using b by (simp add: s0 participation_effects)
    ultimately show "?Q (remove1 pid L) (reject_one aid pid p s0)" by blast
  qed (use s a pending_list_facts in auto)
  then show ?thesis by blast
qed

lemma batch_reject_pending_escrow:
  assumes K: "rwa_currency T = K" and s: "rwa_inv s" "escrow_covered T s" "inv (rwa_ledger s)"
    and run: "batch_reject_pending T org aid s = Inr s'"
  shows "inv (rwa_ledger s') \<and> escrow_covered T s'"
proof -
  obtain a ret n s1 where a: "fmlookup (rwa_assets s) aid = Some a"
    and loop: "reject_all T aid a (get_or [] (pending_approvals s) aid) s = (ret, n, s1)"
    and s': "s' = emit (BatchPendingRejected aid n) (s1\<lparr>pending_approvals := (if ret = [] then fmdrop aid (pending_approvals s1)
      else fmupd aid ret (pending_approvals s1))\<rparr>)"
    using ensure_asset_owner_or_admin_Inr [OF run [unfolded batch_reject_pending_def]]
    by (auto simp: dispatch_simps case_prod_Inr Let_def)
  have "rwa_inv (s\<lparr>pending_approvals := fmupd aid (get_or [] (pending_approvals s) aid) (pending_approvals s)\<rparr>)"
    using s(1) by (simp add: rwa_inv_def pending_inv_def)
  from reject_all_escrow [OF K this s(2,3) a loop] show ?thesis by (simp add: s')
qed

lemma transfer_participation_escrow:
  assumes K: "rwa_currency T = K" and s: "rwa_inv s" "escrow_covered T s" "inv (rwa_ledger s)"
    and run: "transfer_participation T org aid pid who s = Inr s'"
  shows "inv (rwa_ledger s') \<and> escrow_covered T s'"
proof -
  from transfer_participation_Inr [OF run] obtain p a e where a: "fmlookup (rwa_assets s) aid = Some a"
    and p: "fmlookup (participations s) (aid, pid) = Some p" "is_participating (participation_status p)"
    and s': "s' = put_participation aid pid (p\<lparr>payer := who\<rparr>) (emit e s)" by blast
  show ?thesis
    by (rule escrow_by_record [OF K s(1,2) _ a, where pid = pid and old = "deposit_held p" and new = "deposit_held p"])
      (use s p in \<open>simp_all add: s' put_participation_def emit_def\<close>)
qed

lemma add_holder_escrow:
  assumes K: "rwa_currency T = K" and s: "rwa_inv s" "escrow_covered T s" "inv (rwa_ledger s)"
    and run: "add_holder T H org aid pid h s = Inr s'"
  shows "inv (rwa_ledger s') \<and> escrow_covered T s'"
proof -
  from add_holder_Inr [OF run] obtain p e where p: "fmlookup (participations s) (aid, pid) = Some p" "is_participating (participation_status p)"
    and s': "s' = put_participation aid pid (p\<lparr>holders := holders p @ [h]\<rparr>) (emit e (add_holder_index T aid pid h s))" by blast
  obtain a where a: "fmlookup (rwa_assets s) aid = Some a" using participation_facts(1) [OF s(1) p(1)] by blast
  show ?thesis
    by (rule escrow_by_record [OF K s(1,2) _ a, where pid = pid and old = "deposit_held p" and new = "deposit_held p"])
      (use s p in \<open>simp_all add: s' put_participation_def emit_def add_holder_index_def push_holder_asset_def Let_def\<close>)
qed

lemma drop_holder_escrow:
  assumes K: "rwa_currency T = K" and s: "rwa_inv s" "escrow_covered T s" "inv (rwa_ledger s)"
    and a: "fmlookup (rwa_assets s) aid = Some a"
    and p: "fmlookup (participations s) (aid, pid) = Some p" "is_participating (participation_status p)"
    and run: "drop_holder T aid pid p a h ev s = Inr s'"
  shows "inv (rwa_ledger s') \<and> escrow_covered T s'"
proof (cases "remove1 h (holders p) = []")
  case True
  then obtain s0 e where pay: "rwa_do_transfer T (deposit_currency (policy a)) (pallet_account T) (payer p) (deposit_held p) s = Inr s0"
    and s': "s' = emit e (s0\<lparr>participations := fmupd (aid, pid) (p\<lparr>holders := [], participation_status := Exited, deposit_held := 0\<rparr>) (participations s0),
        holder_index := unindex_all aid [h] (holder_index s0), holder_assets := unlist_all_holders aid [h] (holder_assets s0),
        rwa_assets := fm_mutate aid (\<lambda>a. a\<lparr>participant_count := participant_count a - 1\<rparr>) (rwa_assets s0),
        pending_approvals := pending_approvals s0\<rparr>)"
    using drop_holder_Inr [OF run] by blast
  obtain l where l: "rwa_pay T (deposit_currency (policy a)) (pallet_account T) (payer p) (deposit_held p) (rwa_ledger s) = Inr l"
    and s0: "s0 = s\<lparr>rwa_ledger := l\<rparr>" using pay by (auto simp: rwa_do_transfer_pay)
  note 1 = pay_from_escrow [OF K s(3) l]
  show ?thesis
    by (rule escrow_by_record [OF K s(1,2) _ a, where pid = pid and old = "deposit_held p" and new = 0])
      (use 1 p in \<open>simp_all add: s' s0 emit_def\<close>)
next
  case False
  then obtain e where s': "s' = emit e (s\<lparr>participations := fmupd (aid, pid) (p\<lparr>holders := remove1 h (holders p)\<rparr>) (participations s),
        holder_index := unindex_all aid [h] (holder_index s), holder_assets := unlist_all_holders aid [h] (holder_assets s)\<rparr>)"
    using drop_holder_Inr [OF run] by blast
  show ?thesis
    by (rule escrow_by_record [OF K s(1,2) _ a, where pid = pid and old = "deposit_held p" and new = "deposit_held p"])
      (use s p in \<open>simp_all add: s' emit_def\<close>)
qed

lemma holder_calls_escrow:
  assumes K: "rwa_currency T = K" and s: "rwa_inv s" "escrow_covered T s" "inv (rwa_ledger s)"
  shows "remove_holder T org aid pid h s = Inr s' \<Longrightarrow> inv (rwa_ledger s') \<and> escrow_covered T s'"
    "leave_participation T org aid pid s = Inr s' \<Longrightarrow> inv (rwa_ledger s') \<and> escrow_covered T s'"
proof -
  show "inv (rwa_ledger s') \<and> escrow_covered T s'" if "remove_holder T org aid pid h s = Inr s'"
    using remove_holder_Inr [OF that] drop_holder_escrow [OF K s] by blast
  show "inv (rwa_ledger s') \<and> escrow_covered T s'" if "leave_participation T org aid pid s = Inr s'"
    using leave_participation_Inr [OF that] drop_holder_escrow [OF K s] by blast
qed

lemma request_participation_escrow:
  assumes K: "rwa_currency T = K" and s: "rwa_inv s" "escrow_covered T s" "inv (rwa_ledger s)"
    and ok: "rwa_call_ok T room amin org (RequestParticipation aid hs) s"
    and run: "request_participation T H org aid hs s = Inr s'"
  shows "inv (rwa_ledger s') \<and> escrow_covered T s'"
proof -
  let ?P = "pallet_account T" and ?pid = "get_or 0 (next_participation_id s) aid"
  from request_participation_Inr [OF run] obtain who a s1 where org: "org = Signed who"
    and a: "fmlookup (rwa_assets s) aid = Some a" and s1: "collect T a who s = Inr s1"
    and cap: "requires_approval (policy a) \<longrightarrow> length (get_or [] (pending_approvals s) aid) < max_pending_approvals T"
    and en: "enroll T aid a who hs s1 = Inr s'" by blast
  have who: "who \<noteq> ?P" and fits: "deposit (policy a) + entry_fee (policy a) \<le> u128_max"
    and room: "pay_room room (rwa_ledger s) (deposit_currency (policy a))"
    using ok a org by (simp_all add: rwa_call_ok_def)
  obtain l where l: "s1 = s\<lparr>rwa_ledger := l\<rparr>" using collect_frame [OF s1] by blast
  let ?v = "deposit (policy a) + (if requires_approval (policy a) then entry_fee (policy a) else 0)"
  have pay: "inv l \<and> account_moves K ?P (deposit_currency (policy a)) 0 ?v (rwa_ledger s) l"
  proof (cases "requires_approval (policy a)")
    case True
    then have "rwa_pay T (deposit_currency (policy a)) who ?P (deposit (policy a) + entry_fee (policy a)) (rwa_ledger s) = Inr (rwa_ledger s1)"
      using s1 fits by (auto simp: collect_cases rwa_do_transfer_pay)
    from pay_into_escrow [OF K s(3) this who room] True show ?thesis by (simp add: l)
  next
    case False
    then obtain l1 where l1: "rwa_pay T (deposit_currency (policy a)) who ?P (deposit (policy a)) (rwa_ledger s) = Inr l1"
      and l2: "rwa_pay T (deposit_currency (policy a)) who (beneficiary a) (entry_fee (policy a)) l1 = Inr (rwa_ledger s1)"
      using s1 by (auto simp: collect_cases rwa_do_transfer_pay)
    note 1 = pay_into_escrow [OF K s(3) l1 who room]
    note 2 = pay_elsewhere [OF K conjunct1 [OF 1] l2 who]
    from 2 account_moves_trans [OF conjunct2 [OF 1] conjunct2 [OF 2]] False show ?thesis by (simp add: l)
  qed
  have old: "fmlookup (participations s) (aid, ?pid) = None"
  proof (cases "fmlookup (participations s) (aid, ?pid)")
    case (Some q)
    then show ?thesis using participation_facts(4) [OF s(1) Some] by simp
  qed simp
  have s': "participations s' = fmupd (aid, ?pid) (requested aid a who hs (rwa_now s)) (participations s)" "rwa_ledger s' = l"
    using enroll_fields [OF en] by (simp_all add: l)
  show ?thesis
  proof (rule escrow_by_record [OF K s(1,2) _ a, where pid = ?pid and old = 0 and new = ?v])
    show "counts_only (rwa_assets s) (rwa_assets s')" using request_participation_counts [OF run] by blast
    show "opt_nat held (fmlookup (participations s') (aid, ?pid)) = ?v" by (simp add: s' held_def)
  qed (use pay old in \<open>simp_all add: s'\<close>)
qed

lemma rejoins_escrow:
  assumes K: "rwa_currency T = K" and s: "rwa_inv s" "escrow_covered T s" "inv (rwa_ledger s)"
    and a: "fmlookup (rwa_assets s) aid = Some b" "deposit_currency (policy b) = deposit_currency (policy a)"
    and who: "who \<noteq> pallet_account T" "pay_room room (rwa_ledger s) (deposit_currency (policy a))"
    and run: "rejoins T aid pid a who s s'"
  shows "inv (rwa_ledger s') \<and> escrow_covered T s'"
proof -
  from run obtain p st l1 l2 e where p: "fmlookup (participations s) (aid, pid) = Some p" "participation_status p = Expired" "is_participating st"
    and l1: "rwa_pay T (deposit_currency (policy a)) who (pallet_account T) (deposit (policy a)) (rwa_ledger s) = Inr l1"
    and l2: "rwa_pay T (deposit_currency (policy a)) who (beneficiary a) (entry_fee (policy a)) l1 = Inr l2"
    and s': "s' = emit e (open_participation T aid pid (p\<lparr>deposit_held := deposit (policy a), participation_status := st\<rparr>) (s\<lparr>rwa_ledger := l2\<rparr>))"
    unfolding rejoins_def by blast
  note 1 = pay_into_escrow [OF K s(3) l1 who]
  note 2 = pay_elsewhere [OF K conjunct1 [OF 1] l2 who(1)]
  have m: "account_moves K (pallet_account T) (deposit_currency (policy b)) 0 (deposit (policy a)) (rwa_ledger s) l2"
    using account_moves_trans [OF conjunct2 [OF 1] conjunct2 [OF 2]] a(2) by simp
  have nc: "\<not> counted p" using p(2) by (simp add: counted_def)
  show ?thesis
    by (rule escrow_by_record [OF K s(1,2) _ a(1), where pid = pid and old = 0 and new = "deposit (policy a)"])
      (use 2 m p nc in \<open>simp_all add: s' participation_effects\<close>)
qed

lemma renews_escrow:
  assumes K: "rwa_currency T = K" and s: "rwa_inv s" "escrow_covered T s" "inv (rwa_ledger s)"
    and who: "who \<noteq> pallet_account T" and run: "renews T aid pid a who s s'"
  shows "inv (rwa_ledger s') \<and> escrow_covered T s'"
proof -
  from run obtain p st l e where p: "fmlookup (participations s) (aid, pid) = Some p" "is_participating (participation_status p)" "is_participating st"
    and l: "rwa_pay T (deposit_currency (policy a)) who (beneficiary a) (entry_fee (policy a)) (rwa_ledger s) = Inr l"
    and s': "s' = put_participation aid pid (p\<lparr>participation_status := st\<rparr>) (emit e (s\<lparr>rwa_ledger := l\<rparr>))"
    unfolding renews_def by blast
  obtain b where b: "fmlookup (rwa_assets s) aid = Some b" using participation_facts(1) [OF s(1) p(1)] by blast
  note 1 = pay_elsewhere [OF K s(3) l who]
  show ?thesis
    by (rule escrow_by_record [OF K s(1,2) _ b, where pid = pid and old = "deposit_held p" and new = "deposit_held p"])
      (use 1 p account_moves_weaken [OF conjunct2 [OF 1]] in \<open>simp_all add: s' put_participation_def emit_def\<close>)
qed

lemma renew_participation_escrow:
  assumes K: "rwa_currency T = K" and s: "rwa_inv s" "escrow_covered T s" "inv (rwa_ledger s)"
    and ok: "rwa_call_ok T room amin org (RenewParticipation aid pid) s"
    and run: "renew_participation T H org aid pid s = Inr s'"
  shows "inv (rwa_ledger s') \<and> escrow_covered T s'"
proof -
  from renew_participation_Inr [OF run] obtain who a s1 p where org: "org = Signed who"
    and a: "fmlookup (rwa_assets s) aid = Some a" and p: "fmlookup (participations s) (aid, pid) = Some p"
    and settle: "s1 = s \<or> due p (rwa_now s) \<and> is_participating (participation_status p) \<and> pays_back T aid pid p a Expired (deposit_held p) s s1"
    and renew: "renews T aid pid a who s1 s' \<or> rejoins T aid pid a who s1 s'" by blast
  have who: "who \<noteq> pallet_account T" and room: "pay_room room (rwa_ledger s) (deposit_currency (policy a))"
    and native: "due p (rwa_now s) \<Longrightarrow> deposit_currency (policy a) = Native"
    using ok a p org by (auto simp: rwa_call_ok_def effective_participation_status_def due_def
        split: participation_status.splits option.splits if_splits)
  have 1: "rwa_inv s1 \<and> (\<exists>b. fmlookup (rwa_assets s1) aid = Some b \<and> deposit_currency (policy b) = deposit_currency (policy a)) \<and>
      inv (rwa_ledger s1) \<and> escrow_covered T s1 \<and> pay_room room (rwa_ledger s1) (deposit_currency (policy a))"
  proof (cases "s1 = s")
    case True
    then show ?thesis using s a room by simp
  next
    case False
    then have d: "due p (rwa_now s)" "is_participating (participation_status p)" and pb: "pays_back T aid pid p a Expired (deposit_held p) s s1"
      using settle by auto
    have "inv (rwa_ledger s1) \<and> escrow_covered T s1"
      by (rule pays_back_escrow [OF K s a p _ _ pb]) (use d in simp_all)
    then show ?thesis
      using pays_back_active [OF pb s(1) p d(2)] pays_back_asset [OF pb a] native [OF d(1)] by (simp add: pay_room_def)
  qed
  then show ?thesis
    using renew renews_escrow [OF K _ _ _ who, of s1] rejoins_escrow [OF K _ _ _ _ _ who, of s1] by blast
qed

lemma retire_escrow:
  assumes K: "rwa_currency T = K" and s: "rwa_inv s" "escrow_covered T s" "inv (rwa_ledger s)"
    and a: "fmlookup (rwa_assets s) aid = Some a" "asset_status a \<noteq> Retired" "owner a \<noteq> pallet_account T"
    and s0: "rwa_assets s0 = rwa_assets s" "participations s0 = participations s" "rwa_ledger s0 = rwa_ledger s"
  shows "inv (rwa_ledger (finish_retirement T aid a s0)) \<and> escrow_covered T (finish_retirement T aid a s0)"
proof -
  note u = unreserve_elsewhere [OF s(3) a(3), of "registration_deposit a"]
  have "escrow_covered T (finish_retirement T aid a s0)"
    by (rule escrow_covered_assets [OF s(1,2), where now = 0])
      (use u a K in \<open>simp_all add: finish_retirement_eq s0 retired_evolves\<close>)
  then show ?thesis using u K by (simp add: finish_retirement_eq s0)
qed

lemma retiring_calls_escrow:
  assumes K: "rwa_currency T = K" and s: "rwa_inv s" "escrow_covered T s" "inv (rwa_ledger s)" "owners_outside T s"
  shows "force_retire_asset T H org aid s = Inr s' \<Longrightarrow> inv (rwa_ledger s') \<and> escrow_covered T s'"
    "retire_asset T org aid s = Inr s' \<Longrightarrow> inv (rwa_ledger s') \<and> escrow_covered T s'"
proof -
  have fields: "participations (case st of Sunsetting m \<Rightarrow> unschedule aid m s | _ \<Rightarrow> s) = participations s"
    "rwa_ledger (case st of Sunsetting m \<Rightarrow> unschedule aid m s | _ \<Rightarrow> s) = rwa_ledger s" for st
    by (simp_all add: unschedule_def split: rwa_asset_status.splits)
  show "inv (rwa_ledger s') \<and> escrow_covered T s'" if "force_retire_asset T H org aid s = Inr s'"
  proof -
    from that obtain a where a: "fmlookup (rwa_assets s) aid = Some a" "asset_status a \<noteq> Retired"
      and s': "s' = finish_retirement T aid a (case asset_status a of Sunsetting m \<Rightarrow> unschedule aid m s | _ \<Rightarrow> s)"
      by (auto simp: force_retire_asset_def dispatch_simps Let_def)
    show ?thesis unfolding s' by (rule retire_escrow [OF K s(1-3) a]) (use a s(4) in \<open>auto simp: fields owners_outside_def\<close>)
  qed
  show "inv (rwa_ledger s') \<and> escrow_covered T s'" if "retire_asset T org aid s = Inr s'"
  proof -
    from that obtain a n where a: "fmlookup (rwa_assets s) aid = Some a" "asset_status a = Sunsetting n"
      and s': "s' = finish_retirement T aid a (unschedule aid n s)"
      by (auto simp: retire_asset_def dispatch_simps sunsetting_Inr)
    show ?thesis unfolding s' by (rule retire_escrow [OF K s(1-3) a(1)]) (use a s(4) in \<open>auto simp: unschedule_def owners_outside_def\<close>)
  qed
qed

lemma register_asset_escrow:
  assumes K: "rwa_currency T = K" and s: "rwa_inv s" "escrow_covered T s" "inv (rwa_ledger s)" and org: "org \<noteq> Signed (pallet_account T)"
    and run: "register_asset T org b pol meta s = Inr s'"
  shows "inv (rwa_ledger s') \<and> escrow_covered T s'"
proof -
  from register_asset_Inr [OF run] obtain who l where w: "org = Signed who"
    and l: "native_reserve (rwa_currency T) who (asset_registration_deposit T) (rwa_ledger s) = Inr l"
    and s': "s' = emit (AssetRegistered (next_rwa_asset_id s) who b) (s\<lparr>rwa_assets := fmupd (next_rwa_asset_id s) (new_asset T who b pol meta (rwa_now s)) (rwa_assets s),
         rwa_ledger := l, next_rwa_asset_id := next_rwa_asset_id s + 1,
         owner_assets := fmupd who (get_or [] (owner_assets s) who @ [next_rwa_asset_id s]) (owner_assets s)\<rparr>)" by blast
  have "who \<noteq> pallet_account T" using w org by auto
  note r = reserve_elsewhere [OF s(3) l [unfolded K] this]
  have "escrow_covered T s'"
  proof (rule escrow_covered_assets [OF s(1,2)])
    show "assets_evolve (rwa_now s) (rwa_assets s) (rwa_assets s')" using register_asset_evolves [OF s(1) run] by blast
  qed (use r K in \<open>simp_all add: s' emit_def\<close>)
  then show ?thesis using r by (simp add: s')
qed

lemma accept_ownership_escrow:
  assumes K: "rwa_currency T = K" and s: "rwa_inv s" "escrow_covered T s" "inv (rwa_ledger s)" "owners_outside T s"
    and org: "org \<noteq> Signed (pallet_account T)" and run: "accept_ownership T org aid s = Inr s'"
  shows "inv (rwa_ledger s') \<and> escrow_covered T s'"
proof -
  from accept_ownership_Inr [OF run] obtain who a l where w: "org = Signed who" and a: "fmlookup (rwa_assets s) aid = Some a"
    and l: "native_reserve (rwa_currency T) who (registration_deposit a)
      (snd (native_unreserve (rwa_currency T) (owner a) (registration_deposit a) (rwa_ledger s))) = Inr l" by blast
  have fields: "participations s' = participations s" "rwa_ledger s' = l"
    using run l a w by (auto simp: accept_ownership_def dispatch_simps put_asset_def remove_from_owner_assets_def Let_def emit_def)
  have who: "who \<noteq> pallet_account T" "owner a \<noteq> pallet_account T" using w org s(4) a by (auto simp: owners_outside_def)
  note 1 = unreserve_elsewhere [OF s(3) who(2), of "registration_deposit a"]
  note 2 = reserve_elsewhere [OF conjunct1 [OF 1] l [unfolded K] who(1)]
  have "account_moves K (pallet_account T) Native 0 0 (rwa_ledger s) l"
    using account_moves_trans [OF conjunct2 [OF 1] conjunct2 [OF 2], of Native] by simp
  moreover have "assets_evolve (rwa_now s) (rwa_assets s) (rwa_assets s')" using owner_calls_evolve(6) [OF run] by blast
  ultimately show ?thesis using escrow_covered_assets [OF s(1,2) fields(1)] 2 K fields(2) by auto
qed

lemma quiet_calls_escrow:
  assumes "rwa_dispatch T H org call s = Inr s'" "rwa_inv s" "escrow_covered T s" "inv (rwa_ledger s)"
    and "participations s' = participations s \<and> rwa_ledger s' = rwa_ledger s"
  shows "inv (rwa_ledger s') \<and> escrow_covered T s'"
  using assms escrow_covered_assets [OF assms(2,3), of s' "rwa_now s" Native] rwa_dispatch_evolves [OF assms(1,2)] by simp

lemma rwa_dispatch_escrow:
  assumes K: "rwa_currency T = K" and s: "rwa_inv s" "escrow_covered T s" "inv (rwa_ledger s)" "owners_outside T s"
    and run: "rwa_dispatch T H org call s = Inr s'" and ok: "rwa_call_ok T room amin org call s"
  shows "inv (rwa_ledger s') \<and> escrow_covered T s' \<and> owners_outside T s'"
proof -
  have org: "org \<noteq> Signed (pallet_account T)" using ok by (simp add: rwa_call_ok_def)
  have "inv (rwa_ledger s') \<and> escrow_covered T s'"
  proof (cases call)
    case (SlashParticipation aid pid v r)
    have "slash_safe T amin aid v s" using ok SlashParticipation by (simp add: rwa_call_ok_def)
    from slash_participation_escrow [OF K s(1-3) this] show ?thesis using run SlashParticipation by simp
  next
    case (RequestParticipation aid hs)
    show ?thesis by (rule request_participation_escrow [OF K s(1-3) ok [unfolded RequestParticipation]]) (use run RequestParticipation in simp)
  next
    case (RenewParticipation aid pid)
    show ?thesis by (rule renew_participation_escrow [OF K s(1-3) ok [unfolded RenewParticipation]]) (use run RenewParticipation in simp)
  qed (insert run, simp_all only: rwa_dispatch.simps,
      (rule register_asset_escrow [OF K s(1-3) org] accept_ownership_escrow [OF K s org] retiring_calls_escrow [OF K s]
        ending_calls_escrow [OF K s(1-3)] approve_participation_escrow [OF K s(1-3)] reject_participation_escrow [OF K s(1-3)]
        batch_reject_pending_escrow [OF K s(1-3)] transfer_participation_escrow [OF K s(1-3)] add_holder_escrow [OF K s(1-3)]
        holder_calls_escrow [OF K s(1-3)], assumption | rule quiet_calls_escrow [OF run s(1-3)], rule quiet_calls_frame, assumption)+)
  then show ?thesis using owners_outside_call [OF run s(4) org] by blast
qed

lemma retire_all_escrow:
  "\<lbrakk>inv (rwa_ledger s); owners_outside T s; rwa_currency T = K\<rbrakk> \<Longrightarrow>
     inv (rwa_ledger (fold (retire_scheduled T) ids s)) \<and> owners_outside T (fold (retire_scheduled T) ids s) \<and>
     account_moves K (pallet_account T) c 0 0 (rwa_ledger s) (rwa_ledger (fold (retire_scheduled T) ids s))"
proof (induction ids arbitrary: s)
  case (Cons aid ids)
  have 1: "inv (rwa_ledger (retire_scheduled T aid s)) \<and> owners_outside T (retire_scheduled T aid s) \<and>
    account_moves K (pallet_account T) c 0 0 (rwa_ledger s) (rwa_ledger (retire_scheduled T aid s))"
  proof (cases "\<exists>a. fmlookup (rwa_assets s) aid = Some a \<and> asset_status a \<noteq> Retired")
    case True
    then obtain a where a: "fmlookup (rwa_assets s) aid = Some a" "asset_status a \<noteq> Retired" by blast
    then have o: "owner a \<noteq> pallet_account T" using Cons.prems(2) by (simp add: owners_outside_def)
    show ?thesis using a o unreserve_elsewhere [OF Cons.prems(1) o, of "registration_deposit a" c] Cons.prems(2,3)
      by (simp add: retire_scheduled_def finish_retirement_eq owners_outside_def emit_def)
  next
    case False
    then show ?thesis using Cons.prems by (auto simp: retire_scheduled_def split: option.splits)
  qed
  then show ?case
    using Cons.IH [of "retire_scheduled T aid s"] Cons.prems(3)
      account_moves_trans [of K "pallet_account T" c 0 0 "rwa_ledger s" "rwa_ledger (retire_scheduled T aid s)" 0 0] by auto
qed simp

lemma on_initialize_escrow:
  assumes K: "rwa_currency T = K" and s: "rwa_inv s" "escrow_covered T s" "inv (rwa_ledger s)" "owners_outside T s"
  shows "inv (rwa_ledger (on_initialize T n s)) \<and> escrow_covered T (on_initialize T n s) \<and> owners_outside T (on_initialize T n s)"
proof -
  have ev: "assets_evolve 0 (rwa_assets s) (rwa_assets (on_initialize T n s))"
    unfolding assets_evolve_def using on_initialize_assets [OF s(1), of T n] by (auto simp: retired_evolves split: option.splits)
  have "inv (rwa_ledger (on_initialize T n s)) \<and> owners_outside T (on_initialize T n s) \<and>
    account_moves K (pallet_account T) Native 0 0 (rwa_ledger s) (rwa_ledger (on_initialize T n s))"
    using retire_all_escrow [of "s\<lparr>sunsetting_assets := fmdrop n (sunsetting_assets s)\<rparr>" T "get_or [] (sunsetting_assets s) n" Native] s(3,4) K
    by (simp add: on_initialize_def owners_outside_def)
  then show ?thesis
    using escrow_covered_assets [OF s(1,2) _ ev, of Native] K by (simp add: on_initialize_def retire_all_parts)
qed

text \<open>
  In every state the pallet reaches, with nobody signing for its account and with the rest of the
  chain leaving that account at least what it holds, the account covers the escrow.
\<close>

lemma rwa_reachable_escrow:
  assumes K: "rwa_currency T = K"
    and reach: "reachable (rwa_start inv) (rwa_step T (rwa_env K inv (pallet_account T)) (rwa_call_ok T room amin)) s"
  shows "inv (rwa_ledger s) \<and> escrow_covered T s"
proof -
  have "rwa_inv s \<and> inv (rwa_ledger s) \<and> escrow_covered T s \<and> owners_outside T s"
    using reach
  proof (rule reachable_invariant)
    fix s :: "'l rwa_state" assume "rwa_start inv s"
    then show "rwa_inv s \<and> inv (rwa_ledger s) \<and> escrow_covered T s \<and> owners_outside T s"
      by (auto simp: rwa_start_def rwa_init_inv) (simp_all add: rwa_init_def escrow_covered_def escrow_def owners_outside_def)
  next
    fix s s' :: "'l rwa_state"
    assume I: "rwa_inv s \<and> inv (rwa_ledger s) \<and> escrow_covered T s \<and> owners_outside T s"
      and "rwa_step T (rwa_env K inv (pallet_account T)) (rwa_call_ok T room amin) s s'"
    from this(2) show "rwa_inv s' \<and> inv (rwa_ledger s') \<and> escrow_covered T s' \<and> owners_outside T s'"
    proof cases
      case (rwa_call H org call)
      then show ?thesis using I rwa_dispatch_escrow [OF K] rwa_dispatch_inv by blast
    next
      case rwa_block
      have "escrow_covered T (s\<lparr>rwa_now := rwa_now s + 1\<rparr>)" "owners_outside T (s\<lparr>rwa_now := rwa_now s + 1\<rparr>)"
        using I by (simp_all add: escrow_covered_def owners_outside_def)
      then show ?thesis
        using I rwa_block on_initialize_escrow [OF K, of "s\<lparr>rwa_now := rwa_now s + 1\<rparr>" "rwa_now s + 1"] by (simp add: on_initialize_inv)
    next
      case (rwa_elsewhere l)
      then show ?thesis using I K by (fastforce simp: rwa_env_def escrow_covered_def owners_outside_def intro: order_trans)
    qed (use I in simp)
  qed
  then show ?thesis by blast
qed

end

end
