(* ===== verification/Rwa_Final.thy ===== *)
theory Rwa_Final
  imports Rwa_Escrow
begin

text \<open>
  Over whole runs: an asset keeps the terms of its deposits and never leaves retirement, a sunset
  comes on time, and the record of an ended participation never changes again. The shares of a slash
  add up to the amount but for the rounding.
\<close>

section \<open>Ended participations\<close>

definition ended :: "participation \<Rightarrow> bool" where
  "ended p = (participation_status p \<in> {Exited, Slashed, Revoked})"

definition keeps_ended :: "(nat \<times> nat, participation) fmap \<Rightarrow> (nat \<times> nat, participation) fmap \<Rightarrow> bool" where
  "keeps_ended ps ps' = (\<forall>k p. fmlookup ps k = Some p \<longrightarrow> ended p \<longrightarrow> fmlookup ps' k = Some p)"

lemma not_ended [simp]:
  "is_participating (participation_status p) \<Longrightarrow> \<not> ended p" "participation_status p = PendingApproval \<Longrightarrow> \<not> ended p"
  "participation_status p = Expired \<Longrightarrow> \<not> ended p" "counted p \<Longrightarrow> \<not> ended p"
  by (auto simp: ended_def is_participating_def counted_def)

lemma keeps_ended_refl [simp]: "keeps_ended ps ps"
  by (simp add: keeps_ended_def)

lemma keeps_ended_trans: "\<lbrakk>keeps_ended ps qs; keeps_ended qs rs\<rbrakk> \<Longrightarrow> keeps_ended ps rs"
  by (simp add: keeps_ended_def)

lemma keeps_ended_upd [simp]:
  "\<lbrakk>fmlookup ps k = Some p; \<not> ended p\<rbrakk> \<Longrightarrow> keeps_ended ps (fmupd k q ps)"
  "fmlookup ps k = None \<Longrightarrow> keeps_ended ps (fmupd k q ps)"
  "\<lbrakk>fmlookup ps k = Some p; \<not> ended p\<rbrakk> \<Longrightarrow> keeps_ended ps (fmdrop k ps)"
  by (auto simp: keeps_ended_def)

lemma pays_back_ended:
  "\<lbrakk>pays_back T aid pid p a st v s s'; fmlookup (participations s) (aid, pid) = Some p; \<not> ended p\<rbrakk> \<Longrightarrow>
     keeps_ended (participations s) (participations s')"
  by (auto simp: pays_back_def end_participation_eq dest!: rwa_do_transfer_frame)

lemma distribute_slash_parts:
  "do_distribute_slash T cur v aid b r s = Inr s' \<Longrightarrow> participations s' = participations s"
  by (auto dest!: do_distribute_slash_frame)

lemma ending_calls_ended:
  "exit_participation T org aid pid s = Inr s' \<Longrightarrow> keeps_ended (participations s) (participations s')"
  "settle_expired_participation T org aid pid s = Inr s' \<Longrightarrow> keeps_ended (participations s) (participations s')"
  "revoke_participation T org aid pid s = Inr s' \<Longrightarrow> keeps_ended (participations s) (participations s')"
  "claim_retired_deposit T org aid pid s = Inr s' \<Longrightarrow> keeps_ended (participations s) (participations s')"
  by (auto dest!: exit_participation_Inr settle_expired_participation_Inr revoke_participation_Inr claim_retired_deposit_Inr
      dest: pays_back_ended)

lemma slash_participation_ended:
  "slash_participation T H org aid pid v r s = Inr s' \<Longrightarrow> keeps_ended (participations s) (participations s')"
  by (auto dest!: slash_participation_Inr distribute_slash_parts rwa_do_transfer_frame simp: end_participation_eq)

lemma drop_holder_ended:
  "\<lbrakk>drop_holder T aid pid p a h ev s = Inr s'; fmlookup (participations s) (aid, pid) = Some p; \<not> ended p\<rbrakk> \<Longrightarrow>
     keeps_ended (participations s) (participations s')"
  by (auto dest!: drop_holder_Inr rwa_do_transfer_frame)

lemma record_calls_ended:
  "approve_participation T org aid pid s = Inr s' \<Longrightarrow> keeps_ended (participations s) (participations s')"
  "reject_participation T org aid pid s = Inr s' \<Longrightarrow> keeps_ended (participations s) (participations s')"
  "transfer_participation T org aid pid who s = Inr s' \<Longrightarrow> keeps_ended (participations s) (participations s')"
  "add_holder T H org aid pid h s = Inr s' \<Longrightarrow> keeps_ended (participations s) (participations s')"
  "remove_holder T org aid pid h s = Inr s' \<Longrightarrow> keeps_ended (participations s) (participations s')"
  "leave_participation T org aid pid s = Inr s' \<Longrightarrow> keeps_ended (participations s) (participations s')"
  by (auto dest!: approve_participation_Inr reject_participation_Inr transfer_participation_Inr add_holder_Inr
      remove_holder_Inr leave_participation_Inr rwa_do_transfer_frame
      simp: participation_effects add_holder_index_def push_holder_asset_def Let_def
      intro: drop_holder_ended)

lemma request_participation_ended:
  assumes I: "rwa_inv s" and run: "request_participation T H org aid hs s = Inr s'"
  shows "keeps_ended (participations s) (participations s')"
proof -
  let ?pid = "get_or 0 (next_participation_id s) aid"
  from request_participation_Inr [OF run] obtain who a s1 where s1: "collect T a who s = Inr s1"
    and en: "enroll T aid a who hs s1 = Inr s'" by blast
  obtain l where l: "s1 = s\<lparr>rwa_ledger := l\<rparr>" using collect_frame [OF s1] by blast
  have "fmlookup (participations s) (aid, ?pid) = None"
    using participation_facts(4) [OF I] by (cases "fmlookup (participations s) (aid, ?pid)") fastforce+
  then show ?thesis
    using en by (auto simp: enroll_def l Let_def dispatch_simps participation_effects)
qed

lemma renew_participation_ended:
  assumes "renew_participation T H org aid pid s = Inr s'"
  shows "keeps_ended (participations s) (participations s')"
proof -
  have 1: "renews T aid pid a who s1 s' \<or> rejoins T aid pid a who s1 s' \<Longrightarrow> keeps_ended (participations s1) (participations s')" for a who s1
    by (auto simp: renews_def rejoins_def put_participation_def participation_effects)
  from renew_participation_Inr [OF assms] obtain who a s1 p where p: "fmlookup (participations s) (aid, pid) = Some p"
    and settle: "s1 = s \<or> due p (rwa_now s) \<and> is_participating (participation_status p) \<and> pays_back T aid pid p a Expired (deposit_held p) s s1"
    and renew: "renews T aid pid a who s1 s' \<or> rejoins T aid pid a who s1 s'" by blast
  have "keeps_ended (participations s) (participations s1)" using settle p by (auto dest: pays_back_ended)
  then show ?thesis using 1 [OF renew] keeps_ended_trans by blast
qed

lemma reject_all_ended:
  "reject_all T aid a pids s = (ret, n, s') \<Longrightarrow> keeps_ended (participations s) (participations s')"
proof (induction pids arbitrary: s ret n s')
  case (Cons pid pids)
  show ?case
  proof (cases "\<exists>p s1. fmlookup (participations s) (aid, pid) = Some p \<and> participation_status p = PendingApproval \<and>
      rwa_do_transfer T (deposit_currency (policy a)) (pallet_account T) (payer p) (add128 (deposit_held p) (entry_fee_paid p)) s = Inr s1")
    case False
    then show ?thesis using Cons
      by (auto split: option.splits if_splits sum.splits prod.splits)
  next
    case True
    then obtain p s1 where p: "fmlookup (participations s) (aid, pid) = Some p" "participation_status p = PendingApproval"
      and pay: "rwa_do_transfer T (deposit_currency (policy a)) (pallet_account T) (payer p) (add128 (deposit_held p) (entry_fee_paid p)) s = Inr s1" by blast
    let ?s2 = "dec_participant_count aid (remove_all_holder_indexes aid (holders p) (s1\<lparr>participations := fmdrop (aid, pid) (participations s1)\<rparr>))"
    obtain m where "reject_all T aid a pids ?s2 = (ret, m, s')" using Cons.prems p pay by (auto simp: Let_def split: prod.splits)
    from Cons.IH [OF this] have "keeps_ended (participations ?s2) (participations s')" .
    moreover have "keeps_ended (participations s) (participations ?s2)"
      using p rwa_do_transfer_frame [OF pay] by (auto simp: dec_participant_count_def remove_all_eq)
    ultimately show ?thesis using keeps_ended_trans by blast
  qed
qed simp

lemma batch_reject_pending_ended:
  assumes "batch_reject_pending T org aid s = Inr s'"
  shows "keeps_ended (participations s) (participations s')"
proof -
  obtain a ret n s1 where "fmlookup (rwa_assets s) aid = Some a" "reject_all T aid a (get_or [] (pending_approvals s) aid) s = (ret, n, s1)"
    and "s' = emit (BatchPendingRejected aid n) (s1\<lparr>pending_approvals := (if ret = [] then fmdrop aid (pending_approvals s1)
      else fmupd aid ret (pending_approvals s1))\<rparr>)"
    using ensure_asset_owner_or_admin_Inr [OF assms [unfolded batch_reject_pending_def]]
    by (auto simp: dispatch_simps case_prod_Inr Let_def)
  then show ?thesis using reject_all_ended [of T aid a _ s ret n s1] by simp
qed

lemma rwa_dispatch_ended:
  assumes "rwa_inv s" "rwa_dispatch T H org call s = Inr s'"
  shows "keeps_ended (participations s) (participations s')"
proof -
  have quiet: "participations s' = participations s \<and> rwa_ledger s' = rwa_ledger s \<Longrightarrow> keeps_ended (participations s) (participations s')"
    by simp
  have register: "register_asset T org b pol meta s = Inr s' \<Longrightarrow> keeps_ended (participations s) (participations s')" for b pol meta
    by (auto dest!: register_asset_Inr)
  have un: "participations (unschedule aid m s) = participations s"
    "participations (case st of Sunsetting m \<Rightarrow> unschedule aid m s | _ \<Rightarrow> s) = participations s" for aid m st
    by (simp_all add: unschedule_def split: rwa_asset_status.splits)
  have retire: "force_retire_asset T H org aid s = Inr s' \<Longrightarrow> keeps_ended (participations s) (participations s')"
    "retire_asset T org aid s = Inr s' \<Longrightarrow> keeps_ended (participations s) (participations s')"
    "accept_ownership T org aid s = Inr s' \<Longrightarrow> keeps_ended (participations s) (participations s')" for aid
    by (auto simp: force_retire_asset_def retire_asset_def accept_ownership_def dispatch_simps sunsetting_Inr finish_retirement_eq
        un put_asset_def remove_from_owner_assets_def Let_def)
  show ?thesis using assms(2)
    by (cases call)
      (simp_all only: rwa_dispatch.simps,
        (rule register retire ending_calls_ended slash_participation_ended record_calls_ended request_participation_ended [OF assms(1)]
          renew_participation_ended batch_reject_pending_ended, assumption | rule quiet, rule quiet_calls_frame, assumption)+)
qed

section \<open>Runs\<close>

text \<open>What a run keeps of an asset: the terms of its deposits, its retirement and a sunset.\<close>

definition asset_kept :: "asset_info \<Rightarrow> asset_info \<Rightarrow> bool" where
  "asset_kept a b =
    (deposit_currency (policy b) = deposit_currency (policy a) \<and> deposit (policy b) = deposit (policy a) \<and>
     registration_deposit b = registration_deposit a \<and> registered_at b = registered_at a \<and>
     (asset_status a = Retired \<longrightarrow> b = a\<lparr>participant_count := participant_count b\<rparr>) \<and>
     (\<forall>n. asset_status a = Sunsetting n \<longrightarrow> asset_status b \<in> {Sunsetting n, Retired}))"

definition assets_kept :: "(nat, asset_info) fmap \<Rightarrow> (nat, asset_info) fmap \<Rightarrow> bool" where
  "assets_kept as as' = (\<forall>aid a. fmlookup as aid = Some a \<longrightarrow> (\<exists>b. fmlookup as' aid = Some b \<and> asset_kept a b))"

lemma asset_kept_refl [simp]: "asset_kept a a"
  by (simp add: asset_kept_def)

lemma asset_evolves_kept: "asset_evolves now a b \<Longrightarrow> asset_kept a b"
  by (auto simp: asset_evolves_def asset_kept_def status_may_become_def)

lemma asset_kept_trans:
  assumes ab: "asset_kept a b" and bc: "asset_kept b c"
  shows "asset_kept a c"
proof -
  have "c = a\<lparr>participant_count := participant_count c\<rparr>" if r: "asset_status a = Retired"
  proof -
    have b: "b = a\<lparr>participant_count := participant_count b\<rparr>" using ab r unfolding asset_kept_def by blast
    then have "asset_status b = asset_status a"
      by (metis asset_info.ext_inject asset_info.surjective asset_info.update_convs(6))
    then have "c = b\<lparr>participant_count := participant_count c\<rparr>" using bc r unfolding asset_kept_def by simp
    then show ?thesis using b by (metis asset_info.surjective asset_info.update_convs(6))
  qed
  moreover have "asset_status c \<in> {Sunsetting n, Retired}" if n: "asset_status a = Sunsetting n" for n
  proof (cases "asset_status b = Retired")
    case True
    then have "c = b\<lparr>participant_count := participant_count c\<rparr>" using bc unfolding asset_kept_def by blast
    then have "asset_status c = asset_status b" by (metis asset_info.ext_inject asset_info.surjective asset_info.update_convs(6))
    then show ?thesis using True by simp
  next
    case False
    then show ?thesis using ab bc n unfolding asset_kept_def by blast
  qed
  ultimately show ?thesis using ab bc unfolding asset_kept_def by simp
qed

lemma assets_kept_trans: "\<lbrakk>assets_kept as bs; assets_kept bs cs\<rbrakk> \<Longrightarrow> assets_kept as cs"
  unfolding assets_kept_def using asset_kept_trans by blast

lemma evolve_kept: "assets_evolve now as as' \<Longrightarrow> assets_kept as as'"
  unfolding assets_kept_def using assets_evolve_Some asset_evolves_kept by blast

definition rwa_kept :: "'l rwa_state \<Rightarrow> 'l rwa_state \<Rightarrow> bool" where
  "rwa_kept s s' = (assets_kept (rwa_assets s) (rwa_assets s') \<and> keeps_ended (participations s) (participations s'))"

lemma assets_kept_refl [simp]: "assets_kept as as"
  by (simp add: assets_kept_def)

lemma rwa_run_kept:
  assumes "(rwa_step T env ok)\<^sup>*\<^sup>* s s'" "rwa_inv s \<and> sunsets_ahead s"
  shows "(rwa_inv s' \<and> sunsets_ahead s') \<and> rwa_kept s s'"
  using assms
proof (rule reachable_related)
  fix s s' :: "'a rwa_state" assume I: "rwa_inv s \<and> sunsets_ahead s" and step: "rwa_step T env ok s s'"
  have "rwa_inv s' \<and> sunsets_ahead s'" using I step by (rule rwa_step_inv)
  moreover from step have "rwa_kept s s'"
  proof cases
    case (rwa_call H org call)
    then show ?thesis using I rwa_dispatch_ended rwa_dispatch_evolves evolve_kept unfolding rwa_kept_def by blast
  next
    case rwa_block
    have "assets_kept (rwa_assets s) (rwa_assets s')"
      using on_initialize_assets [of "s\<lparr>rwa_now := rwa_now s + 1\<rparr>" T "rwa_now s + 1"] I rwa_block
      by (auto simp: assets_kept_def asset_kept_def)
    then show ?thesis using rwa_block by (simp add: rwa_kept_def on_initialize_def retire_all_parts)
  qed (simp_all add: rwa_kept_def)
  ultimately show "(rwa_inv s' \<and> sunsets_ahead s') \<and> rwa_kept s s'" by blast
qed (auto simp: rwa_kept_def intro: assets_kept_trans keeps_ended_trans)

section \<open>The shares of a slash\<close>

lemma permill_mul_upper: "p \<le> permill_accuracy \<Longrightarrow> 2 * permill_accuracy * permill_mul p x \<le> 2 * (x * p) + permill_accuracy"
proof -
  assume "p \<le> permill_accuracy"
  then have eq: "permill_mul p x = (2 * (x * p) + permill_accuracy - 1) div (2 * permill_accuracy)"
    using permill_mul_nearest [of p x NearestPrefDown] by (simp add: permill_mul_def round_div_def)
  have "2 * permill_accuracy * permill_mul p x \<le> 2 * (x * p) + permill_accuracy - 1"
    unfolding eq by (metis mult.commute div_times_less_eq_dividend)
  then show ?thesis by linarith
qed

lemma share_amounts_le:
  "d + (\<Sum>r\<leftarrow>butlast rs. permill_mul (share r) tot) \<le> u128_max \<Longrightarrow>
     d + sum_list (share_amounts tot d rs) \<le> max tot (d + (\<Sum>r\<leftarrow>butlast rs. permill_mul (share r) tot))"
proof (induction rs arbitrary: d)
  case (Cons r rs)
  show ?case
  proof (cases "rs = []")
    case False
    let ?v = "permill_mul (share r) tot"
    have "add128 d ?v = d + ?v" using Cons.prems False by (intro sat_add_exact) simp
    then show ?thesis using Cons.IH [of "d + ?v"] Cons.prems False by (simp add: Let_def add.assoc)
  qed (simp add: Let_def)
qed simp

lemma nearest_sum:
  "(\<And>r. r \<in> set rs \<Longrightarrow> share r \<le> permill_accuracy) \<Longrightarrow>
     2 * permill_accuracy * (\<Sum>r\<leftarrow>rs. permill_mul (share r) tot) \<le> 2 * (tot * (\<Sum>r\<leftarrow>rs. share r)) + permill_accuracy * length rs"
proof (induction rs)
  case (Cons r rs)
  then have "2 * permill_accuracy * (\<Sum>r\<leftarrow>rs. permill_mul (share r) tot) \<le> 2 * (tot * (\<Sum>r\<leftarrow>rs. share r)) + permill_accuracy * length rs"
    by simp
  moreover have "2 * permill_accuracy * permill_mul (share r) tot \<le> 2 * (tot * share r) + permill_accuracy"
    using Cons.prems permill_mul_upper by simp
  ultimately show ?case by (simp add: algebra_simps)
qed simp

text \<open>The rounded shares exceed the amount by at most half a unit for each recipient but the last.\<close>

lemma share_amounts_excess:
  assumes "(\<Sum>r\<leftarrow>d. share r) = permill_accuracy" "tot + length d \<le> u128_max"
  shows "sum_list (share_amounts tot 0 d) \<le> tot + length d div 2"
proof -
  let ?S = "\<Sum>r\<leftarrow>butlast d. permill_mul (share r) tot"
  have le: "share r \<le> permill_accuracy" if "r \<in> set d" for r
    using that assms(1) member_le_sum_list [of "share r" "map share d"] by auto
  have "(\<Sum>r\<leftarrow>butlast d. share r) \<le> (\<Sum>r\<leftarrow>d. share r)" 
    by (cases d rule: rev_cases) simp_all
  then have "2 * (tot * (\<Sum>r\<leftarrow>butlast d. share r)) \<le> 2 * (tot * permill_accuracy)" using assms(1) by simp
  moreover have "2 * permill_accuracy * ?S \<le> 2 * (tot * (\<Sum>r\<leftarrow>butlast d. share r)) + permill_accuracy * length (butlast d)"
    by (rule nearest_sum) (use le in_set_butlastD in fast)
  ultimately have "2 * permill_accuracy * ?S \<le> 2 * (tot * permill_accuracy) + permill_accuracy * length (butlast d)"
    by (rule order_trans [OF _ add_right_mono, rotated])
  then have "permill_accuracy * (2 * ?S) \<le> permill_accuracy * (2 * tot + length (butlast d))"
    by (simp add: distrib_left mult.commute mult.left_commute del: length_butlast)
  then have S: "2 * ?S \<le> 2 * tot + length (butlast d)" by (simp add: permill_accuracy_def)
  then have "?S \<le> tot + length d div 2" "?S \<le> u128_max" using assms(2) by auto
  then show ?thesis using share_amounts_le [where d = 0 and rs = d and tot = tot] by simp
qed

end
