(* ===== verification/Rwa_Example.thy ===== *)
theory Rwa_Example
  imports Rwa_Final Crowdfunding_Example
begin

text \<open>
  Concrete runs of the pallet for real-world assets on the example ledger: an asset with two
  participants, one of them waiting for approval, and an asset that is sunset. The states are
  computed by the model; the theorems about reachable states are instantiated on them.
\<close>

text \<open>A run: a call with its origin, or \<open>None\<close> for the next block.\<close>

fun rwa_run ::
  "'l rwa_config \<Rightarrow> rwa_hooks \<Rightarrow> (origin \<Rightarrow> rwa_call \<Rightarrow> 'l rwa_state \<Rightarrow> bool) \<Rightarrow> (origin \<times> rwa_call) option list \<Rightarrow>
     'l rwa_state \<Rightarrow> ('l rwa_state) option" where
  "rwa_run T H ok [] s = Some s"
| "rwa_run T H ok (None # cs) s = rwa_run T H ok cs (on_initialize T (rwa_now s + 1) (s\<lparr>rwa_now := rwa_now s + 1\<rparr>))"
| "rwa_run T H ok (Some (org, call) # cs) s =
     (if ok org call s
      then (case rwa_dispatch T H org call s of Inr s' \<Rightarrow> rwa_run T H ok cs s' | Inl _ \<Rightarrow> None)
      else None)"

lemma rwa_run_steps: "rwa_run T H ok cs s = Some s' \<Longrightarrow> (rwa_step T env ok)\<^sup>*\<^sup>* s s'"
proof (induction T H ok cs s rule: rwa_run.induct)
  case (2 T H ok cs s)
  have "rwa_step T env ok s (on_initialize T (rwa_now s + 1) (s\<lparr>rwa_now := rwa_now s + 1\<rparr>))" by (rule rwa_block)
  then show ?case using 2 by (simp add: converse_rtranclp_into_rtranclp)
next
  case (3 T H ok org call cs s)
  then obtain s1 where "ok org call s" "rwa_dispatch T H org call s = Inr s1" "rwa_run T H ok cs s1 = Some s'"
    by (auto split: if_splits sum.splits)
  then show ?case using 3 rwa_call [of T H org call s s1 ok env] by (simp add: converse_rtranclp_into_rtranclp)
qed simp

lemma steps_reachable: "step\<^sup>*\<^sup>* s s' \<Longrightarrow> reachable start step s \<Longrightarrow> reachable start step s'"
  by (induction rule: rtranclp_induct) (auto intro: reachable_step)

definition demo_rwa :: "assets_state rwa_config" where
  "demo_rwa = \<lparr>rwa_currency = ledger_currencies demo_balances, rwa_admin_origin = ensure_root, rwa_force_origin = ensure_root,
     rwa_pallet_id = [112, 121, 47, 114, 119, 97, 97, 115], asset_registration_deposit = 100, max_assets_per_owner = 3,
     max_metadata_len = 8, max_slash_recipients = 5, max_group_size = 3, max_pending_approvals = 3,
     max_sunsetting_per_block = 2, max_participations_per_holder = 3, min_participation_deposit = 5\<rparr>"

definition demo_policy :: "bool \<Rightarrow> block_number option \<Rightarrow> asset_policy" where
  "demo_policy approval dur = \<lparr>deposit_currency = Native, entry_fee = 20, deposit = 60, max_duration = dur,
     max_participants = Some 4, requires_approval = approval\<rparr>"

definition demo_rwa_start :: "assets_state rwa_state" where
  "demo_rwa_start = rwa_init 10 demo_ledger"

text \<open>The guard of the escrow theorem on the example ledger, and the runs that satisfy it.\<close>

abbreviation demo_call_ok :: "origin \<Rightarrow> rwa_call \<Rightarrow> assets_state rwa_state \<Rightarrow> bool" where
  "demo_call_ok \<equiv> rwa_call_ok demo_rwa asset_room minimum_balance"

definition demo_rwa_then :: "(origin \<times> rwa_call) option list \<Rightarrow> assets_state rwa_state \<Rightarrow> assets_state rwa_state" where
  "demo_rwa_then cs s = (case rwa_run demo_rwa no_hooks demo_call_ok cs s of Some s' \<Rightarrow> s' | None \<Rightarrow> s)"

abbreviation demo_rwa_after :: "(origin \<times> rwa_call) option list \<Rightarrow> assets_state rwa_state" where
  "demo_rwa_after cs \<equiv> demo_rwa_then cs demo_rwa_start"

abbreviation demo_env :: "assets_state \<Rightarrow> assets_state \<Rightarrow> bool" where
  "demo_env \<equiv> rwa_env (ledger_currencies demo_balances) (ledger_inv demo_balances) (pallet_account demo_rwa)"

abbreviation demo_rwa_reachable :: "assets_state rwa_state \<Rightarrow> bool" where
  "demo_rwa_reachable \<equiv> reachable (rwa_start (ledger_inv demo_balances)) (rwa_step demo_rwa demo_env demo_call_ok)"

text \<open>
  An asset open to everybody and one with approval; account 2 joins the first with account 3 as a
  second holder, and asks to join the second.
\<close>

definition joined_calls :: "(origin \<times> rwa_call) option list" where
  "joined_calls =
    [Some (Signed 1, RegisterAsset 1 (demo_policy False (Some 2)) [1]),
     Some (Signed 1, RegisterAsset 1 (demo_policy True None) []),
     Some (Signed 2, RequestParticipation 0 [2, 3]), None,
     Some (Signed 2, RequestParticipation 1 [2])]"

definition sunset_calls :: "(origin \<times> rwa_call) option list" where
  "sunset_calls = joined_calls @ [Some (Signed 1, SunsetAsset 0 13)]"

definition exited_calls :: "(origin \<times> rwa_call) option list" where
  "exited_calls = joined_calls @ [Some (Signed 2, ExitParticipation 0 0)]"

text \<open>Two participants, and a slash divided evenly among five recipients.\<close>

definition even_shares :: "slash_recipient list" where
  "even_shares = replicate 5 \<lparr>slash_kind = ToBeneficiary, share = 200000\<rparr>"

definition slash_calls :: "(origin \<times> rwa_call) option list" where
  "slash_calls =
    [Some (Signed 1, RegisterAsset 1 (demo_policy False None) []),
     Some (Signed 2, RequestParticipation 0 [2]), Some (Signed 3, RequestParticipation 0 [3]),
     Some (Signed 1, SetSlashDistribution 0 even_shares)]"

lemma demo_rwa_steps: "(rwa_step demo_rwa demo_env demo_call_ok)\<^sup>*\<^sup>* s (demo_rwa_then cs s)"
  using rwa_run_steps [of demo_rwa no_hooks demo_call_ok cs s _ demo_env] by (auto simp: demo_rwa_then_def split: option.splits)

lemma demo_rwa_reached: "demo_rwa_reachable (demo_rwa_after cs)"
proof (rule steps_reachable [OF demo_rwa_steps])
  show "demo_rwa_reachable demo_rwa_start"
    by (rule reachable_start) (use demo_ledger_inv in \<open>unfold rwa_start_def demo_rwa_start_def, blast\<close>)
qed

end
