(* ===== verification/Rwa_Theorems.thy ===== *)
theory Rwa_Theorems
  imports Rwa_Example
begin

text \<open>
  The properties of the pallet for real-world assets. Theorems about reachable states hold for every
  sequence of calls, blocks and other events on the chain.
\<close>

section \<open>Auxiliary facts\<close>

lemmas ledger_escrow = payments.rwa_reachable_escrow [OF payments_contract]

lemma holder_index_exact:
  assumes "rwa_inv s"
  shows "fmlookup (holder_index s) (aid, who) = Some pid \<longleftrightarrow>
    (\<exists>p. fmlookup (participations s) (aid, pid) = Some p \<and> counted p \<and> who \<in> set (holders p))"
  using assms by (auto simp: rwa_inv_def index_inv_def active_holders_def split: option.splits if_splits)

lemma holder_assets_exact:
  assumes "rwa_inv s"
  shows "distinct (get_or [] (holder_assets s) who)"
    "aid \<in> set (get_or [] (holder_assets s) who) \<longleftrightarrow> (\<exists>pid. fmlookup (holder_index s) (aid, who) = Some pid)"
  using assms by (auto simp: rwa_inv_def index_inv_def contains_key_def)

lemma map_filter_set: "set (List.map_filter f xs) = {y. \<exists>x\<in>set xs. f x = Some y}"
  by (induction xs) (auto simp: List.map_filter_simps split: option.splits)

lemma map_filter_pairs: "distinct ids \<Longrightarrow> distinct (map fst (List.map_filter (\<lambda>i. map_option (Pair i) (f i)) ids))"
  by (induction ids) (auto simp: List.map_filter_simps map_filter_set split: option.splits)

lemma sunset_not_reached:
  "\<lbrakk>sunsets_ahead s; fmlookup (rwa_assets s) aid = Some a; asset_status a = Sunsetting n\<rbrakk> \<Longrightarrow> \<not> n \<le> rwa_now s"
  unfolding sunsets_ahead_def by (metis not_le)

text \<open>An ended participation pays nothing more: every call that would end it fails.\<close>

lemma ended_pays_nothing:
  assumes "fmlookup (participations s) (aid, pid) = Some p" "ended p"
  shows "\<not> is_ok (exit_participation T org aid pid s)" "\<not> is_ok (settle_expired_participation T org aid pid s)"
    "\<not> is_ok (claim_retired_deposit T org aid pid s)" "\<not> is_ok (revoke_participation T org aid pid s)"
    "\<not> is_ok (slash_participation T H org aid pid v r s)" "\<not> is_ok (reject_participation T org aid pid s)"
  using assms not_ended
  by (auto simp: is_ok_Inr dest!: exit_participation_Inr settle_expired_participation_Inr claim_retired_deposit_Inr
      revoke_participation_Inr slash_participation_Inr reject_participation_Inr)

section \<open>Properties\<close>

text \<open>
  C11: In every reachable state the account of the pallet holds, in every currency, at least the
  deposits of the open participations and the entry fees of the requests waiting for approval, on the
  ledger of the runtime. The calls are restricted as \<open>rwa_call_ok\<close> says: nobody signs for the account of
  the pallet, amounts fit the counters of an asset, and a slash is divided without a rounding excess.
\<close>

theorem escrow_covers_deposits:
  assumes "bal_config_ok C" "rwa_currency T = ledger_currencies C"
    and "reachable (rwa_start (ledger_inv C))
      (rwa_step T (rwa_env (ledger_currencies C) (ledger_inv C) (pallet_account T)) (rwa_call_ok T asset_room minimum_balance)) s"
  shows "escrow (rwa_assets s) (participations s) cur \<le> pay_balance (rwa_currency T) (rwa_ledger s) cur (pallet_account T)"
  using ledger_escrow [OF assms] by (simp add: escrow_covered_def)

theorem escrow_covers_deposits_witness:
  "escrow (rwa_assets (demo_rwa_after joined_calls)) (participations (demo_rwa_after joined_calls)) Native \<le> 140 \<and>
   map_option deposit_held (fmlookup (participations (demo_rwa_after joined_calls)) (0, 0)) = Some 60"
proof -
  have ev: "pay_balance (rwa_currency demo_rwa) (rwa_ledger (demo_rwa_after joined_calls)) Native (pallet_account demo_rwa) = 140 \<and>
    map_option deposit_held (fmlookup (participations (demo_rwa_after joined_calls)) (0, 0)) = Some 60" by code_simp
  have "rwa_currency demo_rwa = ledger_currencies demo_balances" by (simp add: demo_rwa_def)
  from escrow_covers_deposits [OF demo_balances_ok this demo_rwa_reached [of joined_calls], of Native] ev
  show ?thesis by simp
qed

text \<open>
  C13: In every reachable state the consistency checks of \<open>do_try_state\<close> succeed.
\<close>

theorem rwa_try_state_never_fails:
  assumes "reachable (rwa_start J) (rwa_step T env ok) s"
  shows "rwa_try_state s = Inr ()"
  using rwa_reachable_inv [OF assms] rwa_try_state_ok by blast

theorem rwa_try_state_never_fails_witness:
  "rwa_try_state (demo_rwa_after joined_calls) = Inr () \<and> active_participant_count 1 (demo_rwa_after joined_calls) = 1"
proof -
  have "active_participant_count 1 (demo_rwa_after joined_calls) = 1" by code_simp
  then show ?thesis using rwa_try_state_never_fails [OF demo_rwa_reached] by blast
qed

text \<open>
  C12: Over any run, an ended participation is final. Once a participation has exited, been slashed or
  been revoked, its record never changes again and no call pays its deposit a second time.
\<close>

theorem ended_participation_final:
  assumes "reachable (rwa_start J) (rwa_step T env ok) s" "(rwa_step T env ok)\<^sup>*\<^sup>* s s'"
    and "fmlookup (participations s) (aid, pid) = Some p" "participation_status p \<in> {Exited, Slashed, Revoked}"
  shows "fmlookup (participations s') (aid, pid) = Some p \<and>
    \<not> is_ok (exit_participation T org aid pid s') \<and> \<not> is_ok (settle_expired_participation T org aid pid s') \<and>
    \<not> is_ok (claim_retired_deposit T org aid pid s') \<and> \<not> is_ok (revoke_participation T org aid pid s') \<and>
    \<not> is_ok (slash_participation T H org aid pid v r s') \<and> \<not> is_ok (reject_participation T org aid pid s')"
proof -
  have e: "ended p" using assms(4) by (simp add: ended_def)
  have "fmlookup (participations s') (aid, pid) = Some p"
    using rwa_run_kept [OF assms(2) rwa_reachable_inv [OF assms(1)]] assms(3) e by (simp add: rwa_kept_def keeps_ended_def)
  with ended_pays_nothing [OF this e] show ?thesis by blast
qed

theorem ended_participation_final_witness:
  "\<not> is_ok (exit_participation demo_rwa (Signed 2) 0 0 (demo_rwa_then [None, None] (demo_rwa_after exited_calls)))"
proof -
  have ev: "map_option participation_status (fmlookup (participations (demo_rwa_after exited_calls)) (0, 0)) = Some Exited" by code_simp
  then obtain p where "fmlookup (participations (demo_rwa_after exited_calls)) (0, 0) = Some p" "participation_status p = Exited" by blast
  then show ?thesis using ended_participation_final [OF demo_rwa_reached demo_rwa_steps] by blast
qed

text \<open>
  C15: Over any run, an asset is never removed, the currency and the amount of its deposit, its
  registration deposit and its registration block never change, and a retired asset changes only in
  its count of participants.
\<close>

theorem asset_terms_fixed:
  assumes "reachable (rwa_start J) (rwa_step T env ok) s" "(rwa_step T env ok)\<^sup>*\<^sup>* s s'"
    and "fmlookup (rwa_assets s) aid = Some a"
  shows "\<exists>b. fmlookup (rwa_assets s') aid = Some b \<and> deposit_currency (policy b) = deposit_currency (policy a) \<and>
    deposit (policy b) = deposit (policy a) \<and> registration_deposit b = registration_deposit a \<and>
    registered_at b = registered_at a \<and> (asset_status a = Retired \<longrightarrow> b = a\<lparr>participant_count := participant_count b\<rparr>)"
  using rwa_run_kept [OF assms(2) rwa_reachable_inv [OF assms(1)]] assms(3)
  unfolding rwa_kept_def assets_kept_def asset_kept_def by meson

theorem asset_terms_fixed_witness:
  "\<exists>b. fmlookup (rwa_assets (demo_rwa_then [None, None] (demo_rwa_after sunset_calls))) 0 = Some b \<and> deposit (policy b) = 60"
proof -
  have "map_option (\<lambda>a. deposit (policy a)) (fmlookup (rwa_assets (demo_rwa_after sunset_calls)) 0) = Some 60" by code_simp
  then obtain a where "fmlookup (rwa_assets (demo_rwa_after sunset_calls)) 0 = Some a" "deposit (policy a) = 60" by blast
  then show ?thesis using asset_terms_fixed [OF demo_rwa_reached demo_rwa_steps] by metis
qed

text \<open>
  C14: A sunset comes on time. Once an asset is sunset at block n, it is retired in every later state of
  the chain whose block number has reached n, whatever else is called in between.
\<close>

theorem sunset_retires_on_time:
  assumes "reachable (rwa_start J) (rwa_step T env ok) s" "(rwa_step T env ok)\<^sup>*\<^sup>* s s'"
    and "fmlookup (rwa_assets s) aid = Some a" "asset_status a = Sunsetting n" "n \<le> rwa_now s'"
  shows "\<exists>b. fmlookup (rwa_assets s') aid = Some b \<and> asset_status b = Retired"
proof -
  note run = rwa_run_kept [OF assms(2) rwa_reachable_inv [OF assms(1)]]
  then obtain b where b: "fmlookup (rwa_assets s') aid = Some b" "asset_status b \<in> {Sunsetting n, Retired}"
    using assms(3,4) unfolding rwa_kept_def assets_kept_def asset_kept_def by meson
  moreover have "asset_status b \<noteq> Sunsetting n"
    using run assms(5) b(1) sunset_not_reached by blast
  ultimately show ?thesis by blast
qed

theorem sunset_retires_on_time_witness:
  "\<exists>b. fmlookup (rwa_assets (demo_rwa_then [None, None] (demo_rwa_after sunset_calls))) 0 = Some b \<and> asset_status b = Retired"
proof -
  have "map_option asset_status (fmlookup (rwa_assets (demo_rwa_after sunset_calls)) 0) = Some (Sunsetting 13)" by code_simp
  then obtain a where a: "fmlookup (rwa_assets (demo_rwa_after sunset_calls)) 0 = Some a" "asset_status a = Sunsetting 13" by blast
  have "13 \<le> rwa_now (demo_rwa_then [None, None] (demo_rwa_after sunset_calls))" by code_simp
  with a show ?thesis using sunset_retires_on_time [OF demo_rwa_reached demo_rwa_steps] by blast
qed

text \<open>
  C20: The call \<open>retire_asset\<close>, which retires an asset whose sunset block has been reached, never
  succeeds: when the block number reaches the sunset, the block hook has retired the asset already.
\<close>

theorem retire_asset_never_succeeds:
  assumes "reachable (rwa_start J) (rwa_step T env ok) s"
  shows "\<not> is_ok (retire_asset T org aid s)"
  using rwa_reachable_inv [OF assms]
  by (auto simp: is_ok_Inr retire_asset_def dispatch_simps sunsetting_Inr dest: sunset_not_reached)

theorem retire_asset_never_succeeds_witness:
  "\<not> is_ok (retire_asset demo_rwa (Signed 1) 0 (demo_rwa_after sunset_calls))"
  by (rule retire_asset_never_succeeds [OF demo_rwa_reached])

text \<open>
  C16: In every reachable state the query for the participations of an account returns exactly the open
  participations that list the account as a holder, and at most one of them for each asset.
\<close>

theorem participations_by_holder_exact:
  assumes "reachable (rwa_start J) (rwa_step T env ok) s"
  shows "distinct (map fst (participations_by_holder who s)) \<and>
    set (participations_by_holder who s) =
      {(aid, pid). \<exists>p. fmlookup (participations s) (aid, pid) = Some p \<and> counted p \<and> who \<in> set (holders p)}"
proof -
  have I: "rwa_inv s" using rwa_reachable_inv [OF assms] by blast
  have "(aid, pid) \<in> set (participations_by_holder who s) \<longleftrightarrow> fmlookup (holder_index s) (aid, who) = Some pid" for aid pid
    using holder_assets_exact(2) [OF I] by (auto simp: participations_by_holder_def map_filter_set)
  moreover have "distinct (map fst (participations_by_holder who s))"
    unfolding participations_by_holder_def by (rule map_filter_pairs [OF holder_assets_exact(1) [OF I]])
  ultimately show ?thesis using holder_index_exact [OF I] by auto
qed

theorem participations_by_holder_exact_witness:
  "participations_by_holder 2 (demo_rwa_after joined_calls) = [(0, 0), (1, 0)] \<and>
   distinct (map fst (participations_by_holder 2 (demo_rwa_after joined_calls)))"
proof -
  have "participations_by_holder 2 (demo_rwa_after joined_calls) = [(0, 0), (1, 0)]" by code_simp
  then show ?thesis using participations_by_holder_exact [OF demo_rwa_reached] by blast
qed

text \<open>
  C17: The query \<open>can_participate\<close> agrees with the dispatchable: where the lists and the identifiers have
  room, a request for a single holder succeeds exactly when the query accepts the holder and the payer
  can pay.
\<close>

theorem can_participate_exact:
  assumes "fmlookup (rwa_assets s) aid = Some a" "participant_count a < u32_max" "0 < max_group_size T"
    and "length (get_or [] (holder_assets s) who) < max_participations_per_holder T"
    and "length (get_or [] (pending_approvals s) aid) < max_pending_approvals T"
    and "get_or 0 (next_participation_id s) aid < u32_max"
  shows "is_ok (request_participation T H (Signed p) aid [who] s) \<longleftrightarrow>
    can_participate H aid who s = Inr () \<and> is_ok (collect T a p s)"
proof -
  have "is_ok (enroll T aid a p [who] s1)" if "collect T a p s = Inr s1" for s1
    using collect_frame [OF that] assms(6) by (auto simp: enroll_def is_ok_Inr dispatch_simps Let_def)
  moreover have "add32 (participant_count a) 1 = participant_count a + 1"
    using assms(2) by (simp add: sat_add_exact)
  ultimately show ?thesis using assms
    by (auto simp: is_ok_Inr request_participation_def can_participate_def dispatch_simps check_holders_Inr
        check_filter_Inr split: option.splits)
qed

theorem can_participate_exact_witness:
  "\<not> is_ok (request_participation demo_rwa no_hooks (Signed 1) 1 [2] (demo_rwa_after joined_calls))"
proof -
  let ?s = "demo_rwa_after joined_calls"
  have 1: "map_option participant_count (fmlookup (rwa_assets ?s) 1) = Some 1 \<and> 0 < max_group_size demo_rwa \<and>
    length (get_or [] (holder_assets ?s) 2) < max_participations_per_holder demo_rwa \<and>
    length (get_or [] (pending_approvals ?s) 1) < max_pending_approvals demo_rwa \<and>
    get_or 0 (next_participation_id ?s) 1 < u32_max \<and> 1 < u32_max \<and>
    can_participate no_hooks 1 2 ?s = Inl CpAlreadyParticipating" by code_simp
  then obtain a where "fmlookup (rwa_assets ?s) 1 = Some a" "participant_count a < u32_max" by auto
  then show ?thesis using can_participate_exact [of ?s 1 a demo_rwa 2 no_hooks 1] 1 by auto
qed

text \<open>
  C18: When a slash without burning is divided among the recipients, the account of the pallet loses at
  most the slashed amount and half a unit for each recipient, whatever the shares are.
\<close>

theorem slash_excess_bounded:
  assumes "bal_config_ok C" "rwa_currency T = ledger_currencies C" "ledger_inv C (rwa_ledger s)"
    and "fmlookup (asset_slash_distribution s) aid = Some d" "total_parts d = permill_accuracy"
    and "\<forall>r\<in>set d. slash_kind r \<noteq> ToBurn" "amount + length d \<le> u128_max"
    and "do_distribute_slash T cur amount aid b r s = Inr s'"
  shows "pay_balance (ledger_currencies C) (rwa_ledger s) cur (pallet_account T)
    \<le> pay_balance (ledger_currencies C) (rwa_ledger s') cur (pallet_account T) + amount + length d div 2"
proof -
  have sum: "sum_list (map share d) = permill_accuracy" using assms(5) total_parts_sum by blast
  then have "d \<noteq> []" by (auto simp: permill_accuracy_def)
  then have "distribute_shares T cur amount b r 0 d s = Inr s'"
    using assms(4,8) by (auto simp: do_distribute_slash_def neq_Nil_conv)
  from payments.distribute_shares_effect [OF payments_contract [OF assms(1)] assms(2) this _ assms(3)] assms(6)
  have "pay_balance (ledger_currencies C) (rwa_ledger s) cur (pallet_account T)
    \<le> pay_balance (ledger_currencies C) (rwa_ledger s') cur (pallet_account T) + sum_list (share_amounts amount 0 d)" by auto
  then show ?thesis using share_amounts_excess [OF sum assms(7)] by simp
qed

theorem slash_excess_bounded_witness:
  "is_ok (do_distribute_slash demo_rwa Native 3 0 1 None (demo_rwa_after slash_calls)) \<and>
   120 \<le> pay_balance (ledger_currencies demo_balances)
     (rwa_ledger (projr (do_distribute_slash demo_rwa Native 3 0 1 None (demo_rwa_after slash_calls)))) Native (pallet_account demo_rwa) + 3 + 2"
proof -
  let ?s = "demo_rwa_after slash_calls" and ?K = "ledger_currencies demo_balances"
  have ev: "pay_balance ?K (rwa_ledger ?s) Native (pallet_account demo_rwa) = 120 \<and>
    map_option (list_all (\<lambda>r. slash_kind r \<noteq> ToBurn)) (fmlookup (asset_slash_distribution ?s) 0) = Some True \<and>
    map_option (\<lambda>d. (total_parts d, length d)) (fmlookup (asset_slash_distribution ?s) 0) = Some (permill_accuracy, 5) \<and> 3 + 5 \<le> u128_max"
    by code_simp
  have ok: "is_ok (do_distribute_slash demo_rwa Native 3 0 1 None ?s)" by code_simp
  then obtain s' where s': "do_distribute_slash demo_rwa Native 3 0 1 None ?s = Inr s'" by (auto simp: is_ok_Inr)
  obtain d where d: "fmlookup (asset_slash_distribution ?s) 0 = Some d" "total_parts d = permill_accuracy"
    "\<forall>r\<in>set d. slash_kind r \<noteq> ToBurn" "3 + length d \<le> u128_max" "length d = 5" using ev by (auto simp: list_all_iff)
  have K: "rwa_currency demo_rwa = ?K" by (simp add: demo_rwa_def)
  have "ledger_inv demo_balances (rwa_ledger ?s)" using ledger_escrow [OF demo_balances_ok K demo_rwa_reached] by blast
  from slash_excess_bounded [OF demo_balances_ok K this d(1-4) s'] show ?thesis using ev ok s' d(5) by simp
qed


end
