(* ===== verification/Spec2Isabelle.thy ===== *)
theory Spec2Isabelle
  imports Ledger_Theorems Crowdfunding_Theorems Crowdfunding_Calls Crowdfunding_Amounts Rwa_Theorems
begin

text \<open>
  A verification development for the THXNET pallets.
\<close>

end
